(* ===== verification/Bingit_Prelude.thy ===== *)
theory Bingit_Prelude
  imports Main "HOL-Library.Sublist" "HOL-Library.Char_ord" "HOL-Library.List_Lexorder"
    "HOL-Library.Word" "HOL-Library.AList" "HOL-Library.Multiset"
begin

text \<open>
  What the components share: the part of the C++ language and of its standard library that
  the sources of Bingit use, and the lemmas the component theories rest on.

  \<^item> \<open>std::string\<close> is \<^typ>\<open>string\<close>; \<open>operator<\<close> on it is the lexicographic order on
    unsigned bytes, which is the order of \<open>List_Lexorder\<close> over \<open>Char_ord\<close>.
  \<^item> A C string is what precedes the first NUL byte (\<open>c_str\<close>).
  \<^item> \<open>std::map\<close> is an association list in strictly increasing key order, which is the
    order its iterators visit (\<open>map_put\<close> is \<open>m[k] = v\<close>, \<open>map_of\<close> is \<open>find\<close>).
  \<^item> \<open>std::unordered_map\<close> is an association list with distinct keys
    (\<open>AList.update\<close> is \<open>m[k] = v\<close>). The standard leaves its iteration order open, so
    code that iterates over one takes the enumeration as an argument.
  \<^item> Undefined behaviour, uncaught exceptions and loops that never end are values of
    \<open>outcome\<close>, so that theorems can state when they happen and when they do not.
\<close>

named_theorems fault_rules \<open>which faults a computation can run into\<close>

section \<open>Outcomes\<close>

datatype fault =
    OutOfRange        \<comment> \<open>\<open>std::out_of_range\<close> from \<open>std::string::substr\<close>\<close>
  | NullString        \<comment> \<open>a \<open>std::string\<close> constructed from a null pointer\<close>
  | NullPointer       \<comment> \<open>a null or never initialised pointer is dereferenced\<close>
  | BufferOverflow    \<comment> \<open>\<open>sscanf\<close> writes past the end of its buffer\<close>
  | BadFormat         \<comment> \<open>a \<open>sscanf\<close> directive without a matching argument\<close>
  | NotConnected      \<comment> \<open>\<open>boost::system::system_error\<close> from \<open>remote_endpoint\<close>\<close>
  | UseAfterFree      \<comment> \<open>memory is read after its owner has been destroyed\<close>

datatype 'a outcome = Returns 'a | Faults fault | Diverges

fun bind_outcome :: "'a outcome \<Rightarrow> ('a \<Rightarrow> 'b outcome) \<Rightarrow> 'b outcome" where
  "bind_outcome (Returns x) f = f x"
| "bind_outcome (Faults e) f = Faults e"
| "bind_outcome Diverges f = Diverges"

lemma bind_outcome_Returns_iff [simp]:
  "bind_outcome r f = Returns y \<longleftrightarrow> (\<exists>x. r = Returns x \<and> f x = Returns y)"
  by (cases r) auto

lemma bind_outcome_Faults_iff [simp]:
  "bind_outcome r f = Faults e \<longleftrightarrow> r = Faults e \<or> (\<exists>x. r = Returns x \<and> f x = Faults e)"
  by (cases r) auto

text \<open>A computation that returns or runs into one of the given faults.\<close>

definition only_faults :: "fault set \<Rightarrow> 'a outcome \<Rightarrow> bool" where
  "only_faults S r \<longleftrightarrow> r \<noteq> Diverges \<and> (\<forall>f. r = Faults f \<longrightarrow> f \<in> S)"

lemma only_faults_simps [simp]:
  "only_faults S (Returns x)" "only_faults S (Faults f) \<longleftrightarrow> f \<in> S" "\<not> only_faults S Diverges"
  by (auto simp: only_faults_def)

lemma only_faults_bind [intro]:
  "only_faults S r \<Longrightarrow> (\<And>x. r = Returns x \<Longrightarrow> only_faults S (f x)) \<Longrightarrow> only_faults S (bind_outcome r f)"
  by (cases r) auto

lemma only_faults_mono: "only_faults S r \<Longrightarrow> S \<subseteq> T \<Longrightarrow> only_faults T r"
  by (auto simp: only_faults_def)

section \<open>Characters and strings\<close>

abbreviation NUL :: char where "NUL \<equiv> CHR 0x00"
abbreviation TAB :: char where "TAB \<equiv> CHR 0x09"
abbreviation LF :: char where "LF \<equiv> CHR 0x0A"
abbreviation CR :: char where "CR \<equiv> CHR 0x0D"
abbreviation SP :: char where "SP \<equiv> CHR 0x20"
abbreviation DQUOTE :: char where "DQUOTE \<equiv> CHR 0x22"
abbreviation SQUOTE :: char where "SQUOTE \<equiv> CHR 0x27"

definition CRLF :: string where "CRLF = [CR, LF]"

lemma length_CRLF [simp]: "length CRLF = 2"
  by (simp add: CRLF_def)

lemma set_CRLF [simp]: "set CRLF = {CR, LF}"
  by (simp add: CRLF_def)

text \<open>The bytes of a buffer that a \<open>const char*\<close> to its start denotes.\<close>

definition c_str :: "string \<Rightarrow> string" where
  "c_str s = takeWhile (\<lambda>c. c \<noteq> NUL) s"

lemma c_str_no_NUL: "NUL \<notin> set (c_str s)"
  unfolding c_str_def by (metis set_takeWhileD)

lemma c_str_id [simp]: "NUL \<notin> set s \<Longrightarrow> c_str s = s"
  by (auto simp: c_str_def takeWhile_eq_all_conv)

lemma c_str_idem [simp]: "c_str (c_str s) = c_str s"
  by (simp add: c_str_no_NUL)

lemma length_c_str: "length (c_str s) \<le> length s"
  by (simp add: c_str_def length_takeWhile_le)

definition isdigit :: "char \<Rightarrow> bool" where
  "isdigit c \<longleftrightarrow> c \<in> set ''0123456789''"

text \<open>\<open>std::string::find\<close>: the least position at which the pattern occurs, if any.\<close>

fun str_find :: "string \<Rightarrow> string \<Rightarrow> nat option" where
  "str_find [] pat = (if pat = [] then Some 0 else None)"
| "str_find (c # cs) pat =
     (if prefix pat (c # cs) then Some 0 else map_option Suc (str_find cs pat))"

lemma str_find_0_iff [simp]: "str_find s pat = Some 0 \<longleftrightarrow> prefix pat s"
  by (cases s) auto

lemma str_find_Some:
  "str_find s pat = Some i \<Longrightarrow> i + length pat \<le> length s \<and> prefix pat (drop i s)"
proof (induction s arbitrary: i)
  case (Cons c cs)
  then show ?case by (auto split: if_splits dest: prefix_length_le)
qed (auto split: if_splits)

lemma str_find_first:
  "str_find s pat = Some i \<Longrightarrow> j < i \<Longrightarrow> \<not> prefix pat (drop j s)"
proof (induction s arbitrary: i j)
  case (Cons c cs)
  then show ?case by (cases j) (auto split: if_splits)
qed (auto split: if_splits)

lemma str_find_None:
  "str_find s pat = None \<longleftrightarrow> (\<forall>a b. s \<noteq> a @ pat @ b)"
proof (induction s)
  case (Cons c cs)
  show ?case
  proof
    assume "str_find (c # cs) pat = None"
    then have np: "\<not> prefix pat (c # cs)" and n: "str_find cs pat = None"
      by (auto split: if_splits)
    from n Cons.IH have ih: "\<And>a b. cs \<noteq> a @ pat @ b" by simp
    show "\<forall>a b. c # cs \<noteq> a @ pat @ b"
    proof (intro allI)
      fix a b
      show "c # cs \<noteq> a @ pat @ b"
        using np ih by (cases a) (auto simp: prefix_def)
    qed
  next
    assume nf: "\<forall>a b. c # cs \<noteq> a @ pat @ b"
    from nf [THEN spec, of "[]"] have "\<not> prefix pat (c # cs)" by (auto simp: prefix_def)
    moreover have "\<forall>a b. cs \<noteq> a @ pat @ b"
    proof (intro allI)
      fix a b
      from nf [THEN spec, of "c # a"] show "cs \<noteq> a @ pat @ b" by simp
    qed
    ultimately show "str_find (c # cs) pat = None" using Cons.IH by simp
  qed
qed auto

text \<open>\<open>std::string::substr(pos)\<close>: throws when the position is past the end.\<close>

definition str_substr :: "string \<Rightarrow> nat \<Rightarrow> string outcome" where
  "str_substr s pos = (if pos \<le> length s then Returns (drop pos s) else Faults OutOfRange)"

text \<open>Parts of a text assembled by concatenation.\<close>

lemma sublist_concat_map: "x \<in> set xs \<Longrightarrow> sublist (f x) (concat (map f xs))"
  by (auto simp: in_set_conv_decomp)

lemma sublist_embed:
  "sublist xs ys \<Longrightarrow> sublist xs (ps @ ys)"
  "sublist xs ys \<Longrightarrow> sublist xs (ys @ ss)"
  unfolding sublist_def by (metis append.assoc)+

section \<open>Decimal numbers\<close>

definition digit_char :: "nat \<Rightarrow> char" where
  "digit_char d = ''0123456789'' ! d"

definition digit_val :: "char \<Rightarrow> nat" where
  "digit_val c = of_char c - 48"

fun nat_to_string :: "nat \<Rightarrow> string" where
  "nat_to_string n =
     (if n < 10 then [digit_char n] else nat_to_string (n div 10) @ [digit_char (n mod 10)])"

declare nat_to_string.simps [simp del]

text \<open>\<open>std::to_string(int)\<close>.\<close>

definition to_string :: "int \<Rightarrow> string" where
  "to_string i = (if i < 0 then CHR ''-'' # nat_to_string (nat (- i)) else nat_to_string (nat i))"

text \<open>The value of a string of decimal digits.\<close>

definition decimal :: "string \<Rightarrow> nat" where
  "decimal s = foldl (\<lambda>v c. 10 * v + digit_val c) 0 s"

lemma digit_cases:
  assumes "d < (10::nat)"
  obtains "d = 0" | "d = 1" | "d = 2" | "d = 3" | "d = 4" | "d = 5" | "d = 6" | "d = 7"
    | "d = 8" | "d = 9"
  using assms by (auto simp: numeral_eq_Suc less_Suc_eq)

lemma digit_val_char [simp]: "d < 10 \<Longrightarrow> digit_val (digit_char d) = d"
  by (erule digit_cases) (simp_all add: digit_val_def digit_char_def)

lemma isdigit_digit_char [simp]: "d < 10 \<Longrightarrow> isdigit (digit_char d)"
  by (erule digit_cases) (simp_all add: isdigit_def digit_char_def)

lemma nat_to_string_digits: "\<forall>c \<in> set (nat_to_string n). isdigit c"
proof (induction n rule: nat_to_string.induct)
  case (1 n)
  then show ?case by (cases "n < 10") (simp_all add: nat_to_string.simps [of n])
qed

lemma nat_to_string_nonempty [simp]: "nat_to_string n \<noteq> []" "[] \<noteq> nat_to_string n"
  by (subst nat_to_string.simps, simp)+

lemma decimal_append_digit [simp]: "decimal (s @ [c]) = 10 * decimal s + digit_val c"
  by (simp add: decimal_def)

lemma decimal_nat_to_string [simp]: "decimal (nat_to_string n) = n"
proof (induction n rule: nat_to_string.induct)
  case (1 n)
  then show ?case
    by (cases "n < 10") (simp_all add: nat_to_string.simps [of n] decimal_def)
qed

lemma nat_to_string_inject [simp]: "nat_to_string m = nat_to_string n \<longleftrightarrow> m = n"
  by (metis decimal_nat_to_string)

lemma to_string_of_nat [simp]: "to_string (int n) = nat_to_string n"
  by (simp add: to_string_def)

lemma not_isdigit [simp]:
  "\<not> isdigit CR" "\<not> isdigit LF" "\<not> isdigit NUL" "\<not> isdigit CHR '' ''" "\<not> isdigit CHR ''.''"
  "\<not> isdigit CHR ''/''" "\<not> isdigit CHR 0x27" "\<not> isdigit CHR ''-''" "\<not> isdigit CHR ''&''"
  "\<not> isdigit CHR '',''"
  by (simp_all add: isdigit_def)

lemma nat_to_string_no [simp]: "\<not> isdigit c \<Longrightarrow> c \<notin> set (nat_to_string n)"
  using nat_to_string_digits by blast

text \<open>
  \<open>int\<close> has 32 bits and \<open>short\<close> has 16. \<open>atoi\<close> is glibc's \<open>(int) strtol(s, NULL, 10)\<close>:
  the 64-bit conversion saturates and the cast to \<open>int\<close> keeps the low 32 bits. It is only
  applied to non-empty strings of digits.
\<close>

definition atoi :: "string \<Rightarrow> int" where
  "atoi s = sint (word_of_int (min (int (decimal s)) (2 ^ 63 - 1)) :: 32 word)"

lemma atoi_small:
  assumes "decimal s < 2 ^ 31"
  shows "atoi s = int (decimal s)"
proof -
  have "atoi s = signed_take_bit 31 (min (int (decimal s)) (2 ^ 63 - 1))"
    unfolding atoi_def sint_sbintrunc' by simp
  with assms show ?thesis by (simp add: min_def signed_take_bit_int_eq_self)
qed

section \<open>Ordered maps: \<open>std::map\<close>\<close>

type_synonym ('k, 'v) stdmap = "('k \<times> 'v) list"

text \<open>\<open>m[k] = v\<close>\<close>

fun map_put :: "'k::linorder \<Rightarrow> 'v \<Rightarrow> ('k, 'v) stdmap \<Rightarrow> ('k, 'v) stdmap" where
  "map_put k v [] = [(k, v)]"
| "map_put k v (e # m) =
     (if fst e < k then e # map_put k v m
      else if fst e = k then (k, v) # m
      else (k, v) # e # m)"

definition map_ok :: "('k::linorder, 'v) stdmap \<Rightarrow> bool" where
  "map_ok m \<longleftrightarrow> sorted_wrt (<) (map fst m)"

lemma keys_map_put [simp]: "fst ` set (map_put k v m) = insert k (fst ` set m)"
  by (induction m) auto

lemma map_ok_Nil [simp]: "map_ok []"
  by (simp add: map_ok_def)

lemma map_ok_Cons: "map_ok (e # m) \<longleftrightarrow> (\<forall>k \<in> fst ` set m. fst e < k) \<and> map_ok m"
  by (auto simp: map_ok_def)

lemma map_ok_put: "map_ok m \<Longrightarrow> map_ok (map_put k v m)"
proof (induction m)
  case (Cons e m)
  then show ?case by (auto simp: map_ok_Cons)
qed (simp add: map_ok_Cons)

lemma map_ok_distinct: "map_ok m \<Longrightarrow> distinct (map fst m)"
  by (simp add: map_ok_def strict_sorted_iff)

lemma map_of_put: "map_of (map_put k v m) = (map_of m)(k \<mapsto> v)"
  by (induction m) (auto simp: fun_eq_iff)

text \<open>
  The contract of the standard containers: what \<open>find\<close> returns after an assignment, that
  the invariant is kept, and that iteration visits every entry once. \<open>std::map\<close> and
  \<open>std::unordered_map\<close> both provide it.
\<close>

locale keyed_map =
  fixes put :: "'k \<Rightarrow> 'v \<Rightarrow> ('k \<times> 'v) list \<Rightarrow> ('k \<times> 'v) list"
    and ok :: "('k \<times> 'v) list \<Rightarrow> bool"
  assumes ok_Nil: "ok []"
    and ok_put: "ok m \<Longrightarrow> ok (put k v m)"
    and get_put: "map_of (put k v m) = (map_of m)(k \<mapsto> v)"
    and ok_distinct: "ok m \<Longrightarrow> distinct (map fst m)"
begin

lemma put_absorb: "map_of (put k v (put k w m)) = map_of (put k v m)"
  by (simp add: get_put)

lemma ok_fold: "ok m \<Longrightarrow> ok (fold (\<lambda>(k, v). put k v) kvs m)"
  by (induction kvs arbitrary: m) (auto simp: ok_put)

text \<open>A sequence of assignments keeps, for every key, the last value assigned.\<close>

lemma get_fold: "map_of (fold (\<lambda>(k, v). put k v) kvs m) = map_of m ++ map_of (rev kvs)"
  by (induction kvs arbitrary: m) (auto simp: get_put map_add_def fun_eq_iff split: option.splits)

text \<open>Iterating over the map visits exactly the entries that look-up sees.\<close>

lemma iterate_iff: "ok m \<Longrightarrow> (k, v) \<in> set m \<longleftrightarrow> map_of m k = Some v"
  using ok_distinct by auto

end

interpretation ordered: keyed_map map_put map_ok
  by unfold_locales (simp_all add: map_ok_put map_of_put map_ok_distinct)

interpretation unordered: keyed_map AList.update "\<lambda>m. distinct (map fst m)"
  by unfold_locales (simp_all add: distinct_update update_conv')

section \<open>Counters\<close>

text \<open>
  The update \<open>session::handle_read\<close> performs on \<open>url_counter\<close> and on \<open>code_counter\<close>:
  a missing key is set to 0, then the entry is incremented.
\<close>

definition bump_counter :: "'k::linorder \<Rightarrow> ('k, int) stdmap \<Rightarrow> ('k, int) stdmap" where
  "bump_counter k m =
     (let m' = (if map_of m k = None then map_put k 0 m else m)
      in case map_of m' k of Some n \<Rightarrow> map_put k (n + 1) m' | None \<Rightarrow> m')"

definition count_of :: "('k, int) stdmap \<Rightarrow> 'k \<Rightarrow> int" where
  "count_of m k = (case map_of m k of None \<Rightarrow> 0 | Some n \<Rightarrow> n)"

definition total_count :: "('k, int) stdmap \<Rightarrow> int" where
  "total_count m = sum_list (map snd m)"

lemma count_of_Nil [simp]: "count_of [] k = 0" "total_count [] = 0"
  by (simp_all add: count_of_def total_count_def)

lemma bump_counter_get:
  "map_of (bump_counter k m) = (map_of m)(k \<mapsto> count_of m k + 1)"
  by (auto simp: bump_counter_def count_of_def Let_def map_of_put fun_eq_iff split: option.splits)

lemma map_ok_bump: "map_ok m \<Longrightarrow> map_ok (bump_counter k m)"
  by (auto simp: bump_counter_def Let_def map_ok_put split: option.splits)

lemma total_count_put:
  "map_ok m \<Longrightarrow> total_count (map_put k v m) = total_count m - count_of m k + v"
proof (induction m)
  case (Cons e m)
  obtain a b where e: "e = (a, b)" by fastforce
  show ?case
  proof (cases "a = k")
    case False
    show ?thesis
    proof (cases "a < k")
      case True
      with Cons e False show ?thesis by (simp add: total_count_def count_of_def map_ok_Cons)
    next
      case False
      with \<open>a \<noteq> k\<close> Cons.prems e have "map_of m k = None"
        by (fastforce simp: map_ok_Cons map_of_eq_None_iff)
      with False \<open>a \<noteq> k\<close> e show ?thesis by (simp add: total_count_def count_of_def)
    qed
  qed (simp add: total_count_def count_of_def e)
qed (simp add: total_count_def count_of_def)

lemma total_count_bump: "map_ok m \<Longrightarrow> total_count (bump_counter k m) = total_count m + 1"
proof -
  assume ok: "map_ok m"
  show ?thesis
  proof (cases "map_of m k")
    case None
    with ok show ?thesis
      by (simp add: bump_counter_def map_of_put total_count_put map_ok_put count_of_def)
  next
    case (Some n)
    with ok show ?thesis by (simp add: bump_counter_def total_count_put count_of_def)
  qed
qed

text \<open>
  The interface both counters have towards \<open>session\<close> and \<open>status_handler\<close>, and what
  follows from it for any sequence of updates.
\<close>

locale counter_table =
  fixes bump :: "'k \<Rightarrow> 'm \<Rightarrow> 'm" and count :: "'m \<Rightarrow> 'k \<Rightarrow> int"
    and total :: "'m \<Rightarrow> int" and ok :: "'m \<Rightarrow> bool"
  assumes count_bump: "ok m \<Longrightarrow> count (bump k m) j = count m j + (if j = k then 1 else 0)"
    and total_bump: "ok m \<Longrightarrow> total (bump k m) = total m + 1"
    and ok_bump: "ok m \<Longrightarrow> ok (bump k m)"
begin

lemma ok_bumps: "ok m \<Longrightarrow> ok (fold bump ks m)"
  by (induction ks arbitrary: m) (simp_all add: ok_bump)

lemma total_bumps: "ok m \<Longrightarrow> total (fold bump ks m) = total m + int (length ks)"
  by (induction ks arbitrary: m) (simp_all add: ok_bump total_bump)

lemma count_bumps: "ok m \<Longrightarrow> count (fold bump ks m) j = count m j + int (count_list ks j)"
  by (induction ks arbitrary: m) (simp_all add: ok_bump count_bump)

end

interpretation counter: counter_table bump_counter count_of total_count map_ok
proof unfold_locales
  show "count_of (bump_counter k m) j = count_of m j + (if j = k then 1 else 0)"
    for m :: "('k::linorder, int) stdmap" and k j
    by (simp add: count_of_def [of "bump_counter k m"] bump_counter_get)
      (simp add: count_of_def)
qed (simp_all add: total_count_bump map_ok_bump)

text \<open>An entry of a counter: a key that has been counted, with how often.\<close>

lemma map_of_bumps: "map_of (fold bump_counter ks []) k =
    (if k \<in> set ks then Some (int (count_list ks k)) else None)"
proof (induction ks rule: rev_induct)
  case (snoc x ks)
  then show ?case by (auto simp: bump_counter_get count_of_def)
qed simp

lemma counter_entry:
  assumes "(k, n) \<in> set (fold bump_counter ks [])"
  shows "k \<in> set ks \<and> 1 \<le> n \<and> n \<le> int (length ks)"
proof -
  have "map_ok (fold bump_counter ks [])" by (simp add: counter.ok_bumps)
  with assms have "map_of (fold bump_counter ks []) k = Some n"
    by (simp add: map_ok_def strict_sorted_iff)
  then have "k \<in> set ks" "n = int (count_list ks k)" by (simp_all add: map_of_bumps split: if_splits)
  moreover have "count_list ks k \<le> length ks" by (rule count_le_length)
  moreover have "count_list ks k \<noteq> 0" using \<open>k \<in> set ks\<close> by (simp add: count_list_0_iff)
  ultimately show ?thesis by simp
qed

lemma counter_values: "n \<in> snd ` set (fold bump_counter ks []) \<Longrightarrow> 1 \<le> n \<and> n \<le> int (length ks)"
  and counter_keys: "k \<in> fst ` set (fold bump_counter ks []) \<Longrightarrow> k \<in> set ks"
  using counter_entry by force+

lemma int32_id: "0 \<le> n \<Longrightarrow> n < 2 ^ 31 \<Longrightarrow> sint (word_of_int n :: 32 word) = n"
  by (simp add: signed_of_int signed_take_bit_int_eq_self)

end
