(* ===== verification/Config_Parser.thy ===== *)
theory Config_Parser
  imports Bingit_Prelude
begin

text \<open>
  \<^verbatim>\<open>include/config_parser.h\<close> and \<^verbatim>\<open>src/config_parser.cc\<close>: the parsed configuration, its printer
  \<open>ToString\<close>, the tokenizer \<open>ParseToken\<close>, the parser \<open>Parse\<close> and the queries
  \<open>get_port\<close>, \<open>get_key_value\<close> and \<open>get_handler_paths\<close>.

  A \<open>std::istream\<close> is the list of its unread bytes: \<open>get\<close> at the end makes the stream not
  good, and every later \<open>ParseToken\<close> then reports the end of the file, as it does on the
  empty list. \<open>config_stack\<close> holds pointers into the configuration under construction; each
  points to the child block of the last statement of the block below it. The model keeps the
  blocks on the stack apart (top first) and stores a block into its parent when it is popped
  (\<open>close_block\<close>); \<open>stack_config\<close> is the configuration the out-parameter holds at any moment.
\<close>

section \<open>The parsed configuration\<close>

datatype NginxConfigStatement =
    NginxConfigStatement (tokens: "string list") (child_block: "NginxConfig option")
  and NginxConfig =
    NginxConfig (statements: "NginxConfigStatement list")

definition indent :: "nat \<Rightarrow> string" where
  "indent depth = concat (replicate depth ''  '')"

fun join_tokens :: "string list \<Rightarrow> string" where
  "join_tokens [] = []"
| "join_tokens [t] = t"
| "join_tokens (t # ts) = t @ '' '' @ join_tokens ts"

fun NginxConfig_ToString :: "NginxConfig \<Rightarrow> nat \<Rightarrow> string"
  and NginxConfigStatement_ToString :: "NginxConfigStatement \<Rightarrow> nat \<Rightarrow> string" where
  "NginxConfig_ToString (NginxConfig ss) depth =
     concat (map (\<lambda>s. NginxConfigStatement_ToString s depth) ss)"
| "NginxConfigStatement_ToString (NginxConfigStatement ts cb) depth =
     indent depth @ join_tokens ts @
     (case cb of
        Some c \<Rightarrow> '' {'' @ [LF] @ NginxConfig_ToString c (Suc depth) @ indent depth @ ''}''
      | None \<Rightarrow> '';'') @ [LF]"

section \<open>Queries\<close>

text \<open>
  \<open>get_port\<close>: the first two-token statement \<open>port <n>\<close> decides; a value that is not a
  non-empty string of digits gives -1, as does a configuration without such a statement.
\<close>

fun port_of_statements :: "NginxConfigStatement list \<Rightarrow> int" where
  "port_of_statements [] = -1"
| "port_of_statements (s # ss) =
     (case tokens s of
        [k, port_num] \<Rightarrow>
          if k = ''port'' then
            if port_num = [] \<or> \<not> list_all isdigit port_num then -1 else atoi port_num
          else port_of_statements ss
      | _ \<Rightarrow> port_of_statements ss)"

definition get_port :: "NginxConfig \<Rightarrow> int" where
  "get_port c = port_of_statements (statements c)"

fun key_value_of_statements :: "NginxConfigStatement list \<Rightarrow> string \<Rightarrow> string" where
  "key_value_of_statements [] key = []"
| "key_value_of_statements (s # ss) key =
     (case tokens s of
        [k, v] \<Rightarrow> if k = key \<and> child_block s = None then v else key_value_of_statements ss key
      | _ \<Rightarrow> key_value_of_statements ss key)"

definition get_key_value :: "NginxConfig \<Rightarrow> string \<Rightarrow> string" where
  "get_key_value c key = key_value_of_statements (statements c) key"

type_synonym handler_map = "(string, string \<times> NginxConfig) stdmap"

text \<open>
  \<open>get_handler_paths\<close> adds to the map it is given. The guard looks the handler type up among
  the keys, which are locations.
\<close>

fun get_handler_paths :: "NginxConfig \<Rightarrow> handler_map \<Rightarrow> handler_map"
  and handler_paths_of_statement :: "NginxConfigStatement \<Rightarrow> handler_map \<Rightarrow> handler_map" where
  "get_handler_paths (NginxConfig ss) m = fold (\<lambda>s. handler_paths_of_statement s) ss m"
| "handler_paths_of_statement (NginxConfigStatement ts cb) m =
     (case cb of
        None \<Rightarrow> m
      | Some child \<Rightarrow>
          if length ts = 2 \<and> ts ! 0 = ''handler'' then
            (let handler_type = ts ! 1; path = get_key_value child ''location''
             in if path \<noteq> [] then
                  if map_of m handler_type = None then map_put path (handler_type, child) m else m
                else m)
          else get_handler_paths child m)"

section \<open>Tokens\<close>

datatype TokenType =
    TOKEN_TYPE_START
  | TOKEN_TYPE_NORMAL
  | TOKEN_TYPE_START_BLOCK
  | TOKEN_TYPE_END_BLOCK
  | TOKEN_TYPE_COMMENT
  | TOKEN_TYPE_STATEMENT_END
  | TOKEN_TYPE_EOF
  | TOKEN_TYPE_ERROR

datatype TokenParserState =
    TOKEN_STATE_INITIAL_WHITESPACE
  | TOKEN_STATE_SINGLE_QUOTE
  | TOKEN_STATE_DOUBLE_QUOTE
  | TOKEN_STATE_TOKEN_TYPE_COMMENT
  | TOKEN_STATE_TOKEN_TYPE_NORMAL

fun TokenTypeAsString :: "TokenType \<Rightarrow> string" where
  "TokenTypeAsString TOKEN_TYPE_START = ''TOKEN_TYPE_START''"
| "TokenTypeAsString TOKEN_TYPE_NORMAL = ''TOKEN_TYPE_NORMAL''"
| "TokenTypeAsString TOKEN_TYPE_START_BLOCK = ''TOKEN_TYPE_START_BLOCK''"
| "TokenTypeAsString TOKEN_TYPE_END_BLOCK = ''TOKEN_TYPE_END_BLOCK''"
| "TokenTypeAsString TOKEN_TYPE_COMMENT = ''TOKEN_TYPE_COMMENT''"
| "TokenTypeAsString TOKEN_TYPE_STATEMENT_END = ''TOKEN_TYPE_STATEMENT_END''"
| "TokenTypeAsString TOKEN_TYPE_EOF = ''TOKEN_TYPE_EOF''"
| "TokenTypeAsString TOKEN_TYPE_ERROR = ''TOKEN_TYPE_ERROR''"

text \<open>
  The loop of \<open>ParseToken\<close>: tokenizer state, token read so far, unread input. The result is
  the token's type, its text and the input left. The test that ends an unquoted token is the
  source's: it names \<open>'\t'\<close> twice and \<open>'\r'\<close> not at all.
\<close>

fun ParseToken_loop :: "TokenParserState \<Rightarrow> string \<Rightarrow> string \<Rightarrow> TokenType \<times> string \<times> string" where
  "ParseToken_loop state value [] =
     (if state = TOKEN_STATE_SINGLE_QUOTE \<or> state = TOKEN_STATE_DOUBLE_QUOTE
      then (TOKEN_TYPE_ERROR, value, []) else (TOKEN_TYPE_EOF, value, []))"
| "ParseToken_loop TOKEN_STATE_INITIAL_WHITESPACE value (c # cs) =
     (if c = CHR ''{'' then (TOKEN_TYPE_START_BLOCK, [c], cs)
      else if c = CHR ''}'' then (TOKEN_TYPE_END_BLOCK, [c], cs)
      else if c = CHR ''#'' then ParseToken_loop TOKEN_STATE_TOKEN_TYPE_COMMENT [c] cs
      else if c = DQUOTE then ParseToken_loop TOKEN_STATE_DOUBLE_QUOTE [c] cs
      else if c = SQUOTE then ParseToken_loop TOKEN_STATE_SINGLE_QUOTE [c] cs
      else if c = CHR '';'' then (TOKEN_TYPE_STATEMENT_END, [c], cs)
      else if c = CHR '' '' \<or> c = TAB \<or> c = LF \<or> c = CR
      then ParseToken_loop TOKEN_STATE_INITIAL_WHITESPACE value cs
      else ParseToken_loop TOKEN_STATE_TOKEN_TYPE_NORMAL (value @ [c]) cs)"
| "ParseToken_loop TOKEN_STATE_SINGLE_QUOTE value (c # cs) =
     (if c = SQUOTE then (TOKEN_TYPE_NORMAL, value @ [c], cs)
      else ParseToken_loop TOKEN_STATE_SINGLE_QUOTE (value @ [c]) cs)"
| "ParseToken_loop TOKEN_STATE_DOUBLE_QUOTE value (c # cs) =
     (if c = DQUOTE then (TOKEN_TYPE_NORMAL, value @ [c], cs)
      else ParseToken_loop TOKEN_STATE_DOUBLE_QUOTE (value @ [c]) cs)"
| "ParseToken_loop TOKEN_STATE_TOKEN_TYPE_COMMENT value (c # cs) =
     (if c = LF \<or> c = CR then (TOKEN_TYPE_COMMENT, value, cs)
      else ParseToken_loop TOKEN_STATE_TOKEN_TYPE_COMMENT (value @ [c]) cs)"
| "ParseToken_loop TOKEN_STATE_TOKEN_TYPE_NORMAL value (c # cs) =
     (if c = CHR '' '' \<or> c = TAB \<or> c = LF \<or> c = TAB \<or>
         c = CHR '';'' \<or> c = CHR ''{'' \<or> c = CHR ''}''
      then (TOKEN_TYPE_NORMAL, value, c # cs)
      else ParseToken_loop TOKEN_STATE_TOKEN_TYPE_NORMAL (value @ [c]) cs)"

definition ParseToken :: "string \<Rightarrow> TokenType \<times> string \<times> string" where
  "ParseToken input = ParseToken_loop TOKEN_STATE_INITIAL_WHITESPACE [] input"

section \<open>The parser\<close>

record parser_state =
  config_stack :: "NginxConfigStatement list list"
  last_token_type :: TokenType
  num_start_block :: int
  num_end_block :: int

definition init_parser :: parser_state where
  "init_parser = \<lparr>config_stack = [[]], last_token_type = TOKEN_TYPE_START,
     num_start_block = 0, num_end_block = 0\<rparr>"

text \<open>\<open>statements.back()->tokens.push_back(token)\<close>; \<open>back\<close> of an empty vector is undefined.\<close>

definition push_token :: "string \<Rightarrow> NginxConfigStatement list \<Rightarrow> NginxConfigStatement list option" where
  "push_token token ss =
     (if ss = [] then None
      else Some (butlast ss @
             [NginxConfigStatement (tokens (last ss) @ [token]) (child_block (last ss))]))"

text \<open>The finished block \<open>b\<close> is the child block of the last statement of \<open>p\<close>.\<close>

definition close_block :: "NginxConfigStatement list \<Rightarrow> NginxConfigStatement list \<Rightarrow> NginxConfigStatement list" where
  "close_block b p =
     butlast p @ [NginxConfigStatement (tokens (last p)) (Some (NginxConfig b))]"

fun stack_config :: "NginxConfigStatement list list \<Rightarrow> NginxConfig" where
  "stack_config [] = NginxConfig []"
| "stack_config [b] = NginxConfig b"
| "stack_config (b # p # bs) = stack_config (close_block b p # bs)"

datatype parser_step = Continue parser_state | ReturnTrue | Break | Undefined_step

text \<open>
  One round of the loop of \<open>Parse\<close>, for a token that \<open>ParseToken\<close> returned. \<open>Undefined_step\<close>
  is undefined behaviour: \<open>back()\<close> of an empty vector, or \<open>top()\<close> of a stack that
  \<open>pop()\<close> has emptied.
\<close>

definition parse_step :: "parser_state \<Rightarrow> TokenType \<Rightarrow> string \<Rightarrow> parser_step" where
  "parse_step st token_type token =
     (if token_type = TOKEN_TYPE_ERROR then Break
      else if token_type = TOKEN_TYPE_COMMENT then Continue st
      else if token_type = TOKEN_TYPE_START then Break
      else if token_type = TOKEN_TYPE_NORMAL then
        (if last_token_type st \<in> {TOKEN_TYPE_START, TOKEN_TYPE_STATEMENT_END,
              TOKEN_TYPE_START_BLOCK, TOKEN_TYPE_END_BLOCK, TOKEN_TYPE_NORMAL} then
           (case config_stack st of
              [] \<Rightarrow> Undefined_step
            | b # bs \<Rightarrow>
                (let b' = (if last_token_type st \<noteq> TOKEN_TYPE_NORMAL
                           then b @ [NginxConfigStatement [] None] else b)
                 in case push_token token b' of
                      None \<Rightarrow> Undefined_step
                    | Some b'' \<Rightarrow> Continue (st\<lparr>config_stack := b'' # bs,
                                             last_token_type := token_type\<rparr>)))
         else Break)
      else if token_type = TOKEN_TYPE_STATEMENT_END then
        (if last_token_type st \<noteq> TOKEN_TYPE_NORMAL then Break
         else Continue (st\<lparr>last_token_type := token_type\<rparr>))
      else if token_type = TOKEN_TYPE_START_BLOCK then
        (if last_token_type st \<noteq> TOKEN_TYPE_NORMAL then Break
         else case config_stack st of
             (s # ss) # bs \<Rightarrow> Continue (st\<lparr>config_stack := [] # (s # ss) # bs,
                num_start_block := num_start_block st + 1, last_token_type := token_type\<rparr>)
           | _ \<Rightarrow> Undefined_step)
      else if token_type = TOKEN_TYPE_END_BLOCK then
        (if last_token_type st \<noteq> TOKEN_TYPE_STATEMENT_END \<and>
            last_token_type st \<noteq> TOKEN_TYPE_END_BLOCK then Break
         else if num_start_block st \<le> num_end_block st then Break
         else case config_stack st of
             b # p # bs \<Rightarrow> Continue (st\<lparr>config_stack := close_block b p # bs,
                num_end_block := num_end_block st + 1, last_token_type := token_type\<rparr>)
           | _ \<Rightarrow> Undefined_step)
      else if token_type = TOKEN_TYPE_EOF then
        (if last_token_type st \<noteq> TOKEN_TYPE_STATEMENT_END \<and>
            last_token_type st \<noteq> TOKEN_TYPE_END_BLOCK \<and>
            last_token_type st \<noteq> TOKEN_TYPE_START then Break
         else if num_start_block st \<noteq> num_end_block st then Break
         else ReturnTrue)
      else Break)"

text \<open>
  The result of \<open>Parse\<close>: the returned flag, the configuration in the out-parameter (the part
  built so far when parsing fails) and the line printed on failure.
\<close>

datatype parse_result = Parsed NginxConfig | Rejected NginxConfig string | Undefined_parse

definition bad_transition :: "TokenType \<Rightarrow> TokenType \<Rightarrow> string" where
  "bad_transition last_type token_type =
     ''Bad transition from '' @ TokenTypeAsString last_type @ '' to '' @
     TokenTypeAsString token_type @ [LF]"

text \<open>Every token but the last one consumes input, so the loop ends.\<close>

lemma ParseToken_loop_consumes:
  "fst (ParseToken_loop q v s) \<noteq> TOKEN_TYPE_EOF \<Longrightarrow> fst (ParseToken_loop q v s) \<noteq> TOKEN_TYPE_ERROR \<Longrightarrow>
     length (snd (snd (ParseToken_loop q v s))) < length s + (if q = TOKEN_STATE_TOKEN_TYPE_NORMAL then 1 else 0)"
proof (induction q v s rule: ParseToken_loop.induct)
  case (2 v c cs)
  then show ?case by (simp split: if_splits) blast
qed (auto split: if_splits)

lemma ParseToken_consumes:
  "ParseToken s = (ty, w, r) \<Longrightarrow> ty \<noteq> TOKEN_TYPE_EOF \<Longrightarrow> ty \<noteq> TOKEN_TYPE_ERROR \<Longrightarrow>
     length r < length s"
  unfolding ParseToken_def
  using ParseToken_loop_consumes [of TOKEN_STATE_INITIAL_WHITESPACE "[]" s] by simp

lemma parse_step_Continue_type:
  "parse_step st ty t = Continue st' \<Longrightarrow> ty \<noteq> TOKEN_TYPE_EOF \<and> ty \<noteq> TOKEN_TYPE_ERROR"
  by (auto simp: parse_step_def split: if_splits)

function Parse_loop :: "parser_state \<Rightarrow> string \<Rightarrow> parse_result" where
  "Parse_loop st input =
     (case ParseToken input of (token_type, token, rest) \<Rightarrow>
        (case parse_step st token_type token of
           Continue st' \<Rightarrow> Parse_loop st' rest
         | ReturnTrue \<Rightarrow> Parsed (stack_config (config_stack st))
         | Break \<Rightarrow> Rejected (stack_config (config_stack st))
                            (bad_transition (last_token_type st) token_type)
         | Undefined_step \<Rightarrow> Undefined_parse))"
  by pat_completeness auto
termination
  by (relation "measure (\<lambda>(st, input). length input)")
    (auto dest!: parse_step_Continue_type intro: ParseToken_consumes [OF sym])

declare Parse_loop.simps [simp del]

definition Parse :: "string \<Rightarrow> parse_result" where
  "Parse config_file = Parse_loop init_parser config_file"

text \<open>
  The overload that takes a file name. What the file system holds under a name is a parameter;
  \<open>None\<close> is a file that cannot be opened, for which \<open>config\<close> is left as it is given: empty.
\<close>

definition Parse_file :: "(string \<Rightarrow> string option) \<Rightarrow> string \<Rightarrow> parse_result" where
  "Parse_file read_file file_name =
     (case read_file file_name of
        None \<Rightarrow> Rejected (NginxConfig []) (''Failed to open config file: '' @ file_name @ [LF])
      | Some s \<Rightarrow> Parse s)"

end
