(* ===== verification/Config_Grammar.thy ===== *)
theory Config_Grammar
  imports Config_Parser
begin

text \<open>
  What \<open>NginxConfigParser::Parse\<close> accepts. A configuration file denotes a sequence of tokens
  (\<open>tokens_of\<close>, comments left out); a configuration renders to a sequence of tokens
  (\<open>config_tokens\<close>); the parser accepts a file with the result \<open>c\<close> exactly when the file's
  tokens are those of the well-formed configuration \<open>c\<close>. The round trips through \<open>ToString\<close>
  and the absence of undefined behaviour follow.
\<close>

section \<open>The specification\<close>

type_synonym token = "TokenType \<times> string"

function tokens_of :: "string \<Rightarrow> token list" where
  "tokens_of s =
     (case ParseToken s of (ty, v, r) \<Rightarrow>
        if ty = TOKEN_TYPE_EOF \<or> ty = TOKEN_TYPE_ERROR then [(ty, [])]
        else if ty = TOKEN_TYPE_COMMENT then tokens_of r
        else (ty, v) # tokens_of r)"
  by pat_completeness auto
termination
  by (relation "measure length") (auto intro: ParseToken_consumes [OF sym])

declare tokens_of.simps [simp del]

abbreviation word_token :: "string \<Rightarrow> token" where "word_token t \<equiv> (TOKEN_TYPE_NORMAL, t)"
abbreviation end_token :: token where "end_token \<equiv> (TOKEN_TYPE_STATEMENT_END, '';'')"
abbreviation open_token :: token where "open_token \<equiv> (TOKEN_TYPE_START_BLOCK, ''{'')"
abbreviation close_token :: token where "close_token \<equiv> (TOKEN_TYPE_END_BLOCK, ''}'')"
abbreviation eof_token :: token where "eof_token \<equiv> (TOKEN_TYPE_EOF, [])"

fun config_tokens :: "NginxConfig \<Rightarrow> token list"
  and statement_tokens :: "NginxConfigStatement \<Rightarrow> token list" where
  "config_tokens (NginxConfig ss) = concat (map (\<lambda>s. statement_tokens s) ss)"
| "statement_tokens (NginxConfigStatement ts cb) =
     map word_token ts @
     (case cb of None \<Rightarrow> [end_token] | Some c \<Rightarrow> open_token # config_tokens c @ [close_token])"

text \<open>A statement has at least one word and a child block has at least one statement.\<close>

fun wf_config :: "NginxConfig \<Rightarrow> bool"
  and wf_statement :: "NginxConfigStatement \<Rightarrow> bool" where
  "wf_config (NginxConfig ss) \<longleftrightarrow> list_all (\<lambda>s. wf_statement s) ss"
| "wf_statement (NginxConfigStatement ts cb) \<longleftrightarrow>
     ts \<noteq> [] \<and> (case cb of None \<Rightarrow> True | Some c \<Rightarrow> statements c \<noteq> [] \<and> wf_config c)"

text \<open>The words \<open>ParseToken\<close> can deliver: bare words and quoted words, the quotes included.\<close>

definition word_end :: "char \<Rightarrow> bool" where
  "word_end c \<longleftrightarrow> c \<in> {SP, TAB, LF, CHR '';'', CHR ''{'', CHR ''}''}"

definition word_start :: "char \<Rightarrow> bool" where
  "word_start c \<longleftrightarrow> \<not> word_end c \<and> c \<notin> {CR, CHR ''#'', DQUOTE, SQUOTE}"

fun bare_word :: "string \<Rightarrow> bool" where
  "bare_word [] \<longleftrightarrow> False"
| "bare_word (c # cs) \<longleftrightarrow> word_start c \<and> list_all (\<lambda>d. \<not> word_end d) cs"

fun quoted_word :: "string \<Rightarrow> bool" where
  "quoted_word [] \<longleftrightarrow> False"
| "quoted_word (q # cs) \<longleftrightarrow>
     (q = DQUOTE \<or> q = SQUOTE) \<and> cs \<noteq> [] \<and> last cs = q \<and> q \<notin> set (butlast cs)"

definition word_ok :: "string \<Rightarrow> bool" where
  "word_ok t \<longleftrightarrow> bare_word t \<or> quoted_word t"

fun lexical_config :: "NginxConfig \<Rightarrow> bool"
  and lexical_statement :: "NginxConfigStatement \<Rightarrow> bool" where
  "lexical_config (NginxConfig ss) \<longleftrightarrow> list_all (\<lambda>s. lexical_statement s) ss"
| "lexical_statement (NginxConfigStatement ts cb) \<longleftrightarrow>
     list_all word_ok ts \<and> (case cb of None \<Rightarrow> True | Some c \<Rightarrow> lexical_config c)"

section \<open>The parser as a machine over tokens\<close>

fun run_tokens :: "parser_state \<Rightarrow> token list \<Rightarrow> parse_result" where
  "run_tokens st [] = Undefined_parse"
| "run_tokens st ((ty, v) # ts) =
     (case parse_step st ty v of
        Continue st' \<Rightarrow> run_tokens st' ts
      | ReturnTrue \<Rightarrow> Parsed (stack_config (config_stack st))
      | Break \<Rightarrow> Rejected (stack_config (config_stack st)) (bad_transition (last_token_type st) ty)
      | Undefined_step \<Rightarrow> Undefined_parse)"

lemma parse_step_last:
  "parse_step st TOKEN_TYPE_EOF v = parse_step st TOKEN_TYPE_EOF []"
  "parse_step st TOKEN_TYPE_ERROR v = parse_step st TOKEN_TYPE_ERROR []"
  "parse_step st TOKEN_TYPE_COMMENT v = Continue st"
  by (simp_all add: parse_step_def)

lemma Parse_loop_run: "Parse_loop st s = run_tokens st (tokens_of s)"
proof (induction st s rule: Parse_loop.induct)
  case (1 st s)
  obtain ty v r where pt: "ParseToken s = (ty, v, r)" by (metis prod_cases3)
  consider "ty = TOKEN_TYPE_EOF \<or> ty = TOKEN_TYPE_ERROR" | "ty = TOKEN_TYPE_COMMENT"
    | "ty \<notin> {TOKEN_TYPE_EOF, TOKEN_TYPE_ERROR, TOKEN_TYPE_COMMENT}" by blast
  then show ?case
  proof cases
    case 1
    then have step: "parse_step st ty v = parse_step st ty []"
      using parse_step_last(1,2) by metis
    have "\<And>st'. parse_step st ty [] \<noteq> Continue st'"
      using 1 parse_step_Continue_type by metis
    with 1 pt step show ?thesis
      by (simp add: Parse_loop.simps [of st s] tokens_of.simps [of s] split: parser_step.splits)
  next
    case 2
    with pt "1.IH" show ?thesis
      by (simp add: Parse_loop.simps [of st s] tokens_of.simps [of s] parse_step_last)
  next
    case 3
    with pt "1.IH" show ?thesis
      by (simp add: Parse_loop.simps [of st s] tokens_of.simps [of s] split: parser_step.splits)
  qed
qed

lemma Parse_run: "Parse s = run_tokens init_parser (tokens_of s)"
  by (simp add: Parse_def Parse_loop_run)

section \<open>Completeness: the tokens of a well-formed configuration are accepted\<close>

definition ready :: "TokenType \<Rightarrow> bool" where
  "ready ty \<longleftrightarrow> ty \<in> {TOKEN_TYPE_START, TOKEN_TYPE_STATEMENT_END, TOKEN_TYPE_START_BLOCK,
     TOKEN_TYPE_END_BLOCK}"

abbreviation pstate :: "NginxConfigStatement list list \<Rightarrow> TokenType \<Rightarrow> int \<Rightarrow> int \<Rightarrow> parser_state" where
  "pstate stk l i j \<equiv> \<lparr>config_stack = stk, last_token_type = l, num_start_block = i, num_end_block = j\<rparr>"

lemma run_more_words:
  "run_tokens (pstate ((b @ [NginxConfigStatement us None]) # bs) TOKEN_TYPE_NORMAL i j)
     (map word_token ts @ rest) =
   run_tokens (pstate ((b @ [NginxConfigStatement (us @ ts) None]) # bs) TOKEN_TYPE_NORMAL i j) rest"
  by (induction ts arbitrary: us) (simp_all add: parse_step_def push_token_def)

lemma run_words:
  assumes "ready l" and "ts \<noteq> []"
  shows "run_tokens (pstate (b # bs) l i j) (map word_token ts @ rest) =
    run_tokens (pstate ((b @ [NginxConfigStatement ts None]) # bs) TOKEN_TYPE_NORMAL i j) rest"
proof -
  obtain t ts' where ts: "ts = t # ts'" using assms(2) by (cases ts) auto
  have "parse_step (pstate (b # bs) l i j) TOKEN_TYPE_NORMAL t =
      Continue (pstate ((b @ [NginxConfigStatement [t] None]) # bs) TOKEN_TYPE_NORMAL i j)"
    using assms(1) by (auto simp: parse_step_def push_token_def ready_def)
  then show ?thesis
    using run_more_words [of b "[t]" bs i j ts' rest] by (simp add: ts)
qed

definition end_type :: "NginxConfigStatement \<Rightarrow> TokenType" where
  "end_type s = (if child_block s = None then TOKEN_TYPE_STATEMENT_END else TOKEN_TYPE_END_BLOCK)"

lemma ready_end_type [simp]: "ready (end_type s)"
  by (simp add: ready_def end_type_def)

definition last_type :: "TokenType \<Rightarrow> NginxConfigStatement list \<Rightarrow> TokenType" where
  "last_type l ss = (if ss = [] then l else end_type (last ss))"

definition opens :: "token list \<Rightarrow> int" where
  "opens ts = int (length (filter (\<lambda>t. fst t = TOKEN_TYPE_START_BLOCK) ts))"

lemma opens_simps [simp]:
  "opens [] = 0" "opens (t # ts) = (if fst t = TOKEN_TYPE_START_BLOCK then 1 else 0) + opens ts"
  "opens (ts @ us) = opens ts + opens us" "opens (map word_token ws) = 0"
  by (simp_all add: opens_def filter_False)

lemma opens_nonneg [simp]: "0 \<le> opens ts"
  by (simp add: opens_def)

text \<open>Reading the tokens of statements appends them to the block on top of the stack.\<close>

definition reads :: "NginxConfigStatement list \<Rightarrow> bool" where
  "reads ss \<longleftrightarrow> (\<forall>b bs l i j rest. ready l \<longrightarrow> j \<le> i \<longrightarrow>
     (let ts = concat (map statement_tokens ss)
      in run_tokens (pstate (b # bs) l i j) (ts @ rest) =
         run_tokens (pstate ((b @ ss) # bs) (last_type l ss) (i + opens ts) (j + opens ts)) rest))"

lemma readsD:
  "reads ss \<Longrightarrow> ready l \<Longrightarrow> j \<le> i \<Longrightarrow>
   run_tokens (pstate (b # bs) l i j) (concat (map statement_tokens ss) @ rest) =
   run_tokens (pstate ((b @ ss) # bs) (last_type l ss) (i + opens (concat (map statement_tokens ss)))
     (j + opens (concat (map statement_tokens ss)))) rest"
  by (simp add: reads_def Let_def)

lemma reads_Cons:
  assumes "reads [s]" and "reads ss"
  shows "reads (s # ss)"
  unfolding reads_def Let_def
proof (intro allI impI)
  fix b bs l rest and i j :: int
  assume "ready l" "j \<le> i"
  then show "run_tokens (pstate (b # bs) l i j) (concat (map statement_tokens (s # ss)) @ rest) =
     run_tokens (pstate ((b @ s # ss) # bs) (last_type l (s # ss))
       (i + opens (concat (map statement_tokens (s # ss))))
       (j + opens (concat (map statement_tokens (s # ss))))) rest"
    using readsD [OF assms(1), of l j i b bs "concat (map statement_tokens ss) @ rest"]
      readsD [OF assms(2), of "end_type s" "j + opens (statement_tokens s)"
        "i + opens (statement_tokens s)" "b @ [s]" bs rest]
    by (simp add: last_type_def add.assoc)
qed

lemma reads_plain: "ts \<noteq> [] \<Longrightarrow> reads [NginxConfigStatement ts None]"
  unfolding reads_def Let_def
  by (auto simp: run_words parse_step_def last_type_def end_type_def)

lemma reads_block:
  assumes "ts \<noteq> []" and "ss \<noteq> []" and "reads ss"
  shows "reads [NginxConfigStatement ts (Some (NginxConfig ss))]"
  unfolding reads_def Let_def
proof (intro allI impI)
  fix b bs l rest and i j :: int
  assume rd: "ready l" and le: "j \<le> i"
  let ?n = "opens (concat (map statement_tokens ss))"
  let ?p = "b @ [NginxConfigStatement ts None]"
  have open_step: "parse_step (pstate (?p # bs) TOKEN_TYPE_NORMAL i j) TOKEN_TYPE_START_BLOCK ''{'' =
      Continue (pstate ([] # ?p # bs) TOKEN_TYPE_START_BLOCK (i + 1) j)"
    by (cases b) (simp_all add: parse_step_def)
  have body: "run_tokens (pstate ([] # ?p # bs) TOKEN_TYPE_START_BLOCK (i + 1) j)
        (concat (map statement_tokens ss) @ close_token # rest) =
      run_tokens (pstate (ss # ?p # bs) (end_type (last ss)) (i + 1 + ?n) (j + ?n))
        (close_token # rest)"
    using readsD [OF assms(3), of TOKEN_TYPE_START_BLOCK j "i + 1" "[]" "?p # bs"] le assms(2)
    by (simp add: ready_def last_type_def)
  have close_step: "parse_step (pstate (ss # ?p # bs) (end_type (last ss)) (i + 1 + ?n) (j + ?n))
        TOKEN_TYPE_END_BLOCK ''}'' =
      Continue (pstate ((b @ [NginxConfigStatement ts (Some (NginxConfig ss))]) # bs)
        TOKEN_TYPE_END_BLOCK (i + 1 + ?n) (j + ?n + 1))"
    using le by (simp add: parse_step_def end_type_def close_block_def)
  show "run_tokens (pstate (b # bs) l i j)
      (concat (map statement_tokens [NginxConfigStatement ts (Some (NginxConfig ss))]) @ rest) =
     run_tokens (pstate ((b @ [NginxConfigStatement ts (Some (NginxConfig ss))]) # bs)
       (last_type l [NginxConfigStatement ts (Some (NginxConfig ss))])
       (i + opens (concat (map statement_tokens [NginxConfigStatement ts (Some (NginxConfig ss))])))
       (j + opens (concat (map statement_tokens [NginxConfigStatement ts (Some (NginxConfig ss))])))) rest"
    using run_words [OF rd assms(1)] open_step body close_step
    by (simp add: last_type_def end_type_def algebra_simps)
qed

lemma reads_wf:
  "wf_config c \<Longrightarrow> reads (statements c)"
  "wf_statement s \<Longrightarrow> reads [s]"
proof (induction c and s rule: wf_config_wf_statement.induct)
  case (1 ss)
  from "1.prems" have "\<forall>s \<in> set ss. wf_statement s" by (simp add: list_all_iff)
  with "1.IH" have rd: "\<And>s. s \<in> set ss \<Longrightarrow> reads [s]" by blast
  have "reads ss'" if "set ss' \<subseteq> set ss" for ss'
    using that
  proof (induction ss')
    case Nil
    then show ?case by (simp add: reads_def last_type_def)
  next
    case (Cons s ss')
    then show ?case by (auto intro!: reads_Cons [OF rd])
  qed
  then show ?case by simp
next
  case (2 ts cb)
  show ?case
  proof (cases cb)
    case None
    with 2 show ?thesis by (simp add: reads_plain)
  next
    case (Some c)
    with 2 show ?thesis by (cases c) (auto intro: reads_block)
  qed
qed

lemma run_config_tokens:
  assumes "wf_config c"
  shows "run_tokens init_parser (config_tokens c @ [eof_token]) = Parsed c"
proof (cases c)
  case (NginxConfig ss)
  let ?n = "opens (concat (map statement_tokens ss))"
  have "run_tokens init_parser (config_tokens c @ [eof_token]) =
      run_tokens (pstate [ss] (last_type TOKEN_TYPE_START ss) ?n ?n) [eof_token]"
    using readsD [OF reads_wf(1) [OF assms], of TOKEN_TYPE_START 0 0 "[]" "[]"]
    by (simp add: NginxConfig init_parser_def ready_def)
  also have "\<dots> = Parsed c"
    by (simp add: NginxConfig parse_step_def last_type_def end_type_def)
  finally show ?thesis .
qed

section \<open>Soundness: what is accepted is a well-formed configuration\<close>

abbreviation block_tokens :: "NginxConfigStatement list \<Rightarrow> token list" where
  "block_tokens b \<equiv> concat (map statement_tokens b)"

text \<open>A block whose last statement still lacks its end.\<close>

definition open_block :: "NginxConfigStatement list \<Rightarrow> bool" where
  "open_block b \<longleftrightarrow> (\<exists>ss ts. b = ss @ [NginxConfigStatement ts None] \<and> ts \<noteq> [] \<and> list_all wf_statement ss)"

definition open_tokens :: "NginxConfigStatement list \<Rightarrow> token list" where
  "open_tokens b = block_tokens (butlast b) @ map word_token (tokens (last b))"

fun parent_tokens :: "NginxConfigStatement list list \<Rightarrow> token list" where
  "parent_tokens [] = []"
| "parent_tokens (p # ps) = parent_tokens ps @ open_tokens p @ [open_token]"

text \<open>
  The parser's invariant relates its state to the tokens read so far: the stack renders to
  exactly those tokens, the counters differ by the number of open blocks, and the last token's
  type says whether the last statement is complete.
\<close>

fun top_inv :: "TokenType \<Rightarrow> NginxConfigStatement list \<Rightarrow> NginxConfigStatement list list \<Rightarrow> token list \<Rightarrow> bool" where
  "top_inv TOKEN_TYPE_NORMAL b bs pre \<longleftrightarrow> open_block b \<and> pre = parent_tokens bs @ open_tokens b"
| "top_inv TOKEN_TYPE_START b bs pre \<longleftrightarrow> b = [] \<and> bs = [] \<and> pre = []"
| "top_inv TOKEN_TYPE_START_BLOCK b bs pre \<longleftrightarrow> b = [] \<and> bs \<noteq> [] \<and> pre = parent_tokens bs"
| "top_inv TOKEN_TYPE_STATEMENT_END b bs pre \<longleftrightarrow>
     b \<noteq> [] \<and> list_all wf_statement b \<and> pre = parent_tokens bs @ block_tokens b"
| "top_inv TOKEN_TYPE_END_BLOCK b bs pre \<longleftrightarrow>
     b \<noteq> [] \<and> list_all wf_statement b \<and> pre = parent_tokens bs @ block_tokens b"
| "top_inv _ b bs pre \<longleftrightarrow> False"

definition parser_inv :: "parser_state \<Rightarrow> token list \<Rightarrow> bool" where
  "parser_inv st pre \<longleftrightarrow>
     (\<exists>b bs. config_stack st = b # bs \<and> list_all open_block bs \<and>
        num_start_block st = num_end_block st + int (length bs) \<and>
        top_inv (last_token_type st) b bs pre)"

lemma parser_inv_init: "parser_inv init_parser []"
  by (simp add: parser_inv_def init_parser_def)

lemma ready_cases:
  assumes "ready l"
  obtains "l = TOKEN_TYPE_START" | "l = TOKEN_TYPE_STATEMENT_END" | "l = TOKEN_TYPE_START_BLOCK"
    | "l = TOKEN_TYPE_END_BLOCK"
  using assms by (auto simp: ready_def)

lemma top_inv_ready:
  "top_inv l b bs pre \<Longrightarrow> ready l \<Longrightarrow> list_all wf_statement b \<and> pre = parent_tokens bs @ block_tokens b"
  by (erule ready_cases) simp_all

lemma top_inv_types: "top_inv l b bs pre \<Longrightarrow> l = TOKEN_TYPE_NORMAL \<or> ready l"
  by (cases l) (simp_all add: ready_def)

lemma open_block_nonempty: "open_block b \<Longrightarrow> b \<noteq> []"
  by (auto simp: open_block_def)

lemma open_block_push:
  assumes "open_block b"
  shows "\<exists>b'. push_token t b = Some b' \<and> open_block b' \<and> open_tokens b' = open_tokens b @ [word_token t]"
  using assms by (auto simp: open_block_def push_token_def open_tokens_def)

lemma new_statement_push:
  assumes "list_all wf_statement b"
  shows "\<exists>b'. push_token t (b @ [NginxConfigStatement [] None]) = Some b' \<and> open_block b' \<and>
    open_tokens b' = block_tokens b @ [word_token t]"
  using assms by (auto simp: open_block_def push_token_def open_tokens_def)

lemma open_block_end:
  "open_block b \<Longrightarrow> list_all wf_statement b \<and> block_tokens b = open_tokens b @ [end_token]"
  by (auto simp: open_block_def open_tokens_def)

lemma open_block_close:
  assumes "open_block p" and "list_all wf_statement b" and "b \<noteq> []"
  shows "list_all wf_statement (close_block b p) \<and> close_block b p \<noteq> [] \<and>
    block_tokens (close_block b p) = open_tokens p @ open_token # block_tokens b @ [close_token]"
  using assms by (auto simp: open_block_def open_tokens_def close_block_def)

text \<open>A token carries the text its type determines.\<close>

fun token_text_ok :: "token \<Rightarrow> bool" where
  "token_text_ok (TOKEN_TYPE_NORMAL, v) \<longleftrightarrow> word_ok v"
| "token_text_ok (TOKEN_TYPE_STATEMENT_END, v) \<longleftrightarrow> v = '';''"
| "token_text_ok (TOKEN_TYPE_START_BLOCK, v) \<longleftrightarrow> v = ''{''"
| "token_text_ok (TOKEN_TYPE_END_BLOCK, v) \<longleftrightarrow> v = ''}''"
| "token_text_ok (TOKEN_TYPE_EOF, v) \<longleftrightarrow> v = []"
| "token_text_ok (TOKEN_TYPE_ERROR, v) \<longleftrightarrow> v = []"
| "token_text_ok _ \<longleftrightarrow> False"

lemma parse_step_word_inv:
  assumes "parser_inv st pre"
  shows "\<exists>st'. parse_step st TOKEN_TYPE_NORMAL v = Continue st' \<and> parser_inv st' (pre @ [word_token v])"
proof -
  from assms obtain b bs where st: "config_stack st = b # bs" "list_all open_block bs"
      "num_start_block st = num_end_block st + int (length bs)"
    and top: "top_inv (last_token_type st) b bs pre"
    by (auto simp: parser_inv_def)
  from top_inv_types [OF top] show ?thesis
  proof
    assume l: "last_token_type st = TOKEN_TYPE_NORMAL"
    with top open_block_push [of b v] st show ?thesis
      by (auto simp: parse_step_def parser_inv_def)
  next
    assume l: "ready (last_token_type st)"
    from top_inv_ready [OF top l] have wf: "list_all wf_statement b"
      and pre: "pre = parent_tokens bs @ block_tokens b" by blast+
    from l have "last_token_type st \<noteq> TOKEN_TYPE_NORMAL"
      "last_token_type st \<in> {TOKEN_TYPE_START, TOKEN_TYPE_STATEMENT_END, TOKEN_TYPE_START_BLOCK,
        TOKEN_TYPE_END_BLOCK, TOKEN_TYPE_NORMAL}"
      by (auto simp: ready_def)
    with new_statement_push [OF wf, of v] st pre show ?thesis
      by (auto simp: parse_step_def parser_inv_def)
  qed
qed

text \<open>No step is undefined, and a step that continues keeps the invariant.\<close>

lemma parse_step_inv:
  assumes inv: "parser_inv st pre" and ok: "token_text_ok (ty, v)"
  shows "parse_step st ty v \<noteq> Undefined_step"
    and "parse_step st ty v = Continue st' \<Longrightarrow> parser_inv st' (pre @ [(ty, v)])"
proof -
  from inv obtain b bs where st: "config_stack st = b # bs" "list_all open_block bs"
      "num_start_block st = num_end_block st + int (length bs)"
    and top: "top_inv (last_token_type st) b bs pre"
    by (auto simp: parser_inv_def)
  show "parse_step st ty v \<noteq> Undefined_step"
  proof (cases "ty = TOKEN_TYPE_NORMAL")
    case True
    with parse_step_word_inv [OF inv, of v] show ?thesis by auto
  next
    case False
    with st top show ?thesis
      by (cases ty; cases bs)
        (auto simp: parse_step_def dest: open_block_nonempty split: list.splits)
  qed
  assume step: "parse_step st ty v = Continue st'"
  show "parser_inv st' (pre @ [(ty, v)])"
  proof (cases ty)
    case TOKEN_TYPE_NORMAL
    with step parse_step_word_inv [OF inv, of v] show ?thesis by auto
  next
    case TOKEN_TYPE_STATEMENT_END
    with step ok st top open_block_end [of b] show ?thesis
      by (auto simp: parse_step_def parser_inv_def split: if_splits)
  next
    case TOKEN_TYPE_START_BLOCK
    with step ok st top show ?thesis
      by (auto simp: parse_step_def parser_inv_def split: if_splits list.splits)
  next
    case TOKEN_TYPE_END_BLOCK
    with step st obtain p ps where bs: "bs = p # ps"
      and l: "last_token_type st = TOKEN_TYPE_STATEMENT_END \<or> last_token_type st = TOKEN_TYPE_END_BLOCK"
      and st': "st' = st\<lparr>config_stack := close_block b p # ps,
        num_end_block := num_end_block st + 1, last_token_type := TOKEN_TYPE_END_BLOCK\<rparr>"
      by (auto simp: parse_step_def split: if_splits list.splits)
    from l top have b: "b \<noteq> []" "list_all wf_statement b" "pre = parent_tokens bs @ block_tokens b"
      by auto
    from st bs have "open_block p" by simp
    from open_block_close [OF this b(2,1)] b(3) st bs TOKEN_TYPE_END_BLOCK ok show ?thesis
      by (simp add: st' parser_inv_def)
  qed (use step ok in \<open>auto simp: parse_step_def split: if_splits\<close>)
qed

lemma parse_step_accept:
  assumes inv: "parser_inv st pre" and step: "parse_step st ty v = ReturnTrue"
  shows "ty = TOKEN_TYPE_EOF" and "\<exists>c. stack_config (config_stack st) = c \<and> wf_config c \<and> pre = config_tokens c"
proof -
  from inv obtain b bs where st: "config_stack st = b # bs"
      "num_start_block st = num_end_block st + int (length bs)"
    and top: "top_inv (last_token_type st) b bs pre"
    by (auto simp: parser_inv_def)
  show ty: "ty = TOKEN_TYPE_EOF"
    using step by (auto simp: parse_step_def Let_def split: if_splits list.splits option.splits)
  with step st have bs: "bs = []" and "ready (last_token_type st)"
    by (auto simp: parse_step_def ready_def split: if_splits)
  with top_inv_ready [OF top] st
  show "\<exists>c. stack_config (config_stack st) = c \<and> wf_config c \<and> pre = config_tokens c"
    by simp
qed

definition token_seq :: "token list \<Rightarrow> bool" where
  "token_seq ts \<longleftrightarrow> ts \<noteq> [] \<and> list_all token_text_ok ts \<and>
     fst (last ts) \<in> {TOKEN_TYPE_EOF, TOKEN_TYPE_ERROR} \<and>
     list_all (\<lambda>t. fst t \<notin> {TOKEN_TYPE_EOF, TOKEN_TYPE_ERROR}) (butlast ts)"

lemma token_seq_Cons:
  "token_seq (t # ts) \<longleftrightarrow> token_text_ok t \<and>
     (if fst t \<in> {TOKEN_TYPE_EOF, TOKEN_TYPE_ERROR} then ts = [] else token_seq ts)"
  by (auto simp: token_seq_def)

lemma run_tokens_sound:
  "token_seq ts \<Longrightarrow> parser_inv st pre \<Longrightarrow>
     run_tokens st ts \<noteq> Undefined_parse \<and>
     (\<forall>c. run_tokens st ts = Parsed c \<longrightarrow> wf_config c \<and> pre @ ts = config_tokens c @ [eof_token])"
proof (induction ts arbitrary: st pre)
  case Nil
  then show ?case by (simp add: token_seq_def)
next
  case (Cons t ts)
  obtain ty v where t: "t = (ty, v)" by fastforce
  from Cons.prems(1) t have ok: "token_text_ok (ty, v)" by (simp add: token_seq_Cons)
  show ?case
  proof (cases "parse_step st ty v")
    case (Continue st')
    from parse_step_Continue_type [OF this] Cons.prems(1) t have seq: "token_seq ts"
      by (simp add: token_seq_Cons)
    from Cons.IH [OF seq parse_step_inv(2) [OF Cons.prems(2) ok Continue]] Continue t
    show ?thesis by simp
  next
    case ReturnTrue
    from parse_step_accept [OF Cons.prems(2) ReturnTrue] ReturnTrue Cons.prems(1) t
    show ?thesis by (auto simp: token_seq_Cons)
  next
    case Break
    with t show ?thesis by simp
  next
    case Undefined_step
    with parse_step_inv(1) [OF Cons.prems(2) ok] show ?thesis by simp
  qed
qed

section \<open>The tokenizer\<close>

lemma loop_word:
  "ParseToken_loop TOKEN_STATE_TOKEN_TYPE_NORMAL v s =
     (let w = takeWhile (\<lambda>c. \<not> word_end c) s; r = dropWhile (\<lambda>c. \<not> word_end c) s
      in (if r = [] then TOKEN_TYPE_EOF else TOKEN_TYPE_NORMAL, v @ w, r))"
  by (induction s arbitrary: v) (simp_all add: word_end_def Let_def)

lemma loop_quoted:
  "ParseToken_loop TOKEN_STATE_DOUBLE_QUOTE v s =
     (let w = takeWhile (\<lambda>c. c \<noteq> DQUOTE) s; r = dropWhile (\<lambda>c. c \<noteq> DQUOTE) s
      in if r = [] then (TOKEN_TYPE_ERROR, v @ w, []) else (TOKEN_TYPE_NORMAL, v @ w @ [DQUOTE], tl r))"
  "ParseToken_loop TOKEN_STATE_SINGLE_QUOTE v s =
     (let w = takeWhile (\<lambda>c. c \<noteq> SQUOTE) s; r = dropWhile (\<lambda>c. c \<noteq> SQUOTE) s
      in if r = [] then (TOKEN_TYPE_ERROR, v @ w, []) else (TOKEN_TYPE_NORMAL, v @ w @ [SQUOTE], tl r))"
  by (induction s arbitrary: v) (auto simp: Let_def)

lemma loop_comment:
  "ParseToken_loop TOKEN_STATE_TOKEN_TYPE_COMMENT v s =
     (let w = takeWhile (\<lambda>c. c \<noteq> LF \<and> c \<noteq> CR) s; r = dropWhile (\<lambda>c. c \<noteq> LF \<and> c \<noteq> CR) s
      in if r = [] then (TOKEN_TYPE_EOF, v @ w, []) else (TOKEN_TYPE_COMMENT, v @ w, tl r))"
  by (induction s arbitrary: v) (auto simp: Let_def)

lemma takeWhile_all: "list_all P (takeWhile P s)"
  by (induction s) simp_all

text \<open>The first byte decides which loop reads the token.\<close>

lemma ParseToken_Cons:
  "c \<in> {SP, TAB, LF, CR} \<Longrightarrow> ParseToken (c # s) = ParseToken s"
  "word_start c \<Longrightarrow> ParseToken (c # s) = ParseToken_loop TOKEN_STATE_TOKEN_TYPE_NORMAL [c] s"
  "ParseToken (CHR ''{'' # s) = (TOKEN_TYPE_START_BLOCK, ''{'', s)"
  "ParseToken (CHR ''}'' # s) = (TOKEN_TYPE_END_BLOCK, ''}'', s)"
  "ParseToken (CHR '';'' # s) = (TOKEN_TYPE_STATEMENT_END, '';'', s)"
  "ParseToken (CHR ''#'' # s) = ParseToken_loop TOKEN_STATE_TOKEN_TYPE_COMMENT ''#'' s"
  "ParseToken (DQUOTE # s) = ParseToken_loop TOKEN_STATE_DOUBLE_QUOTE [DQUOTE] s"
  "ParseToken (SQUOTE # s) = ParseToken_loop TOKEN_STATE_SINGLE_QUOTE [SQUOTE] s"
  "ParseToken [] = (TOKEN_TYPE_EOF, [], [])"
  by (auto simp: ParseToken_def word_start_def word_end_def)

lemma char_class_cases:
  fixes c :: char
  obtains "c \<in> {SP, TAB, LF, CR}" | "word_start c" | "c = CHR ''{''" | "c = CHR ''}''" | "c = CHR '';''"
    | "c = CHR ''#''" | "c = DQUOTE" | "c = SQUOTE"
proof -
  have "word_start c \<or> c \<in> {SP, TAB, LF, CR} \<or> c = CHR ''{'' \<or> c = CHR ''}'' \<or> c = CHR '';'' \<or>
      c = CHR ''#'' \<or> c = DQUOTE \<or> c = SQUOTE"
    by (simp add: word_start_def word_end_def) argo
  then show thesis using that by (elim disjE)
qed

lemmas ParseToken_eqs = ParseToken_Cons loop_word loop_quoted loop_comment Let_def

lemma ParseToken_text:
  assumes "ParseToken s = (ty, v, r)"
  shows "ty \<noteq> TOKEN_TYPE_START"
    and "ty \<noteq> TOKEN_TYPE_EOF \<Longrightarrow> ty \<noteq> TOKEN_TYPE_ERROR \<Longrightarrow> ty \<noteq> TOKEN_TYPE_COMMENT \<Longrightarrow> token_text_ok (ty, v)"
proof -
  have "ty \<noteq> TOKEN_TYPE_START \<and> (ty \<notin> {TOKEN_TYPE_EOF, TOKEN_TYPE_ERROR, TOKEN_TYPE_COMMENT} \<longrightarrow>
      token_text_ok (ty, v))"
    using assms
  proof (induction s)
    case (Cons c s)
    show ?case
      using Cons by (cases c rule: char_class_cases)
        (auto simp: ParseToken_eqs word_ok_def takeWhile_all butlast_append
          dest: set_takeWhileD split: if_splits)
  qed (auto simp: ParseToken_Cons)
  then show "ty \<noteq> TOKEN_TYPE_START"
    and "ty \<noteq> TOKEN_TYPE_EOF \<Longrightarrow> ty \<noteq> TOKEN_TYPE_ERROR \<Longrightarrow> ty \<noteq> TOKEN_TYPE_COMMENT \<Longrightarrow> token_text_ok (ty, v)"
    by auto
qed

lemma token_seq_tokens_of: "token_seq (tokens_of s)"
proof (induction s rule: tokens_of.induct)
  case (1 s)
  obtain ty v r where pt: "ParseToken s = (ty, v, r)" by (metis prod_cases3)
  with "1" ParseToken_text [OF pt] show ?case
    by (auto simp: tokens_of.simps [of s] token_seq_Cons)
qed

lemma tokens_of_spaces: "set ws \<subseteq> {SP, TAB, LF, CR} \<Longrightarrow> tokens_of (ws @ s) = tokens_of s"
proof (induction ws)
  case (Cons c ws)
  then have "ParseToken (c # ws @ s) = ParseToken (ws @ s)" by (intro ParseToken_Cons) simp
  with Cons show ?case by (simp add: tokens_of.simps [of "c # ws @ s"] tokens_of.simps [of "ws @ s"])
qed simp

lemma tokens_of_punct:
  "tokens_of (CHR '';'' # s) = end_token # tokens_of s"
  "tokens_of (CHR ''{'' # s) = open_token # tokens_of s"
  "tokens_of (CHR ''}'' # s) = close_token # tokens_of s"
  by (simp_all add: tokens_of.simps [of "c # s" for c] ParseToken_Cons)

lemma tokens_of_Nil: "tokens_of [] = [eof_token]"
  by (simp add: tokens_of.simps [of "[]"] ParseToken_Cons)

lemma ParseToken_bare:
  assumes "bare_word w" and "word_end d"
  shows "ParseToken (w @ d # s) = (TOKEN_TYPE_NORMAL, w, d # s)"
proof -
  from assms(1) obtain c cs where w: "w = c # cs" and c: "word_start c"
    and cs: "list_all (\<lambda>d. \<not> word_end d) cs"
    by (cases w) auto
  from c have "ParseToken (w @ d # s) = ParseToken_loop TOKEN_STATE_TOKEN_TYPE_NORMAL [c] (cs @ d # s)"
    by (auto simp: w ParseToken_def word_start_def word_end_def)
  moreover have "takeWhile (\<lambda>c. \<not> word_end c) (cs @ d # s) = cs"
    and "dropWhile (\<lambda>c. \<not> word_end c) (cs @ d # s) = d # s"
    using cs assms(2) by (auto simp: list_all_iff takeWhile_append dropWhile_append)
  ultimately show ?thesis by (simp add: loop_word w)
qed

lemma ParseToken_quoted:
  assumes "quoted_word w"
  shows "ParseToken (w @ s) = (TOKEN_TYPE_NORMAL, w, s)"
proof -
  from assms obtain q ds where "w = q # ds" and q': "q = DQUOTE \<or> q = SQUOTE"
    and ds: "ds \<noteq> []" "last ds = q" "q \<notin> set (butlast ds)"
    by (cases w) auto
  then obtain cs where w: "w = q # cs @ [q]" and q: "q = DQUOTE \<or> q = SQUOTE" "q \<notin> set cs"
    using append_butlast_last_id [OF ds(1)] by metis
  have tw: "takeWhile (\<lambda>c. c \<noteq> q) (cs @ q # s) = cs" "dropWhile (\<lambda>c. c \<noteq> q) (cs @ q # s) = q # s"
    using q(2) by (induction cs) auto
  from q(1) show ?thesis
  proof
    assume "q = DQUOTE"
    with tw show ?thesis unfolding w ParseToken_def by (simp add: loop_quoted(1))
  next
    assume "q = SQUOTE"
    with tw show ?thesis unfolding w ParseToken_def by (simp add: loop_quoted(2))
  qed
qed

lemma tokens_of_word:
  assumes "word_ok w" and "word_end d"
  shows "tokens_of (w @ d # s) = word_token w # tokens_of (d # s)"
  using assms ParseToken_bare ParseToken_quoted
  by (auto simp: word_ok_def tokens_of.simps [of "w @ d # s"])

section \<open>Printing and reading back\<close>

lemma tokens_of_indent: "tokens_of (indent n @ s) = tokens_of s"
  by (rule tokens_of_spaces) (auto simp: indent_def)

lemma word_end_simps [simp]:
  "word_end SP" "word_end LF" "word_end CHR '';''" "word_end CHR ''{''" "word_end CHR ''}''"
  by (simp_all add: word_end_def)

lemma tokens_of_SP_LF [simp]: "tokens_of (SP # s) = tokens_of s" "tokens_of (LF # s) = tokens_of s"
  using tokens_of_spaces [of "[SP]" s] tokens_of_spaces [of "[LF]" s] by simp_all

lemma tokens_of_join:
  "ts \<noteq> [] \<Longrightarrow> list_all word_ok ts \<Longrightarrow> word_end d \<Longrightarrow>
     tokens_of (join_tokens ts @ d # s) = map word_token ts @ tokens_of (d # s)"
proof (induction ts rule: join_tokens.induct)
  case (3 t t' ts)
  then show ?case using tokens_of_word [of t SP "join_tokens (t' # ts) @ d # s"] by simp
qed (simp_all add: tokens_of_word)

lemma tokens_of_ToString:
  "wf_config c \<Longrightarrow> lexical_config c \<Longrightarrow>
     tokens_of (NginxConfig_ToString c n @ rest) = config_tokens c @ tokens_of rest"
  "wf_statement s \<Longrightarrow> lexical_statement s \<Longrightarrow>
     tokens_of (NginxConfigStatement_ToString s n @ rest) = statement_tokens s @ tokens_of rest"
proof (induction c n and s n arbitrary: rest and rest
    rule: NginxConfig_ToString_NginxConfigStatement_ToString.induct)
  case (1 ss n)
  have "tokens_of (concat (map (\<lambda>s. NginxConfigStatement_ToString s n) ss') @ rest) =
      concat (map statement_tokens ss') @ tokens_of rest" if "set ss' \<subseteq> set ss" for ss'
    using that
  proof (induction ss')
    case (Cons s ss')
    moreover have "wf_statement s" "lexical_statement s"
      using Cons.prems "1.prems" by (auto simp: list_all_iff)
    ultimately show ?case using "1.IH" [of s] by simp
  qed simp
  then show ?case by simp
next
  case (2 ts cb n)
  then show ?case
    by (cases cb) (simp_all add: tokens_of_indent tokens_of_join tokens_of_punct)
qed

text \<open>The words of a configuration are the text of its word tokens.\<close>

lemma lexical_of_tokens:
  "list_all token_text_ok (config_tokens c) \<Longrightarrow> lexical_config c"
  "list_all token_text_ok (statement_tokens s) \<Longrightarrow> lexical_statement s"
proof (induction c and s rule: config_tokens_statement_tokens.induct)
  case (1 ss)
  then show ?case by (auto simp: list_all_iff)
next
  case (2 ts cb)
  then show ?case by (cases cb) (auto simp: list_all_iff ball_Un)
qed

lemma Parse_Parsed_iff:
  "Parse s = Parsed c \<longleftrightarrow> wf_config c \<and> tokens_of s = config_tokens c @ [eof_token]"
proof
  assume "Parse s = Parsed c"
  with run_tokens_sound [OF token_seq_tokens_of parser_inv_init, of s]
  show "wf_config c \<and> tokens_of s = config_tokens c @ [eof_token]" by (simp add: Parse_run)
next
  assume "wf_config c \<and> tokens_of s = config_tokens c @ [eof_token]"
  then show "Parse s = Parsed c" by (simp add: Parse_run run_config_tokens)
qed

lemma Parse_lexical:
  assumes "Parse s = Parsed c"
  shows "lexical_config c"
proof -
  from assms have "tokens_of s = config_tokens c @ [eof_token]" by (simp add: Parse_Parsed_iff)
  with token_seq_tokens_of [of s] have "list_all token_text_ok (config_tokens c)"
    by (simp add: token_seq_def)
  then show ?thesis by (rule lexical_of_tokens)
qed

lemma Parse_ToString:
  assumes "wf_config c" and "lexical_config c"
  shows "Parse (NginxConfig_ToString c n) = Parsed c"
  using tokens_of_ToString(1) [OF assms, of n "[]"] assms(1)
  by (simp add: Parse_Parsed_iff tokens_of_Nil)

lemma Parse_defined: "Parse s \<noteq> Undefined_parse"
  using run_tokens_sound [OF token_seq_tokens_of parser_inv_init, of s]
  by (simp add: Parse_run)

section \<open>A last word without an end\<close>

text \<open>
  At the end of the file \<open>ParseToken\<close> reports \<open>TOKEN_TYPE_EOF\<close> even when it has read the
  beginning of a word, so a last word without a terminator never reaches the parser.
\<close>

lemma dropWhile_takeWhile_append:
  "dropWhile P s \<noteq> [] \<Longrightarrow> dropWhile P (s @ w) = dropWhile P s @ w \<and> takeWhile P (s @ w) = takeWhile P s"
  by (induction s) auto

lemma ParseToken_append:
  "ParseToken s = (ty, u, r) \<Longrightarrow> ty \<noteq> TOKEN_TYPE_EOF \<Longrightarrow> ty \<noteq> TOKEN_TYPE_ERROR \<Longrightarrow>
     ParseToken (s @ w) = (ty, u, r @ w)"
proof (induction s)
  case (Cons c s)
  show ?case
    using Cons dropWhile_takeWhile_append [of _ s w] by (cases c rule: char_class_cases)
      (auto simp: ParseToken_eqs split: if_splits)
qed (simp add: ParseToken_Cons)

lemma ParseToken_word_at_end:
  assumes "bare_word w" and "CR \<notin> set w"
  shows "fst (ParseToken s) = TOKEN_TYPE_EOF \<Longrightarrow> fst (ParseToken (s @ w)) = TOKEN_TYPE_EOF"
proof (induction s)
  case Nil
  from assms(1) obtain c cs where "w = c # cs" "word_start c" "\<forall>d \<in> set cs. \<not> word_end d"
    by (cases w) (auto simp: list_all_iff)
  then show ?case by (simp add: ParseToken_eqs)
next
  case (Cons c s)
  have w: "\<forall>d \<in> set w. d \<noteq> LF \<and> d \<noteq> CR \<and> \<not> word_end d"
    using assms by (cases w) (auto simp: word_start_def word_end_def list_all_iff)
  show ?case
    using Cons w by (cases c rule: char_class_cases)
      (auto simp: ParseToken_eqs split: if_splits)
qed

lemma tokens_of_word_at_end:
  assumes "bare_word w" and "CR \<notin> set w"
  shows "fst (last (tokens_of s)) = TOKEN_TYPE_EOF \<Longrightarrow> tokens_of (s @ w) = tokens_of s"
proof (induction s rule: tokens_of.induct)
  case (1 s)
  obtain ty v r where pt: "ParseToken s = (ty, v, r)" by (metis prod_cases3)
  show ?case
  proof (cases "ty = TOKEN_TYPE_EOF \<or> ty = TOKEN_TYPE_ERROR")
    case True
    with "1.prems" pt have ty: "ty = TOKEN_TYPE_EOF" by (auto simp: tokens_of.simps [of s])
    with pt have "fst (ParseToken (s @ w)) = TOKEN_TYPE_EOF"
      using ParseToken_word_at_end [OF assms] by simp
    with ty pt show ?thesis
      by (auto simp: tokens_of.simps [of s] tokens_of.simps [of "s @ w"] split: prod.splits)
  next
    case False
    with pt have app: "ParseToken (s @ w) = (ty, v, r @ w)"
      using ParseToken_append by simp
    have "tokens_of r \<noteq> []" using token_seq_tokens_of [of r] by (simp add: token_seq_def)
    with "1.prems" False pt have "fst (last (tokens_of r)) = TOKEN_TYPE_EOF"
      by (auto simp: tokens_of.simps [of s] split: if_splits)
    with "1.IH" False pt app show ?thesis
      by (auto simp: tokens_of.simps [of s] tokens_of.simps [of "s @ w"])
  qed
qed

section \<open>Properties\<close>

text \<open>
  C1: \<open>Parse\<close> accepts a file with the configuration \<open>c\<close> exactly when \<open>c\<close> is well-formed (every
  statement has a word, every block a statement) and the file's tokens, comments left out, are
  the tokens of \<open>c\<close> followed by the end of the file. Unbalanced braces, a brace or a semicolon
  without a word before it, empty blocks and open quotes are all rejected by this.
\<close>

theorem parse_accepts_iff:
  "Parse s = Parsed c \<longleftrightarrow> wf_config c \<and> tokens_of s = config_tokens c @ [(TOKEN_TYPE_EOF, [])]"
  by (rule Parse_Parsed_iff)

text \<open>
  C10: \<open>Parse\<close> terminates on every input and never runs into undefined behaviour: it never takes
  \<open>back()\<close> of an empty vector and never empties the stack of open blocks. It either accepts,
  or rejects with the diagnostic line it prints.
\<close>

theorem parse_never_undefined:
  "(\<exists>c. Parse s = Parsed c) \<or> (\<exists>c line. Parse s = Rejected c line)"
  using Parse_defined [of s] by (cases "Parse s") simp_all

text \<open>
  C6: Printing a well-formed configuration whose words are bare or quoted words and parsing the
  text gives the configuration back, at every indentation depth.
\<close>

theorem print_parse_roundtrip:
  "wf_config c \<Longrightarrow> lexical_config c \<Longrightarrow> Parse (NginxConfig_ToString c depth) = Parsed c"
  by (rule Parse_ToString)

theorem print_parse_roundtrip_witness:
  "Parse (NginxConfig_ToString
     (NginxConfig [NginxConfigStatement [''port'', ''8080''] None,
        NginxConfigStatement [''handler'', ''echo'']
          (Some (NginxConfig [NginxConfigStatement [''location'', ''/echo''] None]))]) 0) =
   Parsed (NginxConfig [NginxConfigStatement [''port'', ''8080''] None,
        NginxConfigStatement [''handler'', ''echo'']
          (Some (NginxConfig [NginxConfigStatement [''location'', ''/echo''] None]))])"
  by (rule print_parse_roundtrip) (simp_all add: word_ok_def word_start_def word_end_def)

text \<open>
  Whatever \<open>Parse\<close> accepts can be printed and parsed again with the same result: the
  configurations it produces are closed under \<open>ToString\<close> followed by \<open>Parse\<close>.
\<close>

theorem reparse_fixpoint:
  "Parse s = Parsed c \<Longrightarrow> Parse (NginxConfig_ToString c depth) = Parsed c"
  using Parse_lexical [of s c] by (simp add: Parse_ToString Parse_Parsed_iff [of s])

lemma example_tokens:
  "Parse ''port 80; # x'' = Parsed (NginxConfig [NginxConfigStatement [''port'', ''80''] None])"
proof -
  have "tokens_of ''port 80; # x'' = [word_token ''port'', word_token ''80'', end_token, eof_token]"
    by (simp add: tokens_of.simps ParseToken_def)
  then show ?thesis by (simp add: Parse_Parsed_iff)
qed

theorem reparse_fixpoint_witness:
  "Parse (NginxConfig_ToString (NginxConfig [NginxConfigStatement [''port'', ''80''] None]) 2) =
   Parsed (NginxConfig [NginxConfigStatement [''port'', ''80''] None])"
  by (rule reparse_fixpoint [OF example_tokens])

text \<open>
  A last word without a semicolon or a block is silently dropped: the file is still accepted,
  with the same configuration as without the word.
\<close>

theorem unterminated_last_word_dropped:
  "Parse s = Parsed c \<Longrightarrow> bare_word w \<Longrightarrow> CR \<notin> set w \<Longrightarrow> Parse (s @ w) = Parsed c"
  by (simp add: Parse_Parsed_iff tokens_of_word_at_end)

theorem unterminated_last_word_dropped_witness:
  "Parse (''port 80; # x'' @ ''port'') =
   Parsed (NginxConfig [NginxConfigStatement [''port'', ''80''] None])"
  by (rule unterminated_last_word_dropped [OF example_tokens])
    (simp_all add: word_start_def word_end_def)

text \<open>
  A carriage return does not end a bare word, it becomes part of it (the test that should
  name it names the tab twice): after a word and a carriage return the token delivered is the
  word with the carriage return appended.
\<close>

theorem carriage_return_joins_word:
  "bare_word w \<Longrightarrow> word_end d \<Longrightarrow>
     ParseToken (w @ [CR] @ [d] @ s) = (TOKEN_TYPE_NORMAL, w @ [CR], d # s)"
proof -
  assume w: "bare_word w" and d: "word_end d"
  from w have "bare_word (w @ [CR])" by (cases w) (simp_all add: word_end_def)
  from ParseToken_bare [OF this d] show ?thesis by simp
qed

theorem carriage_return_joins_word_witness:
  "ParseToken (''8080'' @ [CR] @ [LF] @ '';'') = (TOKEN_TYPE_NORMAL, ''8080'' @ [CR], LF # '';'')"
  by (rule carriage_return_joins_word) (simp_all add: word_start_def word_end_def)

end
