(* ===== verification/Config_Params.thy ===== *)
theory Config_Params
  imports Config_Grammar
begin

text \<open>
  \<^verbatim>\<open>include/config_params.h\<close> and \<^verbatim>\<open>src/config_params.cc\<close>: the parameters the server takes
  from a parsed configuration, and what the queries of \<open>NginxConfig\<close> return.
  \<open>port\<close> is a \<open>short\<close>: the \<open>int\<close> that \<open>get_port\<close> returns is narrowed to 16 bits, and the
  acceptor reads those bits back as an unsigned port number.
\<close>

record config_params =
  port :: "16 word"
  server_root :: string
  handler_paths :: handler_map

definition default_config_params :: config_params where
  "default_config_params = \<lparr>port = -1, server_root = [], handler_paths = []\<rparr>"

definition config_params :: "NginxConfig \<Rightarrow> config_params" where
  "config_params config =
     (let root = get_key_value config ''root''
      in \<lparr>port = word_of_int (get_port config),
          server_root = (if root = [] \<or> root = ''.'' then ''./''
                         else if root \<noteq> ''/'' then root @ ''/''
                         else root),
          handler_paths = get_handler_paths config []\<rparr>)"

section \<open>Key look-up\<close>

text \<open>The statements that \<open>get_key_value\<close> and \<open>get_port\<close> look for.\<close>

definition sets_key :: "string \<Rightarrow> NginxConfigStatement \<Rightarrow> bool" where
  "sets_key key s \<longleftrightarrow> (\<exists>v. tokens s = [key, v]) \<and> child_block s = None"

lemma sets_key_code [code]:
  "sets_key key s \<longleftrightarrow> length (tokens s) = 2 \<and> hd (tokens s) = key \<and> child_block s = None"
  by (auto simp: sets_key_def length_Suc_conv numeral_2_eq_2)

lemma key_value_find:
  "key_value_of_statements ss key =
     (case find (sets_key key) ss of None \<Rightarrow> [] | Some s \<Rightarrow> tokens s ! 1)"
  by (induction ss) (auto simp: sets_key_def split: list.splits)

definition sets_port :: "NginxConfigStatement \<Rightarrow> bool" where
  "sets_port s \<longleftrightarrow> length (tokens s) = 2 \<and> tokens s ! 0 = ''port''"

lemma port_find:
  "port_of_statements ss =
     (case find sets_port ss of
        None \<Rightarrow> -1
      | Some s \<Rightarrow> (let n = tokens s ! 1
                   in if n = [] \<or> \<not> list_all isdigit n then -1 else atoi n))"
  by (induction ss) (auto simp: sets_port_def Let_def split: list.splits)

section \<open>The port\<close>

lemma word16_eq_minus_1: "(w :: 16 word) = -1 \<longleftrightarrow> unat w = 65535"
proof -
  have "unat (-1 :: 16 word) = 65535" by (simp add: unsigned_minus_1_eq_mask mask_eq_exp_minus_1)
  then show ?thesis by (metis word_unat_eq_iff)
qed

lemma unat_word_of_int_of_nat: "unat (word_of_int (int n) :: 16 word) = n mod 65536"
  by (simp add: unat_of_nat)

lemma port_narrowed:
  assumes "find sets_port (statements c) = Some s" and "tokens s = [''port'', nat_to_string n]"
    and "n < 2 ^ 31"
  shows "unat (port (config_params c)) = n mod 65536"
proof -
  have "list_all isdigit (nat_to_string n)"
    using nat_to_string_digits by (simp add: list_all_iff)
  with assms have "get_port c = int n"
    by (simp add: get_port_def port_find atoi_small)
  then show ?thesis
    unfolding config_params_def Let_def by (simp add: unat_word_of_int_of_nat del: of_int_of_nat_eq)
qed

section \<open>The handler map\<close>

text \<open>The handler blocks of a configuration that name a location, in the order of the file.\<close>

fun handler_decls :: "NginxConfig \<Rightarrow> (string \<times> string \<times> NginxConfig) list"
  and statement_decls :: "NginxConfigStatement \<Rightarrow> (string \<times> string \<times> NginxConfig) list" where
  "handler_decls (NginxConfig ss) = concat (map (\<lambda>s. statement_decls s) ss)"
| "statement_decls (NginxConfigStatement ts cb) =
     (case cb of
        None \<Rightarrow> []
      | Some child \<Rightarrow>
          if length ts = 2 \<and> ts ! 0 = ''handler'' then
            (if get_key_value child ''location'' = [] then []
             else [(get_key_value child ''location'', ts ! 1, child)])
          else handler_decls child)"

definition add_decl :: "string \<times> string \<times> NginxConfig \<Rightarrow> handler_map \<Rightarrow> handler_map" where
  "add_decl d m = (case d of (path, type, child) \<Rightarrow>
     if map_of m type = None then map_put path (type, child) m else m)"

lemma get_handler_paths_decls:
  "get_handler_paths c m = fold add_decl (handler_decls c) m"
  "handler_paths_of_statement s m = fold add_decl (statement_decls s) m"
proof (induction c m and s m rule: get_handler_paths_handler_paths_of_statement.induct)
  case (1 ss m)
  have "fold (\<lambda>s. handler_paths_of_statement s) ss' m' =
      fold add_decl (concat (map (\<lambda>s. statement_decls s) ss')) m'"
    if "set ss' \<subseteq> set ss" for ss' m'
    using that "1" by (induction ss' arbitrary: m') simp_all
  then show ?case by simp
next
  case (2 ts cb m)
  then show ?case by (cases cb) (simp_all add: add_decl_def Let_def)
qed

lemma map_ok_decls: "map_ok m \<Longrightarrow> map_ok (fold add_decl ds m)"
  by (induction ds arbitrary: m) (auto simp: add_decl_def map_ok_put split: prod.splits)

lemma map_ok_handler_paths: "map_ok (get_handler_paths c [])"
  by (simp add: get_handler_paths_decls map_ok_decls)

lemma fold_add_decl_puts:
  assumes "\<forall>d \<in> set ds. fst (snd d) \<notin> fst ` set ds \<union> fst ` set m"
  shows "fold add_decl ds m = fold (\<lambda>(k, v). map_put k v) ds m"
  using assms
proof (induction ds arbitrary: m)
  case (Cons d ds)
  obtain p t ch where d: "d = (p, t, ch)" by (metis prod_cases3)
  from Cons.prems d have "map_of m t = None" by (simp add: map_of_eq_None_iff)
  then have put: "add_decl d m = map_put p (t, ch) m" by (simp add: d add_decl_def)
  from Cons.prems d
  have "\<forall>d' \<in> set ds. fst (snd d') \<notin> fst ` set ds \<union> fst ` set (map_put p (t, ch) m)"
    by simp
  from Cons.IH [OF this] put d show ?case by simp
qed simp

text \<open>The keys and values of the handler map come from the declarations.\<close>

lemma map_of_add_decl:
  "map_of (fold add_decl ds m) p = Some v \<Longrightarrow> map_of m p = Some v \<or> (p, v) \<in> set ds"
proof (induction ds arbitrary: m)
  case (Cons d ds)
  obtain q t ch where d: "d = (q, t, ch)" by (metis prod_cases3)
  from Cons.IH [of "add_decl d m"] Cons.prems
  have "map_of (add_decl d m) p = Some v \<or> (p, v) \<in> set ds" by simp
  then show ?case
    by (cases "map_of m t = None") (auto simp: d add_decl_def map_of_put split: if_splits)
qed simp

lemma decl_location: "(p, t, ch) \<in> set (handler_decls c) \<Longrightarrow> p = get_key_value ch ''location'' \<and> p \<noteq> []"
  "(p, t, ch) \<in> set (statement_decls s) \<Longrightarrow> p = get_key_value ch ''location'' \<and> p \<noteq> []"
proof (induction c and s rule: handler_decls_statement_decls.induct)
  case (1 ss)
  then show ?case by auto
next
  case (2 ts cb)
  then show ?case by (auto split: option.splits if_splits)
qed

text \<open>What a handler finds under its own location is the location it was registered for.\<close>

lemma handler_paths_location:
  assumes "(p, t, ch) \<in> set (get_handler_paths c [])"
  shows "get_key_value ch ''location'' = p" and "p \<noteq> []"
proof -
  from assms map_ok_handler_paths [of c] have "map_of (get_handler_paths c []) p = Some (t, ch)"
    by (simp add: ordered.iterate_iff)
  then have "(p, t, ch) \<in> set (handler_decls c)"
    using map_of_add_decl [of "handler_decls c" "[]" p "(t, ch)"]
    by (simp add: get_handler_paths_decls)
  from decl_location(1) [OF this] show "get_key_value ch ''location'' = p" and "p \<noteq> []" by auto
qed

text \<open>The server root ends with a slash in every case, so that a relative path can be appended.\<close>

lemma server_root_ends_with_slash:
  "\<exists>r. server_root (config_params c) = r @ ''/''"
  by (auto simp: config_params_def Let_def)

section \<open>Properties\<close>

text \<open>
  C39: The port a configuration sets is kept in a \<open>short\<close>: for a first statement \<open>port n\<close> with
  \<open>n\<close> below 2 to the 31, the 16 bits read back unsigned are \<open>n\<close> modulo 65536. So a number above
  65535 silently selects another port, and the \<open>-1\<close> that stands for a missing port is also the
  value of the legal port 65535.
\<close>

theorem port_narrowing:
  assumes "find sets_port (statements c) = Some s" and "tokens s = [''port'', nat_to_string n]"
    and "n < 2 ^ 31"
  shows "unat (port (config_params c)) = n mod 65536 \<and>
    (port (config_params c) = port default_config_params \<longleftrightarrow> n mod 65536 = 65535)"
  using port_narrowed [OF assms] by (simp add: default_config_params_def word16_eq_minus_1)

lemma nat_to_string_65535: "nat_to_string 65535 = ''65535''"
  by (simp add: nat_to_string.simps digit_char_def)

theorem port_narrowing_witness:
  "unat (port (config_params (NginxConfig [NginxConfigStatement [''port'', ''65535''] None]))) = 65535 mod 65536 \<and>
   port (config_params (NginxConfig [NginxConfigStatement [''port'', ''65535''] None])) =
     port default_config_params"
  using port_narrowing [of "NginxConfig [NginxConfigStatement [''port'', ''65535''] None]"
      "NginxConfigStatement [''port'', ''65535''] None" 65535]
  by (simp add: sets_port_def nat_to_string_65535 default_config_params_def word16_eq_minus_1)

text \<open>
  C37: The handler map is sorted by location, and when no handler type is also a location it holds,
  for every location, the handler block declared last for it, wherever in the file the block is
  nested. An earlier block for the same location is silently replaced.
\<close>

theorem handler_map_last_declaration:
  assumes "\<forall>d \<in> set (handler_decls c). fst (snd d) \<notin> fst ` set (handler_decls c)"
  shows "map_ok (handler_paths (config_params c)) \<and>
    map_of (handler_paths (config_params c)) = map_of (rev (handler_decls c))"
proof -
  have "get_handler_paths c [] = fold (\<lambda>(k, v). map_put k v) (handler_decls c) []"
    unfolding get_handler_paths_decls by (rule fold_add_decl_puts) (use assms in simp)
  then show ?thesis by (simp add: config_params_def Let_def ordered.ok_fold ordered.get_fold)
qed

theorem handler_map_last_declaration_witness:
  "map_of (handler_paths (config_params
     (NginxConfig [NginxConfigStatement [''handler'', ''echo'']
        (Some (NginxConfig [NginxConfigStatement [''location'', ''/a''] None])),
      NginxConfigStatement [''handler'', ''health'']
        (Some (NginxConfig [NginxConfigStatement [''location'', ''/a''] None]))]))) ''/a'' =
   Some (''health'', NginxConfig [NginxConfigStatement [''location'', ''/a''] None])"
  using handler_map_last_declaration
    [of "NginxConfig [NginxConfigStatement [''handler'', ''echo'']
        (Some (NginxConfig [NginxConfigStatement [''location'', ''/a''] None])),
      NginxConfigStatement [''handler'', ''health'']
        (Some (NginxConfig [NginxConfigStatement [''location'', ''/a''] None]))]"]
  by (simp add: get_key_value_def)

text \<open>
  C38: A handler block whose handler type is the location of an earlier block is dropped, whatever
  its own location is: the guard looks the type up among the locations. The configuration with
  the block gives the same handler map as the one without it.
\<close>

theorem handler_type_guard_drops:
  assumes "type \<in> fst ` set (handler_paths (config_params (NginxConfig ss)))"
  shows "handler_paths (config_params
      (NginxConfig (ss @ [NginxConfigStatement [''handler'', type] (Some child)]))) =
    handler_paths (config_params (NginxConfig ss))"
proof -
  from assms have "map_of (fold (\<lambda>s. handler_paths_of_statement s) ss []) type \<noteq> None"
    by (simp add: config_params_def Let_def map_of_eq_None_iff)
  then show ?thesis by (auto simp: config_params_def Let_def)
qed

theorem handler_type_guard_drops_witness:
  "handler_paths (config_params (NginxConfig
     ([NginxConfigStatement [''handler'', ''static'']
        (Some (NginxConfig [NginxConfigStatement [''location'', ''echo''] None]))] @
      [NginxConfigStatement [''handler'', ''echo'']
        (Some (NginxConfig [NginxConfigStatement [''location'', ''/b''] None]))]))) =
   handler_paths (config_params (NginxConfig
     [NginxConfigStatement [''handler'', ''static'']
        (Some (NginxConfig [NginxConfigStatement [''location'', ''echo''] None]))]))"
  by (rule handler_type_guard_drops) (simp add: config_params_def get_key_value_def Let_def)

end
