(* ===== verification/Http_Message.thy ===== *)
theory Http_Message
  imports Bingit_Prelude
begin

text \<open>
  \<^verbatim>\<open>request.h\<close>/\<^verbatim>\<open>request.cc\<close> and \<^verbatim>\<open>reply.h\<close>/\<^verbatim>\<open>reply.cc\<close>: the request and reply objects and the
  serialisation of a reply.

  \<open>reply::construct_http_response\<close> iterates over an \<open>std::unordered_map\<close>, whose order the
  standard leaves open: the enumeration is the argument \<open>enum\<close>, and \<open>enumerates enum\<close> says
  that it visits every header once. \<open>short\<close> codes are \<^typ>\<open>int\<close>: the sources only assign
  the literals 200, 400 and 404 to them.
\<close>

type_synonym header_map = "(string \<times> string) list"

record request =
  meth :: string
  path :: string
  http_version :: string
  headers :: header_map
  body :: string
  valid :: bool
  original_request :: string

definition default_request :: request where
  "default_request = \<lparr>meth = ''GET'', path = ''/'', http_version = ''HTTP/1.1'', headers = [],
     body = [], valid = True, original_request = ''GET / HTTP/1.1'' @ CRLF @ CRLF\<rparr>"

definition new_request :: "string \<Rightarrow> string \<Rightarrow> string \<Rightarrow> header_map \<Rightarrow> string \<Rightarrow> string \<Rightarrow> bool \<Rightarrow> request" where
  [simp]: "new_request m p v hs b orig validity =
     \<lparr>meth = m, path = p, http_version = v, headers = hs, body = b, valid = validity, original_request = orig\<rparr>"

definition get_original_request :: "request \<Rightarrow> string" where
  "get_original_request r = original_request r"

definition get_http_version :: "request \<Rightarrow> string" where
  "get_http_version r = http_version r"

definition get_path :: "request \<Rightarrow> string" where
  "get_path r = path r"

definition is_valid :: "request \<Rightarrow> bool" where
  "is_valid r = valid r"

record reply =
  reply_version :: string
  code :: int
  mime_type :: string
  content :: string
  reply_headers :: header_map

definition default_reply :: reply where
  "default_reply = \<lparr>reply_version = ''HTTP/1.1'', code = 400, mime_type = ''text/plain'',
     content = ''unininitialized'', reply_headers = []\<rparr>"

definition code_to_message :: "int \<Rightarrow> string" where
  "code_to_message c =
     (if c = 200 then ''OK''
      else if c = 400 then ''Bad Request''
      else if c = 404 then ''Not Found''
      else ''CODE NOT CONFIGURED'')"

definition header_line :: "string \<times> string \<Rightarrow> string" where
  "header_line h = fst h @ '': '' @ snd h @ CRLF"

definition construct_http_response :: "(header_map \<Rightarrow> (string \<times> string) list) \<Rightarrow> reply \<Rightarrow> string" where
  "construct_http_response enum r =
     reply_version r @ '' '' @ to_string (code r) @ '' '' @ code_to_message (code r) @ CRLF @
     concat (map header_line (enum (reply_headers r))) @ CRLF @ content r"

definition enumerates :: "(header_map \<Rightarrow> (string \<times> string) list) \<Rightarrow> bool" where
  "enumerates enum \<longleftrightarrow> (\<forall>m. mset (enum m) = mset m)"

lemma enumerates_set: "enumerates enum \<Longrightarrow> set (enum m) = set m"
  unfolding enumerates_def by (metis set_mset_mset)

lemma enumerates_map_of:
  assumes "enumerates enum" and "distinct (map fst m)"
  shows "map_of (enum m) = map_of m"
proof -
  from assms(1) have m: "mset (enum m) = mset m" by (simp add: enumerates_def)
  then have "mset (map fst (enum m)) = mset (map fst m)" by simp
  with assms(2) have "distinct (map fst (enum m))" by (metis mset_eq_imp_distinct_iff)
  with assms m show ?thesis by (metis map_of_inject_set mset_eq_setD)
qed

lemma enumerates_rev: "enumerates rev"
  by (simp add: enumerates_def)

section \<open>The replies handlers build\<close>

text \<open>
  Every handler ends the same way: it stores \<open>Content-Type\<close> and \<open>Content-Length\<close> into a fresh
  header map and constructs the reply from it. The proxy handler stores them the other way
  round; the map is unordered.
\<close>

definition make_headers :: "string \<Rightarrow> string \<Rightarrow> header_map" where
  "make_headers mime cont =
     AList.update ''Content-Length'' (nat_to_string (length cont))
       (AList.update ''Content-Type'' mime [])"

definition make_reply :: "string \<Rightarrow> int \<Rightarrow> string \<Rightarrow> string \<Rightarrow> reply" where
  "make_reply ver c mime cont =
     \<lparr>reply_version = ver, code = c, mime_type = mime, content = cont,
      reply_headers = make_headers mime cont\<rparr>"

lemma make_headers_eq:
  "make_headers mime cont =
     [(''Content-Type'', mime), (''Content-Length'', nat_to_string (length cont))]"
  by (simp add: make_headers_def)

lemma make_reply_simps [simp]:
  "reply_version (make_reply ver c mime cont) = ver" "code (make_reply ver c mime cont) = c"
  "mime_type (make_reply ver c mime cont) = mime" "content (make_reply ver c mime cont) = cont"
  "reply_headers (make_reply ver c mime cont) = make_headers mime cont"
  by (simp_all add: make_reply_def)

text \<open>
  What \<open>session\<close> relies on: the reply repeats the request's HTTP version, its code is one of
  those \<open>code_to_message\<close> knows, and its headers are the content's type, one of five, and length.
\<close>

definition known_mime_types :: "string list" where
  "known_mime_types = [''text/plain'', ''text/html'', ''image/jpeg'', ''image/png'', ''application/zip'']"

definition reply_ok :: "request \<Rightarrow> reply \<Rightarrow> bool" where
  "reply_ok req r \<longleftrightarrow>
     reply_version r = http_version req \<and> code r \<in> {200, 400, 404} \<and> mime_type r \<in> set known_mime_types \<and>
     distinct (map fst (reply_headers r)) \<and>
     fst ` set (reply_headers r) = {''Content-Type'', ''Content-Length''} \<and>
     map_of (reply_headers r) ''Content-Type'' = Some (mime_type r) \<and>
     map_of (reply_headers r) ''Content-Length'' = Some (nat_to_string (length (content r)))"

lemma reply_ok_make [simp]:
  "c \<in> {200, 400, 404} \<Longrightarrow> mime \<in> set known_mime_types \<Longrightarrow>
     reply_ok req (make_reply (http_version req) c mime cont)"
  by (auto simp: reply_ok_def make_headers_eq)

end
