(* ===== verification/Request_Parser.thy ===== *)
theory Request_Parser
  imports Http_Message
begin

text \<open>
  The free functions of \<^verbatim>\<open>src/session.cc\<close> that read a request: \<open>validate_http_version\<close> and
  \<open>parse_request_line\<close>. The argument of the latter is a \<open>const char*\<close>, so only the bytes before
  the first NUL are seen. \<open>boost::trim\<close> is the parameter \<open>trim\<close>; the client address only goes
  into log lines and is left out.
\<close>

section \<open>Definitions\<close>

text \<open>\<open>std::string::operator[]\<close>: at \<open>size()\<close> it is the NUL character.\<close>

definition str_at :: "string \<Rightarrow> nat \<Rightarrow> char" where
  "str_at s i = (if i < length s then s ! i else NUL)"

text \<open>The loop over the version number: \<open>None\<close> is the early \<open>return false\<close>.\<close>

fun count_dots :: "nat \<Rightarrow> string \<Rightarrow> nat option" where
  "count_dots n [] = Some n"
| "count_dots n (c # cs) =
     (if c = CHR ''.'' then count_dots (n + 1) cs
      else if \<not> isdigit c then None
      else count_dots n cs)"

definition validate_http_version :: "string \<Rightarrow> bool" where
  "validate_http_version ver =
     (if length ver < 5 \<or> \<not> isdigit (str_at ver 5) \<or>
         str_at ver (length ver - 1) = CHR ''.'' \<or> take 5 ver \<noteq> ''HTTP/''
      then False
      else case count_dots 0 (drop 5 ver) of None \<Rightarrow> False | Some n \<Rightarrow> n = 1)"

text \<open>The first loop: \<open>None\<close> is the early return for an unsupported method.\<close>

fun read_method :: "string \<Rightarrow> string \<Rightarrow> (string \<times> string) option" where
  "read_method mtd [] = Some (mtd, [])"
| "read_method mtd (c # cs) =
     (if c = SP then
        (if mtd \<noteq> ''GET'' \<and> mtd \<noteq> ''POST'' then None else Some (mtd, cs))
      else read_method (mtd @ [c]) cs)"

fun read_path :: "string \<Rightarrow> string \<Rightarrow> string \<times> string" where
  "read_path p [] = (p, [])"
| "read_path p (c # cs) = (if c = SP then (p, cs) else read_path (p @ [c]) cs)"

text \<open>The third loop: whether a line end was found, what precedes it, what follows it.\<close>

fun read_version :: "string \<Rightarrow> string \<Rightarrow> bool \<times> string \<times> string" where
  "read_version ver (c # d # cs) =
     (if c = CR \<and> d = LF then (True, ver, cs) else read_version (ver @ [c]) (d # cs))"
| "read_version ver s = (False, ver, s)"

text \<open>The inner loop over a header line. Without a line end it leaves the last byte unread.\<close>

fun read_line :: "string \<Rightarrow> string \<Rightarrow> string \<times> string" where
  "read_line line (c # d # cs) =
     (if c = CR \<and> d = LF then (line, cs) else read_line (line @ [c]) (d # cs))"
| "read_line line s = (line, s)"

definition add_header :: "(string \<Rightarrow> string) \<Rightarrow> string \<Rightarrow> header_map \<Rightarrow> header_map" where
  "add_header trim line hs =
     (case str_find line '':'' of
        None \<Rightarrow> hs
      | Some pos \<Rightarrow> AList.update (take pos line) (trim (drop (pos + 1) line)) hs)"

lemma read_line_consumes: "1 < length s \<Longrightarrow> (u, r) = read_line line s \<Longrightarrow> length r < length s"
proof (induction line s rule: read_line.induct)
  case (1 line c d cs)
  then show ?case by (cases cs) (auto split: if_splits)
qed auto

text \<open>The loop over the header lines, which ends with the body after an empty line.\<close>

function read_headers :: "(string \<Rightarrow> string) \<Rightarrow> header_map \<Rightarrow> string \<Rightarrow> header_map \<times> string" where
  "read_headers trim hs s =
     (if 1 < length s then
        (case read_line [] s of (line, rest) \<Rightarrow>
           if line = [] then (hs, rest) else read_headers trim (add_header trim line hs) rest)
      else (hs, []))"
  by pat_completeness auto
termination
  by (relation "measure (\<lambda>(trim, hs, s). length s)") (auto intro: read_line_consumes)

declare read_headers.simps [simp del]

definition invalid_request :: "string \<Rightarrow> request" where
  "invalid_request orig = new_request [] [] ''HTTP/1.1'' [] [] orig False"

definition parse_request_line :: "(string \<Rightarrow> string) \<Rightarrow> string \<Rightarrow> request" where
  "parse_request_line trim request_line =
     (let orig = c_str request_line
      in case read_method [] orig of
           None \<Rightarrow> invalid_request orig
         | Some (mtd, s1) \<Rightarrow>
             (case read_path [] s1 of (p, s2) \<Rightarrow>
                if p = [] then invalid_request orig
                else case read_version [] s2 of (has_crlf, ver, s3) \<Rightarrow>
                  if \<not> has_crlf then invalid_request orig
                  else if \<not> validate_http_version ver then invalid_request orig
                  else case read_headers trim [] s3 of (hs, bod) \<Rightarrow>
                    new_request mtd p ver hs bod orig True))"

section \<open>The HTTP version\<close>

lemma count_dots_digits: "list_all isdigit s \<Longrightarrow> count_dots n s = Some n"
  by (induction s) (auto simp: isdigit_def)

lemma count_dots_ge: "count_dots n s = Some m \<Longrightarrow> n \<le> m"
  by (induction s arbitrary: n) (fastforce split: if_splits)+

lemma count_dots_0: "count_dots n s = Some n \<Longrightarrow> list_all isdigit s"
proof (induction s)
  case (Cons c cs)
  then show ?case using count_dots_ge [of "n + 1" cs n] by (auto split: if_splits)
qed simp

lemma count_dots_1:
  "count_dots 0 s = Some (Suc 0) \<longleftrightarrow>
     (\<exists>a b. s = a @ ''.'' @ b \<and> list_all isdigit a \<and> list_all isdigit b)"
proof
  show "count_dots 0 s = Some (Suc 0) \<Longrightarrow>
      \<exists>a b. s = a @ ''.'' @ b \<and> list_all isdigit a \<and> list_all isdigit b"
  proof (induction s)
    case (Cons c cs)
    show ?case
    proof (cases "c = CHR ''.''")
      case True
      with Cons.prems have "list_all isdigit cs" by (simp add: count_dots_0)
      with True show ?thesis by (intro exI [of _ "[]"] exI [of _ cs]) simp
    next
      case False
      with Cons obtain a b where "cs = a @ ''.'' @ b" "list_all isdigit a" "list_all isdigit b" "isdigit c"
        by (auto split: if_splits)
      then show ?thesis by (intro exI [of _ "c # a"] exI [of _ b]) simp
    qed
  qed simp
next
  assume "\<exists>a b. s = a @ ''.'' @ b \<and> list_all isdigit a \<and> list_all isdigit b"
  then obtain a b where s: "s = a @ ''.'' @ b" "list_all isdigit a" "list_all isdigit b" by blast
  have "count_dots 0 (a @ ''.'' @ b) = count_dots 0 (''.'' @ b)"
    using s(2) by (induction a) (auto simp: isdigit_def)
  with s show "count_dots 0 s = Some (Suc 0)" by (simp add: count_dots_digits)
qed

lemma validate_http_version_iff:
  "validate_http_version v \<longleftrightarrow>
     (\<exists>major minor. v = ''HTTP/'' @ major @ ''.'' @ minor \<and> major \<noteq> [] \<and> minor \<noteq> [] \<and>
        list_all isdigit major \<and> list_all isdigit minor)"
proof
  assume val: "validate_http_version v"
  then have tk: "take 5 v = ''HTTP/''" and d5: "isdigit (str_at v 5)"
    and l: "str_at v (length v - 1) \<noteq> CHR ''.''" and cd: "count_dots 0 (drop 5 v) = Some (Suc 0)"
    by (auto simp: validate_http_version_def split: if_splits option.splits)
  from cd obtain a b where ab: "drop 5 v = a @ ''.'' @ b" "list_all isdigit a" "list_all isdigit b"
    by (auto simp: count_dots_1)
  have v: "v = ''HTTP/'' @ a @ ''.'' @ b" using tk ab(1) append_take_drop_id [of 5 v] by simp
  have "a \<noteq> []" using d5 v by (auto simp: str_at_def)
  moreover have "b \<noteq> []" using l v by (auto simp: str_at_def nth_append)
  ultimately show "\<exists>major minor. v = ''HTTP/'' @ major @ ''.'' @ minor \<and> major \<noteq> [] \<and> minor \<noteq> [] \<and>
      list_all isdigit major \<and> list_all isdigit minor"
    using v ab by blast
next
  assume "\<exists>major minor. v = ''HTTP/'' @ major @ ''.'' @ minor \<and> major \<noteq> [] \<and> minor \<noteq> [] \<and>
      list_all isdigit major \<and> list_all isdigit minor"
  then obtain a b where v: "v = ''HTTP/'' @ a @ ''.'' @ b" and ne: "a \<noteq> []" "b \<noteq> []"
    and dg: "list_all isdigit a" "list_all isdigit b" by blast
  have "drop 5 v = a @ ''.'' @ b" "take 5 v = ''HTTP/''" by (simp_all add: v)
  moreover from this have "count_dots 0 (drop 5 v) = Some (Suc 0)"
    unfolding count_dots_1 using dg by blast
  moreover have "isdigit (str_at v 5)" using ne(1) dg(1) v by (cases a) (auto simp: str_at_def)
  moreover have "isdigit (str_at v (length v - 1))"
  proof -
    have "str_at v (length v - 1) = last v"
      unfolding str_at_def by (subst last_conv_nth) (simp_all add: v)
    also have "\<dots> = last b" by (simp add: v ne(2))
    finally show ?thesis using ne(2) dg(2) by (simp add: list_all_iff)
  qed
  then have "str_at v (length v - 1) \<noteq> CHR ''.''" by (auto simp: isdigit_def)
  ultimately show "validate_http_version v" by (simp add: validate_http_version_def v)
qed

lemma version_no_CR: "validate_http_version v \<Longrightarrow> CR \<notin> set v"
proof -
  assume "validate_http_version v"
  then obtain a b where v: "v = ''HTTP/'' @ a @ ''.'' @ b" and "list_all isdigit a" "list_all isdigit b"
    by (auto simp: validate_http_version_iff)
  then have "CR \<notin> set a" "CR \<notin> set b" by (auto simp: list_all_iff)
  with v show ?thesis by simp
qed

section \<open>The loops in closed form\<close>

lemma read_method_eq:
  "read_method m s =
     (let w = takeWhile (\<lambda>c. c \<noteq> SP) s
      in if SP \<notin> set s then Some (m @ w, [])
         else if m @ w \<noteq> ''GET'' \<and> m @ w \<noteq> ''POST'' then None
         else Some (m @ w, tl (dropWhile (\<lambda>c. c \<noteq> SP) s)))"
  by (induction s arbitrary: m) (simp_all add: Let_def)

lemma read_path_eq:
  "read_path p s = (p @ takeWhile (\<lambda>c. c \<noteq> SP) s, tl (dropWhile (\<lambda>c. c \<noteq> SP) s))"
  by (induction s arbitrary: p) auto

lemma split_at_space:
  "SP \<in> set s \<Longrightarrow> s = takeWhile (\<lambda>c. c \<noteq> SP) s @ SP # tl (dropWhile (\<lambda>c. c \<noteq> SP) s)"
  by (induction s) auto

lemma read_version_no_CR:
  "CR \<notin> set w \<Longrightarrow> read_version v (w @ CRLF @ r) = (True, v @ w, r)"
proof (induction w arbitrary: v)
  case (Cons c w)
  then show ?case by (cases w) (auto simp: CRLF_def)
qed (simp add: CRLF_def)

lemma read_version_True:
  "read_version v s = (True, u, r) \<Longrightarrow> \<exists>w. u = v @ w \<and> s = w @ CRLF @ r"
proof (induction v s rule: read_version.induct)
  case (1 v c d cs)
  show ?case
  proof (cases "c = CR \<and> d = LF")
    case True
    with "1.prems" show ?thesis by (simp add: CRLF_def)
  next
    case False
    then have "read_version v (c # d # cs) = read_version (v @ [c]) (d # cs)" by auto
    with "1.IH" [OF False] "1.prems" obtain w where "u = (v @ [c]) @ w" "d # cs = w @ CRLF @ r"
      by metis
    then show ?thesis by (intro exI [of _ "c # w"]) simp
  qed
qed simp_all

lemma read_line_no_CR:
  "CR \<notin> set w \<Longrightarrow> read_line l (w @ CRLF @ r) = (l @ w, r)"
proof (induction w arbitrary: l)
  case (Cons c w)
  then show ?case by (cases w) (auto simp: CRLF_def)
qed (simp add: CRLF_def)

section \<open>Header lines\<close>

text \<open>A header field that a line can carry: no line break, no colon in the name.\<close>

definition field_ok :: "string \<times> string \<Rightarrow> bool" where
  "field_ok h \<longleftrightarrow> CR \<notin> set (fst h) \<and> CHR '':'' \<notin> set (fst h) \<and> CR \<notin> set (snd h)"

lemma str_find_colon: "CHR '':'' \<notin> set k \<Longrightarrow> str_find (k @ '':'' @ v) '':'' = Some (length k)"
  by (induction k) auto

lemma read_headers_Cons:
  assumes "field_ok h"
  shows "read_headers trim hs (header_line h @ rest) =
    read_headers trim (AList.update (fst h) (trim (SP # snd h)) hs) rest"
proof -
  obtain k v where h: "h = (k, v)" by fastforce
  let ?line = "k @ '': '' @ v"
  have "read_line [] (header_line h @ rest) = (?line, rest)"
    using assms read_line_no_CR [of ?line "[]" rest] by (simp add: h header_line_def field_ok_def)
  moreover have "add_header trim ?line hs = AList.update k (trim (SP # v)) hs"
    using assms str_find_colon [of k "SP # v"] by (simp add: h add_header_def field_ok_def)
  moreover have "1 < length (header_line h @ rest)" by (simp add: h header_line_def)
  ultimately show ?thesis by (simp add: read_headers.simps [of trim hs "header_line (k, v) @ rest"] h)
qed

lemma read_headers_end: "read_headers trim hs (CRLF @ b) = (hs, b)"
  using read_line_no_CR [of "[]" "[]" b]
  by (simp add: read_headers.simps [of _ _ "CRLF @ b"])

lemma AList_update_new: "k \<notin> fst ` set hs \<Longrightarrow> AList.update k v hs = hs @ [(k, v)]"
  by (induction hs) auto

lemma read_headers_lines:
  "list_all field_ok fs \<Longrightarrow> distinct (map fst (hs @ fs)) \<Longrightarrow> \<forall>h \<in> set fs. trim (SP # snd h) = snd h \<Longrightarrow>
     read_headers trim hs (concat (map header_line fs) @ CRLF @ b) = (hs @ fs, b)"
proof (induction fs arbitrary: hs)
  case Nil
  then show ?case by (simp add: read_headers_end)
next
  case (Cons h fs)
  then have "AList.update (fst h) (trim (SP # snd h)) hs = hs @ [h]"
    by (subst AList_update_new) (auto simp: image_iff)
  with Cons show ?case by (simp add: read_headers_Cons)
qed

text \<open>
  What the documentation of \<open>boost::trim\<close> promises: white space at both ends is removed and
  nothing else. \<open>strip\<close> is a function that does this.
\<close>

definition isspace :: "char \<Rightarrow> bool" where
  "isspace c \<longleftrightarrow> c \<in> {SP, TAB, LF, CHR 0x0B, CHR 0x0C, CR}"

definition no_outer_space :: "string \<Rightarrow> bool" where
  "no_outer_space s \<longleftrightarrow> s = [] \<or> \<not> isspace (hd s) \<and> \<not> isspace (last s)"

definition trims :: "(string \<Rightarrow> string) \<Rightarrow> bool" where
  "trims trim \<longleftrightarrow> (\<forall>a s b. list_all isspace a \<and> list_all isspace b \<and> no_outer_space s \<longrightarrow>
     trim (a @ s @ b) = s)"

definition strip :: "string \<Rightarrow> string" where
  "strip s = rev (dropWhile isspace (rev (dropWhile isspace s)))"

lemma dropWhile_space:
  assumes "list_all isspace a" and "s = [] \<or> \<not> isspace (hd s)"
  shows "dropWhile isspace (a @ s) = s"
  using assms by (induction a) (cases s, auto)

lemma trims_strip: "trims strip"
  unfolding trims_def
proof (intro allI impI, elim conjE)
  fix a s b
  assume a: "list_all isspace a" and b: "list_all isspace b" and s: "no_outer_space s"
  show "strip (a @ s @ b) = s"
  proof (cases "s = []")
    case True
    from a b have "list_all isspace (a @ b)" by simp
    from dropWhile_space [OF this, of "[]"] True have d: "dropWhile isspace (a @ s @ b) = []"
      by (metis append_Nil append_Nil2)
    show ?thesis unfolding strip_def d by (simp add: True)
  next
    case False
    with a s have "dropWhile isspace (a @ s @ b) = s @ b"
      by (intro dropWhile_space) (simp_all add: no_outer_space_def)
    moreover from b s False have "dropWhile isspace (rev b @ rev s) = rev s"
      by (intro dropWhile_space) (simp_all add: no_outer_space_def hd_rev list_all_iff)
    ultimately show ?thesis by (simp add: strip_def)
  qed
qed

lemma trims_field: "trims trim \<Longrightarrow> no_outer_space v \<Longrightarrow> trim (SP # v) = v"
proof -
  assume t: "trims trim" and v: "no_outer_space v"
  from t [unfolded trims_def, rule_format, of "[SP]" "[]" v] v show ?thesis
    by (simp add: isspace_def)
qed

section \<open>The request line\<close>

lemma takeWhile_space:
  "SP \<notin> set w \<Longrightarrow> takeWhile (\<lambda>c. c \<noteq> SP) (w @ SP # s) = w \<and> dropWhile (\<lambda>c. c \<noteq> SP) (w @ SP # s) = SP # s"
  by (induction w) auto

text \<open>A well-formed request line leads to the header loop.\<close>

lemma parse_request_line_ok:
  assumes "c_str buf = m @ SP # p @ SP # v @ CRLF @ r" and "m = ''GET'' \<or> m = ''POST''"
    and "p \<noteq> []" and "SP \<notin> set p" and "validate_http_version v"
  shows "parse_request_line trim buf =
    (case read_headers trim [] r of (hs, bod) \<Rightarrow>
       \<lparr>meth = m, path = p, http_version = v, headers = hs, body = bod, valid = True,
        original_request = c_str buf\<rparr>)"
proof -
  have "read_method [] (c_str buf) = Some (m, p @ SP # v @ CRLF @ r)"
    using assms(1,2) takeWhile_space [of m "p @ SP # v @ CRLF @ r"]
    by (auto simp: read_method_eq Let_def)
  moreover have "read_path [] (p @ SP # v @ CRLF @ r) = (p, v @ CRLF @ r)"
    using takeWhile_space [OF assms(4), of "v @ CRLF @ r"] by (simp add: read_path_eq)
  moreover have "read_version [] (v @ CRLF @ r) = (True, v, r)"
    using read_version_no_CR [OF version_no_CR [OF assms(5)], of "[]" r] by simp
  ultimately show ?thesis
    using assms(3,5) by (simp add: parse_request_line_def Let_def)
qed

lemma parse_request_line_validD:
  assumes "valid (parse_request_line trim buf)"
  shows "\<exists>m p v r. c_str buf = m @ SP # p @ SP # v @ CRLF @ r \<and> (m = ''GET'' \<or> m = ''POST'') \<and>
    p \<noteq> [] \<and> SP \<notin> set p \<and> validate_http_version v"
proof -
  obtain m s1 where rm: "read_method [] (c_str buf) = Some (m, s1)"
    using assms by (auto simp: parse_request_line_def invalid_request_def Let_def split: option.splits)
  obtain p s2 where rp: "read_path [] s1 = (p, s2)" by fastforce
  obtain crlf v s3 where rv: "read_version [] s2 = (crlf, v, s3)" by (metis prod_cases3)
  from assms rm rp rv have ok: "p \<noteq> []" "crlf" "validate_http_version v"
    by (auto simp: parse_request_line_def invalid_request_def Let_def split: if_splits)
  from rv ok(2) have s2: "s2 = v @ CRLF @ s3" using read_version_True [of "[]" s2 v s3] by auto
  from rp have p: "p = takeWhile (\<lambda>c. c \<noteq> SP) s1" "s2 = tl (dropWhile (\<lambda>c. c \<noteq> SP) s1)"
    by (simp_all add: read_path_eq)
  have "SP \<in> set s1"
  proof (rule ccontr)
    assume "SP \<notin> set s1"
    then have "dropWhile (\<lambda>c. c \<noteq> SP) s1 = []" by auto
    with p(2) s2 show False by (simp add: CRLF_def)
  qed
  from split_at_space [OF this] p have s1: "s1 = p @ SP # s2" by simp
  have sp: "SP \<in> set (c_str buf)"
  proof (rule ccontr)
    assume "SP \<notin> set (c_str buf)"
    with rm s1 show False by (simp add: read_method_eq)
  qed
  with rm have m: "m = takeWhile (\<lambda>c. c \<noteq> SP) (c_str buf)"
    "s1 = tl (dropWhile (\<lambda>c. c \<noteq> SP) (c_str buf))" "m = ''GET'' \<or> m = ''POST''"
    by (simp_all add: read_method_eq Let_def split: if_splits)
  from split_at_space [OF sp] m have "c_str buf = m @ SP # s1" by simp
  moreover have "SP \<notin> set p" using p(1) by (metis set_takeWhileD)
  ultimately show ?thesis using ok m(3) s1 s2 by auto
qed

lemma isdigit_not_space: "isdigit c \<Longrightarrow> \<not> isspace c"
  by (auto simp: isdigit_def isspace_def)

lemma number_field: "field_ok (''Content-Length'', nat_to_string n)" "no_outer_space (nat_to_string n)"
proof -
  show "field_ok (''Content-Length'', nat_to_string n)" by (simp add: field_ok_def)
  have "isdigit (hd (nat_to_string n))" "isdigit (last (nat_to_string n))"
    using nat_to_string_digits [of n] by simp_all
  then show "no_outer_space (nat_to_string n)" by (simp add: no_outer_space_def isdigit_not_space)
qed

text \<open>The two headers of a reply are readable header lines.\<close>

lemma reply_ok_headers:
  assumes "reply_ok req r" and "h \<in> set (reply_headers r)"
  shows "h = (''Content-Type'', mime_type r) \<or> h = (''Content-Length'', nat_to_string (length (content r)))"
proof -
  obtain k v where h: "h = (k, v)" by fastforce
  have keys: "fst ` set (reply_headers r) = {''Content-Type'', ''Content-Length''}"
    and dist: "distinct (map fst (reply_headers r))"
    and ct: "map_of (reply_headers r) ''Content-Type'' = Some (mime_type r)"
    and cl: "map_of (reply_headers r) ''Content-Length'' = Some (nat_to_string (length (content r)))"
    using assms(1) unfolding reply_ok_def by blast+
  from assms(2) h have "fst (k, v) \<in> fst ` set (reply_headers r)" by (metis imageI)
  then have k: "k = ''Content-Type'' \<or> k = ''Content-Length''" by (simp only: keys fst_conv) blast
  from assms(2) h dist have "map_of (reply_headers r) k = Some v" by simp
  with k ct cl show ?thesis unfolding h by (metis option.inject)
qed

lemma known_mime: "m \<in> set known_mime_types \<Longrightarrow> CR \<notin> set m \<and> no_outer_space m"
  by (auto simp: known_mime_types_def no_outer_space_def isspace_def)

lemma reply_fields:
  assumes "reply_ok req r" and "enumerates enum" and "trims trim"
  shows "list_all field_ok (enum (reply_headers r))" and "distinct (map fst (enum (reply_headers r)))"
    and "\<forall>h \<in> set (enum (reply_headers r)). trim (SP # snd h) = snd h"
proof -
  have hs: "set (enum (reply_headers r)) = set (reply_headers r)" by (rule enumerates_set [OF assms(2)])
  have mime: "CR \<notin> set (mime_type r)" "no_outer_space (mime_type r)"
    using known_mime assms(1) by (auto simp: reply_ok_def)
  then have ct: "field_ok (''Content-Type'', mime_type r)" by (simp add: field_ok_def)
  show "list_all field_ok (enum (reply_headers r))"
    unfolding list_all_iff hs using reply_ok_headers [OF assms(1)] number_field(1) ct by metis
  show "\<forall>h \<in> set (enum (reply_headers r)). trim (SP # snd h) = snd h"
    unfolding hs using reply_ok_headers [OF assms(1)] trims_field [OF assms(3)] number_field(2) mime(2)
    by (metis snd_conv)
  have "distinct (map fst (reply_headers r))" using assms(1) by (simp add: reply_ok_def)
  with assms(2) show "distinct (map fst (enum (reply_headers r)))"
    using mset_eq_imp_distinct_iff [of "map fst (enum (reply_headers r))" "map fst (reply_headers r)"]
    by (simp add: enumerates_def)
qed

lemma status_no_CR: "code r \<in> {200, 400, 404} \<Longrightarrow> CR \<notin> set (to_string (code r)) \<and> CR \<notin> set (code_to_message (code r))"
  by (auto simp: code_to_message_def to_string_def)

text \<open>The bytes of a reply, read back with the loops that read requests.\<close>

lemma reply_readable:
  assumes "reply_ok req r" and "enumerates enum" and "trims trim"
    and "CR \<notin> set (http_version req)"
  shows "(\<exists>rest. read_version [] (construct_http_response enum r) =
      (True, http_version req @ [SP] @ to_string (code r) @ [SP] @ code_to_message (code r), rest) \<and>
      read_headers trim [] rest = (enum (reply_headers r), content r)) \<and>
    map_of (enum (reply_headers r)) ''Content-Length'' = Some (nat_to_string (length (content r)))"
proof -
  let ?hs = "enum (reply_headers r)"
  let ?status = "http_version req @ [SP] @ to_string (code r) @ [SP] @ code_to_message (code r)"
  have rh: "read_headers trim [] (concat (map header_line ?hs) @ CRLF @ content r) = (?hs, content r)"
    using read_headers_lines [of ?hs "[]" trim] reply_fields [OF assms(1-3)] by simp
  have "CR \<notin> set ?status"
    using status_no_CR [of r] assms(1,4) by (simp add: reply_ok_def)
  from read_version_no_CR [OF this, of "[]" "concat (map header_line ?hs) @ CRLF @ content r"] rh
  have "\<exists>rest. read_version [] (construct_http_response enum r) = (True, ?status, rest) \<and>
    read_headers trim [] rest = (?hs, content r)"
    using assms(1) by (simp add: construct_http_response_def reply_ok_def)
  moreover have "map_of ?hs ''Content-Length'' = Some (nat_to_string (length (content r)))"
    using enumerates_map_of [OF assms(2), of "reply_headers r"] assms(1) by (simp add: reply_ok_def)
  ultimately show ?thesis by blast
qed

section \<open>Properties\<close>


text \<open>
  C7: A request is valid exactly when the bytes before the first NUL are a supported method, a
  space, a non-empty path without a space, a space, a valid HTTP version and a line end, followed
  by anything; the headers and the body never make it invalid.
\<close>

theorem request_valid_iff:
  "is_valid (parse_request_line trim buf) \<longleftrightarrow>
     (\<exists>m p v r. c_str buf = m @ [SP] @ p @ [SP] @ v @ CRLF @ r \<and> (m = ''GET'' \<or> m = ''POST'') \<and>
        p \<noteq> [] \<and> SP \<notin> set p \<and> validate_http_version v)"
proof
  assume "is_valid (parse_request_line trim buf)"
  then show "\<exists>m p v r. c_str buf = m @ [SP] @ p @ [SP] @ v @ CRLF @ r \<and> (m = ''GET'' \<or> m = ''POST'') \<and>
        p \<noteq> [] \<and> SP \<notin> set p \<and> validate_http_version v"
    using parse_request_line_validD by (simp add: is_valid_def)
next
  assume "\<exists>m p v r. c_str buf = m @ [SP] @ p @ [SP] @ v @ CRLF @ r \<and> (m = ''GET'' \<or> m = ''POST'') \<and>
        p \<noteq> [] \<and> SP \<notin> set p \<and> validate_http_version v"
  then obtain m p v r where "c_str buf = m @ SP # p @ SP # v @ CRLF @ r" "m = ''GET'' \<or> m = ''POST''"
    "p \<noteq> []" "SP \<notin> set p" "validate_http_version v" by auto
  from parse_request_line_ok [OF this] show "is_valid (parse_request_line trim buf)"
    by (simp add: is_valid_def split: prod.splits)
qed

text \<open>The bytes a client sends for a request.\<close>

definition serialize_request :: "string \<Rightarrow> string \<Rightarrow> string \<Rightarrow> (string \<times> string) list \<Rightarrow> string \<Rightarrow> string" where
  "serialize_request m p v hs b =
     m @ [SP] @ p @ [SP] @ v @ CRLF @ concat (map header_line hs) @ CRLF @ b"

lemma serialize_body: "serialize_request m p v hs b = serialize_request m p v hs [] @ b"
  by (simp add: serialize_request_def)

lemma parse_serialized:
  assumes "trims trim"
    and "m = ''GET'' \<or> m = ''POST''" and "p \<noteq> []" and "SP \<notin> set p" and "validate_http_version v"
    and "list_all field_ok hs" and "distinct (map fst hs)" and "\<forall>h \<in> set hs. no_outer_space (snd h)"
    and "NUL \<notin> set (serialize_request m p v hs b)"
  shows "parse_request_line trim (serialize_request m p v hs b) =
    \<lparr>meth = m, path = p, http_version = v, headers = hs, body = b, valid = True,
     original_request = serialize_request m p v hs b\<rparr>"
proof -
  let ?s = "serialize_request m p v hs b"
  have "c_str ?s = m @ SP # p @ SP # v @ CRLF @ (concat (map header_line hs) @ CRLF @ b)"
    using assms(9) by (simp add: serialize_request_def)
  from parse_request_line_ok [OF this assms(2-5)]
  have "parse_request_line trim ?s =
    (case read_headers trim [] (concat (map header_line hs) @ CRLF @ b) of (hs, bod) \<Rightarrow>
       \<lparr>meth = m, path = p, http_version = v, headers = hs, body = bod, valid = True,
        original_request = c_str ?s\<rparr>)" by simp
  also have "read_headers trim [] (concat (map header_line hs) @ CRLF @ b) = (hs, b)"
    using read_headers_lines [OF assms(6), of "[]" trim b] assms(1,7,8) by (simp add: trims_field)
  finally show ?thesis using assms(9) by simp
qed

text \<open>
  C11: Reading a serialised request gives every part back: method, path, version, headers and body,
  and the original bytes. Header names carry no colon, neither names nor values a carriage return,
  and values no outer white space.
\<close>

theorem request_roundtrip:
  assumes "trims trim"
    and "m = ''GET'' \<or> m = ''POST''" and "p \<noteq> []" and "SP \<notin> set p" and "validate_http_version v"
    and "list_all field_ok hs" and "distinct (map fst hs)" and "\<forall>h \<in> set hs. no_outer_space (snd h)"
    and "NUL \<notin> set (serialize_request m p v hs b)"
  shows "parse_request_line trim (serialize_request m p v hs b) =
    \<lparr>meth = m, path = p, http_version = v, headers = hs, body = b, valid = True,
     original_request = serialize_request m p v hs b\<rparr>"
  using assms by (rule parse_serialized)

theorem request_roundtrip_witness:
  "parse_request_line strip
     (serialize_request ''POST'' ''/meme/create'' ''HTTP/1.1'' [(''Host'', ''a'')] ''image=x'') =
   \<lparr>meth = ''POST'', path = ''/meme/create'', http_version = ''HTTP/1.1'',
    headers = [(''Host'', ''a'')], body = ''image=x'', valid = True,
    original_request = serialize_request ''POST'' ''/meme/create'' ''HTTP/1.1'' [(''Host'', ''a'')] ''image=x''\<rparr>"
proof -
  have "validate_http_version ''HTTP/1.1''"
    by (simp add: validate_http_version_def str_at_def isdigit_def)
  then show ?thesis
    by (intro request_roundtrip)
      (simp_all add: trims_strip field_ok_def no_outer_space_def isspace_def serialize_request_def
        header_line_def CRLF_def)
qed

text \<open>
  C12: A serialised reply can be read back with the loops the server reads requests with, in any
  iteration order of the header map: the first line end closes the status line, the header loop
  returns exactly the reply's headers, and what is left is exactly the content, whose length is
  the value of \<open>Content-Length\<close>.
\<close>

theorem reply_roundtrip:
  assumes "reply_ok req r" and "enumerates enum" and "trims trim"
    and "CR \<notin> set (http_version req)"
  shows "(\<exists>rest. read_version [] (construct_http_response enum r) =
      (True, http_version req @ [SP] @ to_string (code r) @ [SP] @ code_to_message (code r), rest) \<and>
      read_headers trim [] rest = (enum (reply_headers r), content r)) \<and>
    map_of (enum (reply_headers r)) ''Content-Length'' = Some (nat_to_string (length (content r)))"
  by (rule reply_readable [OF assms])

theorem reply_roundtrip_witness:
  "\<exists>rest. read_version [] (construct_http_response rev (make_reply ''HTTP/1.1'' 200 ''text/plain'' ''OK'')) =
      (True, ''HTTP/1.1'' @ [SP] @ to_string 200 @ [SP] @ code_to_message 200, rest) \<and>
    read_headers strip [] rest = (rev (make_headers ''text/plain'' ''OK''), ''OK'')"
  using reply_roundtrip [of default_request "make_reply ''HTTP/1.1'' 200 ''text/plain'' ''OK''" rev strip]
    reply_ok_make [of 200 "''text/plain''" default_request "''OK''"]
  by (simp add: default_request_def enumerates_rev trims_strip known_mime_types_def)

end
