(* ===== verification/Handler.thy ===== *)
theory Handler
  imports Config_Params Request_Parser
begin

text \<open>
  \<^verbatim>\<open>include/handler.h\<close> (the interface every request handler implements), the services outside
  the repository that handlers call, and the three handlers without state of their own:
  \<^verbatim>\<open>echo_handler.cc\<close>, \<^verbatim>\<open>health_handler.cc\<close> and \<^verbatim>\<open>bad_request_handler.cc\<close>.
\<close>

section \<open>Services outside the repository\<close>

text \<open>
  Boost, libcurl, SQLite and the file system are parameters, collected in one record that the
  definitions take as an argument:
  \<^item> \<open>boost_trim\<close>, \<open>boost_replace_all\<close>: \<open>boost::trim\<close>, \<open>boost::replace_all(text, from, to)\<close>;
  \<^item> \<open>enum_headers\<close>: the iteration order of \<open>std::unordered_map\<close>;
  \<^item> \<open>is_regular_file\<close>, \<open>has_extension\<close>, \<open>extension\<close>: \<open>boost::filesystem\<close> on a path;
  \<^item> \<open>read_file\<close>: the content of the file a \<open>std::ifstream\<close> opens, \<open>None\<close> when it is not good;
  \<^item> \<open>curl_unescape\<close>: \<open>curl_easy_unescape\<close>, \<open>None\<close> for the null pointer it returns on failure;
  \<^item> \<open>curl_perform\<close>: one transfer with the URL set by \<open>curl_easy_setopt\<close> (\<open>None\<close> is a null
    pointer), in a network state;
  \<^item> \<open>sqlite3_exec\<close>: the new database, the rows handed to the callback one by one (column names
    with values, \<open>None\<close> for an SQL null) and the error message. The callbacks always return 0,
    so that every row of the result reaches them.
\<close>

record curl_response =
  response_chunks :: "string list"
  response_code :: int
  redirect_url :: "string option"

type_synonym sql_row = "(string \<times> string option) list"

record ('db, 'net) env =
  boost_trim :: "string \<Rightarrow> string"
  boost_replace_all :: "string \<Rightarrow> string \<Rightarrow> string \<Rightarrow> string"
  enum_headers :: "header_map \<Rightarrow> (string \<times> string) list"
  is_regular_file :: "string \<Rightarrow> bool"
  has_extension :: "string \<Rightarrow> bool"
  extension :: "string \<Rightarrow> string"
  read_file :: "string \<Rightarrow> string option"
  curl_unescape :: "string \<Rightarrow> string option"
  curl_perform :: "'net \<Rightarrow> string option \<Rightarrow> 'net \<times> curl_response"
  sqlite3_exec :: "'db \<Rightarrow> string \<Rightarrow> 'db \<times> sql_row list \<times> string option"

section \<open>The interface\<close>

text \<open>
  What \<open>session::handle_read\<close> relies on when it calls \<open>HandleRequest\<close>: a reply that comes back
  is well-formed for the request. From this alone, the response that is sent can be read back.
\<close>

locale request_handler =
  fixes handle :: "'w \<Rightarrow> request \<Rightarrow> ('w \<times> reply) outcome"
  assumes handle_reply_ok: "handle w req = Returns (w', r) \<Longrightarrow> reply_ok req r"
begin

lemma handle_code: "handle w req = Returns (w', r) \<Longrightarrow> code r \<in> {200, 400, 404}"
  using handle_reply_ok unfolding reply_ok_def by blast

lemma handle_content_length:
  "handle w req = Returns (w', r) \<Longrightarrow> enumerates enum \<Longrightarrow>
     map_of (enum (reply_headers r)) ''Content-Length'' = Some (nat_to_string (length (content r)))"
  using handle_reply_ok enumerates_map_of unfolding reply_ok_def by metis

end

text \<open>A handler that always returns and leaves the state alone.\<close>

locale pure_handler = request_handler handle
  for handle :: "'w \<Rightarrow> request \<Rightarrow> ('w \<times> reply) outcome" +
  assumes handle_pure: "\<exists>r. handle w req = Returns (w, r)"
begin

lemma handle_state: "handle w req = Returns (w', r) \<Longrightarrow> w' = w"
  using handle_pure [of w req] by auto

lemma handle_no_fault: "handle w req \<noteq> Faults f \<and> handle w req \<noteq> Diverges"
  using handle_pure [of w req] by auto

end

section \<open>Handlers without state\<close>

definition echo_HandleRequest :: "request \<Rightarrow> reply" where
  "echo_HandleRequest req =
     make_reply (http_version req) 200 ''text/plain'' (original_request req)"

definition health_HandleRequest :: "request \<Rightarrow> reply" where
  "health_HandleRequest req = make_reply (http_version req) 200 ''text/plain'' ''OK''"

definition bad_request_HandleRequest :: "request \<Rightarrow> reply" where
  "bad_request_HandleRequest req =
     make_reply (http_version req) 404 ''text/plain'' ''404 Error: File Not Found''"

definition pure_reply :: "(request \<Rightarrow> reply) \<Rightarrow> 'w \<Rightarrow> request \<Rightarrow> ('w \<times> reply) outcome" where
  "pure_reply f w req = Returns (w, f req)"

interpretation echo: pure_handler "pure_reply echo_HandleRequest"
  by unfold_locales (auto simp: pure_reply_def echo_HandleRequest_def known_mime_types_def)

interpretation health: pure_handler "pure_reply health_HandleRequest"
  by unfold_locales (auto simp: pure_reply_def health_HandleRequest_def known_mime_types_def)

interpretation bad_request: pure_handler "pure_reply bad_request_HandleRequest"
  by unfold_locales (auto simp: pure_reply_def bad_request_HandleRequest_def known_mime_types_def)

end
