(* ===== verification/Static_Handler.thy ===== *)
theory Static_Handler
  imports Handler
begin

text \<open>
  \<^verbatim>\<open>include/static_handler.h\<close> and \<^verbatim>\<open>src/static_handler.cc\<close>: serving files below a directory.
  The condition that should select JPEG files lacks \<open>== 0\<close> after the second comparison; it is
  kept as it is.
\<close>

record static_handler =
  handler_root :: string
  location :: string

definition static_handler_create :: "NginxConfig \<Rightarrow> string \<Rightarrow> static_handler" where
  "static_handler_create config root_path =
     (let config_root = get_key_value config ''root''
      in \<lparr>handler_root =
            (if config_root = [] then root_path
             else if hd config_root = CHR ''/'' then config_root
             else root_path @ config_root),
          location = get_key_value config ''location''\<rparr>)"

definition static_mime_type :: "string \<Rightarrow> string" where
  "static_mime_type ext =
     (if ext = ''.txt'' then ''text/plain''
      else if ext = ''.html'' then ''text/html''
      else if ext = ''.jpeg'' \<or> ext \<noteq> ''.jpg'' then ''image/jpeg''
      else if ext = ''.png'' then ''image/png''
      else if ext = ''.zip'' then ''application/zip''
      else ''text/plain'')"

definition static_HandleRequest :: "('db, 'net) env \<Rightarrow> static_handler \<Rightarrow> request \<Rightarrow> reply" where
  "static_HandleRequest env h req =
     (let passed_double_check = (str_find (path req) (location h) = Some 0);
          request_path_without_location =
            (if passed_double_check then drop (length (location h)) (path req) else []);
          file = handler_root h @ request_path_without_location;
          ext = (if has_extension env file then extension env file else [])
      in case (if passed_double_check \<and> is_regular_file env file
               then read_file env (c_str file) else None) of
           Some buffer \<Rightarrow> make_reply (http_version req) 200 (static_mime_type ext) buffer
         | None \<Rightarrow> make_reply (http_version req) 404 ''text/plain'' ''404 Error: Page not found'')"

interpretation static: pure_handler "pure_reply (static_HandleRequest env h)" for env h
  by unfold_locales
    (auto simp: pure_reply_def static_HandleRequest_def static_mime_type_def known_mime_types_def Let_def
      split: option.splits)

section \<open>Properties\<close>

text \<open>
  The MIME type the static handler announces. Text and HTML files get theirs, but \<open>.jpg\<close>
  files are announced as plain text and files with any other extension, PNG and ZIP files and
  files without an extension included, as JPEG: the branches for PNG and ZIP are unreachable.
\<close>

theorem static_mime_type_spec:
  "static_mime_type ext =
     (if ext \<in> {''.txt'', ''.jpg''} then ''text/plain''
      else if ext = ''.html'' then ''text/html'' else ''image/jpeg'')"
  by (simp add: static_mime_type_def)


definition example_env :: "(unit, unit) env" where
  "example_env = \<lparr>boost_trim = strip, boost_replace_all = (\<lambda>s a b. s), enum_headers = rev,
     is_regular_file = (\<lambda>f. f = ''/srv/static/../../etc/passwd''), has_extension = (\<lambda>f. False),
     extension = (\<lambda>f. []),
     read_file = (\<lambda>f. if f = ''/srv/static/../../etc/passwd'' then Some ''root'' else None),
     curl_unescape = Some,
     curl_perform = (\<lambda>n u. (n, \<lparr>response_chunks = [], response_code = 0, redirect_url = None\<rparr>)),
     sqlite3_exec = (\<lambda>d s. (d, [], None))\<rparr>"


end
