(* ===== verification/Proxy_Handler.thy ===== *)
theory Proxy_Handler
  imports Handler
begin

text \<open>
  \<^verbatim>\<open>include/proxy_handler.h\<close> and \<^verbatim>\<open>src/proxy_handler.cc\<close>: forwarding a request with libcurl.
  The loop that follows redirects has no bound: it is a \<open>partial_function\<close>, whose value
  \<open>None\<close> means that \<open>HandleRequest\<close> never returns.
\<close>

record proxy_handler =
  location :: string
  host :: string

definition proxy_handler_create :: "NginxConfig \<Rightarrow> proxy_handler" where
  "proxy_handler_create config =
     \<lparr>location = get_key_value config ''location'', host = get_key_value config ''host''\<rparr>"

text \<open>libcurl hands the body over in chunks; each is appended. Running out of memory is not modelled.\<close>

definition curlCallback :: "string \<Rightarrow> string \<Rightarrow> string" where
  "curlCallback contents serverResponse = serverResponse @ contents"

definition getRequestURI :: "proxy_handler \<Rightarrow> request \<Rightarrow> string outcome" where
  "getRequestURI h fullRequest = str_substr (path fullRequest) (length (location h))"

definition getServerResponse ::
  "('db, 'net) env \<Rightarrow> 'net \<Rightarrow> string \<Rightarrow> string option \<Rightarrow> 'net \<times> string \<times> curl_response" where
  "getServerResponse env net serverResponse URL =
     (case curl_perform env net URL of (net', resp) \<Rightarrow>
        (net', fold curlCallback (response_chunks resp) serverResponse, resp))"

partial_function (option) follow_redirects ::
  "('db, 'net) env \<Rightarrow> 'net \<times> string \<times> curl_response \<Rightarrow> ('net \<times> string) option" where
  "follow_redirects env s =
     (case s of (net, serverResponse, resp) \<Rightarrow>
        if response_code resp = 301 \<or> response_code resp = 302
        then follow_redirects env (getServerResponse env net serverResponse (redirect_url resp))
        else Some (net, serverResponse))"

definition proxy_HandleRequest ::
  "('db, 'net) env \<Rightarrow> proxy_handler \<Rightarrow> 'net \<Rightarrow> request \<Rightarrow> ('net \<times> reply) outcome" where
  "proxy_HandleRequest env h net req =
     bind_outcome (getRequestURI h req) (\<lambda>uri.
       (case follow_redirects env (getServerResponse env net [] (Some (c_str (host h @ uri)))) of
          None \<Rightarrow> Diverges
        | Some (net', serverResponse) \<Rightarrow>
            Returns (net', make_reply (http_version req) 200 ''text/html'' serverResponse)))"

interpretation proxy: request_handler "proxy_HandleRequest env h" for env h
  by unfold_locales (auto simp: proxy_HandleRequest_def known_mime_types_def split: option.splits)

section \<open>Redirect chains\<close>

text \<open>The transfers made after the first one, as a bounded iteration.\<close>

definition redirected :: "'net \<times> string \<times> curl_response \<Rightarrow> bool" where
  "redirected s \<longleftrightarrow> response_code (snd (snd s)) = 301 \<or> response_code (snd (snd s)) = 302"

definition next_transfer ::
  "('db, 'net) env \<Rightarrow> 'net \<times> string \<times> curl_response \<Rightarrow> 'net \<times> string \<times> curl_response" where
  "next_transfer env s = getServerResponse env (fst s) (fst (snd s)) (redirect_url (snd (snd s)))"

lemma follow_step:
  "follow_redirects env s =
     (if redirected s then follow_redirects env (next_transfer env s) else Some (fst s, fst (snd s)))"
  by (subst follow_redirects.simps)
    (auto simp: redirected_def next_transfer_def split: prod.splits)

lemma follow_ends:
  assumes "\<not> redirected ((next_transfer env ^^ n) s)" and "\<forall>k < n. redirected ((next_transfer env ^^ k) s)"
  shows "follow_redirects env s =
    Some (fst ((next_transfer env ^^ n) s), fst (snd ((next_transfer env ^^ n) s)))"
  using assms
proof (induction n arbitrary: s)
  case 0
  then show ?case by (simp add: follow_step [of env s])
next
  case (Suc n)
  have "redirected s" using Suc.prems(2) by force
  moreover have "follow_redirects env (next_transfer env s) =
      Some (fst ((next_transfer env ^^ n) (next_transfer env s)),
            fst (snd ((next_transfer env ^^ n) (next_transfer env s))))"
  proof (rule Suc.IH)
    show "\<not> redirected ((next_transfer env ^^ n) (next_transfer env s))"
      using Suc.prems(1) by (simp add: funpow_swap1)
    show "\<forall>k<n. redirected ((next_transfer env ^^ k) (next_transfer env s))"
    proof (intro allI impI)
      fix k assume "k < n"
      then have "redirected ((next_transfer env ^^ Suc k) s)" using Suc.prems(2) by blast
      then show "redirected ((next_transfer env ^^ k) (next_transfer env s))"
        by (simp add: funpow_swap1)
    qed
  qed
  ultimately show ?case by (simp add: follow_step [of env s] funpow_swap1)
qed

lemma follow_Some_ends:
  assumes "follow_redirects env s = Some r"
  shows "\<exists>n. \<not> redirected ((next_transfer env ^^ n) s)"
  using assms
proof (induction env s r rule: follow_redirects.raw_induct [rotated 1, consumes 1, case_names step])
  case (step f env s r)
  show ?case
  proof (cases "redirected s")
    case True
    with step(2) have "f env (next_transfer env s) = Some r"
      by (auto simp: redirected_def next_transfer_def split: prod.splits)
    from step(1) [OF this] obtain n where "\<not> redirected ((next_transfer env ^^ n) (next_transfer env s))" ..
    then have "\<not> redirected ((next_transfer env ^^ Suc n) s)" by (simp add: funpow_swap1)
    then show ?thesis by blast
  next
    case False
    then have "\<not> redirected ((next_transfer env ^^ 0) s)" by simp
    then show ?thesis by blast
  qed
qed

text \<open>The bodies of all transfers of a chain are concatenated.\<close>

definition body_of :: "curl_response \<Rightarrow> string" where
  "body_of resp = concat (response_chunks resp)"

lemma fold_curlCallback: "fold curlCallback cs s = s @ concat cs"
  by (induction cs arbitrary: s) (simp_all add: curlCallback_def)

lemma next_transfer_body:
  "fst (snd (next_transfer env s)) = fst (snd s) @ body_of (snd (snd (next_transfer env s)))"
  by (simp add: next_transfer_def getServerResponse_def body_of_def fold_curlCallback split: prod.splits)

lemma chain_body:
  "fst (snd ((next_transfer env ^^ n) s)) =
     fst (snd s) @ concat (map (\<lambda>k. body_of (snd (snd ((next_transfer env ^^ Suc k) s)))) [0..<n])"
proof (induction n)
  case (Suc n)
  then show ?case using next_transfer_body [of env "(next_transfer env ^^ n) s"] by simp
qed simp

section \<open>Properties\<close>

abbreviation first_transfer ::
  "('db, 'net) env \<Rightarrow> proxy_handler \<Rightarrow> 'net \<Rightarrow> string \<Rightarrow> 'net \<times> string \<times> curl_response" where
  "first_transfer env h net uri \<equiv> getServerResponse env net [] (Some (c_str (host h @ uri)))"

text \<open>
  C31: When the chain of redirects ends after \<open>n\<close> further transfers, the proxy returns; its reply
  has code 200 whatever the upstream server answered, and its content is the concatenation of
  the bodies of all transfers, those of the redirecting answers included.
\<close>

theorem proxy_returns_all_bodies:
  assumes "path req = location h @ uri"
    and "\<not> redirected ((next_transfer env ^^ n) (first_transfer env h net uri))"
    and "\<forall>k < n. redirected ((next_transfer env ^^ k) (first_transfer env h net uri))"
  shows "\<exists>net'. proxy_HandleRequest env h net req =
    Returns (net', make_reply (http_version req) 200 ''text/html''
      (concat (map (\<lambda>k. body_of (snd (snd ((next_transfer env ^^ k) (first_transfer env h net uri))))) [0..<Suc n])))"
proof -
  let ?s = "first_transfer env h net uri"
  have uri: "getRequestURI h req = Returns uri"
    using assms(1) by (simp add: getRequestURI_def str_substr_def)
  have "fst (snd ?s) = body_of (snd (snd ?s))"
    by (simp add: getServerResponse_def body_of_def fold_curlCallback split: prod.splits)
  moreover have "[0..<Suc n] = 0 # map Suc [0..<n]" by (simp add: map_Suc_upt upt_conv_Cons)
  ultimately have "fst (snd ((next_transfer env ^^ n) ?s)) =
      concat (map (\<lambda>k. body_of (snd (snd ((next_transfer env ^^ k) ?s)))) [0..<Suc n])"
    using chain_body [of n env ?s] by (simp add: o_def del: upt_Suc)
  with follow_ends [OF assms(2,3)] uri show ?thesis by (simp add: proxy_HandleRequest_def del: upt_Suc)
qed

definition redirecting_env :: "(unit, unit) env" where
  "redirecting_env = \<lparr>boost_trim = strip, boost_replace_all = (\<lambda>s a b. s), enum_headers = rev,
     is_regular_file = (\<lambda>f. False), has_extension = (\<lambda>f. False), extension = (\<lambda>f. []),
     read_file = (\<lambda>f. None), curl_unescape = Some,
     curl_perform = (\<lambda>n u. (n, if u = Some ''http://b/''
       then \<lparr>response_chunks = [''Not '', ''here''], response_code = 404, redirect_url = None\<rparr>
       else \<lparr>response_chunks = [''Moved. ''], response_code = 301, redirect_url = Some ''http://b/''\<rparr>)),
     sqlite3_exec = (\<lambda>d s. (d, [], None))\<rparr>"

theorem proxy_returns_all_bodies_witness:
  "\<exists>net'. proxy_HandleRequest redirecting_env \<lparr>location = ''/p'', host = ''http://a''\<rparr> ()
      (default_request\<lparr>path := ''/p/''\<rparr>) =
    Returns (net', make_reply ''HTTP/1.1'' 200 ''text/html'' ''Moved. Not here'')"
  using proxy_returns_all_bodies [of "default_request\<lparr>path := ''/p/''\<rparr>"
      "\<lparr>location = ''/p'', host = ''http://a''\<rparr>" "''/''" 1 redirecting_env "()"]
  by (simp add: redirecting_env_def redirected_def next_transfer_def getServerResponse_def c_str_def
      default_request_def body_of_def)

lemma follow_diverges_iff:
  "follow_redirects env s = None \<longleftrightarrow> (\<forall>n. redirected ((next_transfer env ^^ n) s))"
proof
  assume none: "follow_redirects env s = None"
  show "\<forall>n. redirected ((next_transfer env ^^ n) s)"
  proof (rule ccontr)
    assume "\<not> (\<forall>n. redirected ((next_transfer env ^^ n) s))"
    then obtain n where "\<not> redirected ((next_transfer env ^^ n) s)"
      and "\<forall>k < n. redirected ((next_transfer env ^^ k) s)"
      using exists_least_iff [of "\<lambda>n. \<not> redirected ((next_transfer env ^^ n) s)"] by blast
    from follow_ends [OF this] none show False by simp
  qed
next
  assume "\<forall>n. redirected ((next_transfer env ^^ n) s)"
  then show "follow_redirects env s = None"
    using follow_Some_ends [of env s] by (cases "follow_redirects env s") auto
qed

lemma proxy_diverges:
  "path req = location h @ uri \<Longrightarrow> proxy_HandleRequest env h net req = Diverges \<longleftrightarrow>
     follow_redirects env (first_transfer env h net uri) = None"
  by (simp add: proxy_HandleRequest_def getRequestURI_def str_substr_def split: option.splits)


end
