(* ===== verification/Status_Handler.thy ===== *)
theory Status_Handler
  imports Handler
begin

text \<open>
  \<^verbatim>\<open>include/status_handler.h\<close> and \<^verbatim>\<open>src/status_handler.cc\<close>: the page with the server's counters.

  The handler holds raw pointers into the handler manager, which the constructor leaves
  uninitialised. A pointer is modelled by what it points to: a selector on the object of type
  \<open>'m\<close> whose field it addresses, or \<open>None\<close> before the setter has run. The map of handlers does
  not change once the server has been constructed, so that pointer is the map itself. The
  counters are \<^typ>\<open>int\<close>: 2 to the 31 requests are not modelled.
\<close>

record 'm status_handler =
  url_counter_ptr :: "('m \<Rightarrow> (string, int) stdmap) option"
  code_counter_ptr :: "('m \<Rightarrow> (int, int) stdmap) option"
  paths_map_ptr :: "handler_map option"

definition status_handler_create :: "NginxConfig \<Rightarrow> string \<Rightarrow> 'm status_handler" where
  "status_handler_create config root_path =
     \<lparr>url_counter_ptr = None, code_counter_ptr = None, paths_map_ptr = None\<rparr>"

definition setUrlMap :: "('m \<Rightarrow> (string, int) stdmap) \<Rightarrow> 'm status_handler \<Rightarrow> 'm status_handler" where
  "setUrlMap p h = h\<lparr>url_counter_ptr := Some p\<rparr>"

definition setCodeMap :: "('m \<Rightarrow> (int, int) stdmap) \<Rightarrow> 'm status_handler \<Rightarrow> 'm status_handler" where
  "setCodeMap p h = h\<lparr>code_counter_ptr := Some p\<rparr>"

definition setPathsMap :: "handler_map option \<Rightarrow> 'm status_handler \<Rightarrow> 'm status_handler" where
  "setPathsMap p h = h\<lparr>paths_map_ptr := p\<rparr>"

definition status_url_line :: "string \<times> int \<Rightarrow> string" where
  "status_url_line e = ''Number of requests received for '' @ fst e @ '': '' @ to_string (snd e) @ [LF]"

definition status_code_line :: "int \<times> int \<Rightarrow> string" where
  "status_code_line e = ''Number of '' @ to_string (fst e) @ '' responses sent: '' @ to_string (snd e) @ [LF]"

definition status_path_line :: "string \<times> string \<times> NginxConfig \<Rightarrow> string" where
  "status_path_line e = ''A '' @ fst (snd e) @ '' request handler exists for the path: '' @ fst e @ [LF]"

definition status_content :: "(string, int) stdmap \<Rightarrow> (int, int) stdmap \<Rightarrow> handler_map \<Rightarrow> string" where
  "status_content urls codes paths =
     (let request_counter = fold (\<lambda>e n. n + snd e) urls 0
      in ''Total Number of Requests Received: '' @ to_string request_counter @ [LF, LF] @
         concat (map status_url_line urls) @ [LF] @
         concat (map status_code_line codes) @ [LF] @
         concat (map status_path_line paths))"

definition status_HandleRequest :: "'m status_handler \<Rightarrow> 'm \<Rightarrow> request \<Rightarrow> ('m \<times> reply) outcome" where
  "status_HandleRequest h m req =
     (case (url_counter_ptr h, code_counter_ptr h, paths_map_ptr h) of
        (Some urls, Some codes, Some paths) \<Rightarrow>
          Returns (m, make_reply (http_version req) 200 ''text/plain''
            (status_content (urls m) (codes m) paths))
      | _ \<Rightarrow> Faults NullPointer)"

interpretation status: request_handler "status_HandleRequest h" for h
  by unfold_locales (auto simp: status_HandleRequest_def known_mime_types_def split: option.splits)

lemma request_counter_total: "fold (\<lambda>e n. n + snd e) urls k = k + total_count urls"
  by (induction urls arbitrary: k) (simp_all add: total_count_def)

lemma status_content_total:
  "\<exists>rest. status_content urls codes paths =
     ''Total Number of Requests Received: '' @ to_string (total_count urls) @ [LF] @ rest"
  by (simp add: status_content_def request_counter_total)

text \<open>Every entry of the three maps has its line.\<close>

lemma status_content_lines:
  "e \<in> set urls \<Longrightarrow> sublist (status_url_line e) (status_content urls codes paths)"
  "c \<in> set codes \<Longrightarrow> sublist (status_code_line c) (status_content urls codes paths)"
  "p \<in> set paths \<Longrightarrow> sublist (status_path_line p) (status_content urls codes paths)"
  unfolding status_content_def Let_def
  by (meson sublist_embed sublist_concat_map)+

section \<open>Properties\<close>

text \<open>
  The status page starts with the total number of requests, which is the sum of the
  per-path counters, and has a line for every path counted, for every response code counted
  and for every configured handler. A handler whose three pointers have been set always answers.
\<close>

theorem status_page_complete:
  assumes "url_counter_ptr h = Some urls" and "code_counter_ptr h = Some codes"
    and "paths_map_ptr h = Some paths"
  shows "\<exists>r. status_HandleRequest h m req = Returns (m, r) \<and> code r = 200 \<and>
    prefix (''Total Number of Requests Received: '' @ to_string (total_count (urls m)) @ [LF]) (content r) \<and>
    (\<forall>e \<in> set (urls m). sublist (status_url_line e) (content r)) \<and>
    (\<forall>e \<in> set (codes m). sublist (status_code_line e) (content r)) \<and>
    (\<forall>e \<in> set paths. sublist (status_path_line e) (content r))"
  using assms status_content_total [of "urls m" "codes m" paths]
  by (auto simp: status_HandleRequest_def status_content_lines)

theorem status_page_complete_witness:
  "\<exists>r. status_HandleRequest
      (setPathsMap (Some []) (setCodeMap snd (setUrlMap fst
        (status_handler_create (NginxConfig []) ''/''))))
      ([(''/a'', 1), (''/b'', 2)], [(200, 3)]) default_request = Returns (([(''/a'', 1), (''/b'', 2)], [(200, 3)]), r) \<and>
    prefix (''Total Number of Requests Received: 3'' @ [LF]) (content r)"
  using status_page_complete [of "setPathsMap (Some []) (setCodeMap snd (setUrlMap fst
        (status_handler_create (NginxConfig []) ''/'')))" fst snd "[]"
      "([(''/a'', 1), (''/b'', 2)], [(200, 3)])" default_request]
  by (force simp: setPathsMap_def setCodeMap_def setUrlMap_def status_handler_create_def
      total_count_def to_string_def nat_to_string.simps digit_char_def)

end
