(* ===== verification/Meme_Handler.thy ===== *)
theory Meme_Handler
  imports Handler
begin

text \<open>
  \<^verbatim>\<open>include/meme_handler.h\<close> and \<^verbatim>\<open>src/meme_handler.cc\<close>: creating, editing, viewing, listing and
  deleting memes, which are rows of an SQLite table.

  The SQL texts and the pages are spelled out as the source has them; an end of line escaped
  in a C++ literal disappears and the indentation after it stays. \<open>meme_count\<close>, a static
  member, and the database are the state. The mutex \<open>id_lock\<close> makes every access to them one
  atomic step. The input buffers have \<open>sizeof(std::string)\<close> bytes, 32 with libstdc++ on 64-bit
  platforms.
\<close>

section \<open>Formatted input\<close>

text \<open>
  \<open>sscanf\<close> on the formats the source builds, with the number of arguments that are still to be
  assigned: white space in the format skips white space, \<open>%%\<close> reads a percent sign, \<open>%[^&]\<close>
  reads the non-empty run up to the next ampersand into a buffer, any other byte must be read
  as it is. Reading stops at the first mismatch. The location and the view path of the configuration
  are part of some formats; if they contain another conversion, or \<open>%[^&]\<close> once more than there
  are arguments, the model reports \<open>BadFormat\<close>.
\<close>

definition sizeof_string :: nat where
  "sizeof_string = 32"

definition scan_buffer :: "string \<Rightarrow> string outcome" where
  "scan_buffer field =
     (if length field < sizeof_string then Returns field else Faults BufferOverflow)"

function (sequential) sscanf :: "nat \<Rightarrow> string \<Rightarrow> string \<Rightarrow> string list outcome" where
  "sscanf n [] s = Returns []"
| "sscanf n (c # fmt) s =
     (if isspace c then sscanf n fmt (dropWhile isspace s)
      else if c \<noteq> CHR ''%'' then
        (case s of
           [] \<Rightarrow> Returns []
         | x # s' \<Rightarrow> if x = c then sscanf n fmt s' else Returns [])
      else if prefix ''%'' fmt then
        (case dropWhile isspace s of
           [] \<Rightarrow> Returns []
         | x # s' \<Rightarrow> if x = CHR ''%'' then sscanf n (drop 1 fmt) s' else Returns [])
      else if prefix ''[^&]'' fmt \<and> n \<noteq> 0 then
        (let field = takeWhile (\<lambda>x. x \<noteq> CHR ''&'') s
         in if field = [] then Returns []
            else bind_outcome (scan_buffer field) (\<lambda>f.
              bind_outcome (sscanf (n - 1) (drop 4 fmt) (drop (length field) s)) (\<lambda>fs.
                Returns (f # fs))))
      else Faults BadFormat)"
  by pat_completeness auto

termination sscanf
  by (relation "measure (\<lambda>(n, fmt, s). length fmt)") auto

definition scanned :: "string list \<Rightarrow> nat \<Rightarrow> string" where
  "scanned vals i = (if i < length vals then vals ! i else [])"

text \<open>A form field is decoded: plus signs are spaces, then \<open>curl_easy_unescape\<close>.\<close>

definition plus_to_space :: "string \<Rightarrow> string" where
  "plus_to_space s = map (\<lambda>c. if c = CHR ''+'' then CHR '' '' else c) s"

definition decode_field :: "('db, 'net) env \<Rightarrow> string \<Rightarrow> string outcome" where
  "decode_field env s =
     (case curl_unescape env (plus_to_space s) of
        None \<Rightarrow> Faults NullString
      | Some t \<Rightarrow> Returns (c_str t))"

section \<open>SQL texts and pages\<close>

definition select_sql :: "string \<Rightarrow> string" where
  "select_sql meme_id =
     ''SELECT TEMPLATE, TOP, BOTTOM from MEMES where ID='' @ [SQUOTE] @ meme_id @ [SQUOTE] @ '';''"

definition insert_sql :: "string \<Rightarrow> string \<Rightarrow> string \<Rightarrow> string \<Rightarrow> string" where
  "insert_sql unique_id pic_file_s top_text_s bot_text_s =
     ''INSERT INTO MEMES VALUES ('' @ unique_id @ '', '' @ [SQUOTE] @ pic_file_s @ [SQUOTE] @
     '', '' @ [SQUOTE] @ top_text_s @ [SQUOTE] @ '', '' @ [SQUOTE] @ bot_text_s @ [SQUOTE] @ '');''"

definition update_sql :: "string \<Rightarrow> string \<Rightarrow> string \<Rightarrow> string \<Rightarrow> string" where
  "update_sql unique_id pic_file_s top_text_s bot_text_s =
     ''UPDATE MEMES '' @
     ''                           SET TEMPLATE = '' @ [SQUOTE] @ pic_file_s @ [SQUOTE] @
     '', TOP = '' @ [SQUOTE] @ top_text_s @ [SQUOTE] @
     '', BOTTOM = '' @ [SQUOTE] @ bot_text_s @ [SQUOTE] @
     ''                           WHERE ID = '' @ unique_id @ '';''"

definition list_sql :: "string \<Rightarrow> string" where
  "list_sql search_query_s =
     ''SELECT TEMPLATE, TOP, BOTTOM, ID FROM MEMES'' @
     (if search_query_s = [] then '';''
      else '' WHERE TOP LIKE '' @ [SQUOTE] @ ''%'' @ search_query_s @ ''%'' @ [SQUOTE] @
           '' OR BOTTOM LIKE '' @ [SQUOTE] @ ''%'' @ search_query_s @ ''%'' @ [SQUOTE] @ '';'')"

definition delete_sql :: "string \<Rightarrow> string" where
  "delete_sql meme_id = ''DELETE FROM MEMES WHERE ID='' @ [SQUOTE] @ meme_id @ [SQUOTE] @ '';''"

definition not_found_page :: "string \<Rightarrow> string" where
  "not_found_page meme_id = ''<header>Meme '' @ meme_id @ '' not found :(</header>''"

definition back_links :: string where
  \<open>back_links =
     ''<br><a href="/meme/new">Click here to create another meme</a>'' @
     ''<br><a href="/meme/list">Click here to look at all the memes</a>''\<close>

definition generated_page :: "string \<Rightarrow> string" where
  \<open>generated_page unique_id =
     ''<header>Meme '' @ unique_id @ '' Generated!</header><a href="/meme/view?id='' @ unique_id @
     ''">Click here to see your meme</a>'' @ back_links\<close>

definition updated_page :: "string \<Rightarrow> string" where
  \<open>updated_page unique_id =
     ''<header>Meme '' @ unique_id @ '' Updated!</header><a href="/meme/view?id='' @ unique_id @
     ''">Click here to see your meme</a>'' @ back_links\<close>

definition create_failed_page :: string where
  "create_failed_page = ''<header>Couldn't create meme :( Try again later</header>''"

definition deleted_page :: "string \<Rightarrow> string" where
  "deleted_page meme_id = ''<div>Meme with id '' @ meme_id @ '' has been deleted </div>'' @ back_links"

definition delete_failed_page :: "string \<Rightarrow> string" where
  "delete_failed_page meme_id = ''<header>No Meme with id = '' @ meme_id @ ''found :(</header>''"

definition view_style :: string where
  "view_style =
     ''<style> '' @
     ''            body{position: relative; background-color: #283747;} '' @
     ''            .container{position: relative; width: 100%;          '' @
     ''                display:flex;justify-content:center;align-items:center; '' @
     ''                flex-direction: row; position: relative; '' @
     ''                color: white; font: 2em bold Impact, sans-serif; '' @
     ''                text-align:center; font-weight: bold; '' @
     ''            } '' @
     ''            #top{top:3%; left: 50%; transform: translate(-50%); position:absolute;} '' @
     ''            #bottom{bottom:3%; left: 50%; transform: translate(-50%); position:absolute} '' @
     ''            a{left: 50%; transform: translate(-50%); position:absolute; '' @
     ''font: 2em bold Impact, sans-serif;} '' @
     ''        </style> ''"

definition view_page :: "string \<Rightarrow> string \<Rightarrow> string \<Rightarrow> string \<Rightarrow> string" where
  \<open>view_page temp top_text bottom_text meme_id_s =
     view_style @
     ''        <body> '' @
     ''            <div class="container"> '' @
     ''                <img src="/static/'' @ temp @ ''"> '' @
     ''                <div id="top">'' @ top_text @ ''</div> '' @
     ''                <div id="bottom">'' @ bottom_text @ ''</div> '' @
     ''            </div> '' @
     ''            <br><a href="/meme/edit?update='' @ meme_id_s @ ''">Edit This Meme</a> '' @
     ''            <br><a href="/meme/delete?id='' @ meme_id_s @
     ''" onclick="return confirm('Are you sure?')">Delete This Meme</a> '' @
     ''        </body>''\<close>

definition list_head :: string where
  \<open>list_head =
     ''<h1>List of All Memes</h1> '' @
     ''        <form meth'' @ ''od="get"> '' @
     ''            <input type="text" name="query" > '' @
     ''            <input type="submit" value="Search"> '' @
     ''        </form> '' @
     ''    '' @ ''<ul>''\<close>

section \<open>Rows\<close>

record meme_row =
  meme_temp :: string
  meme_top :: string
  meme_bottom :: string
  meme_row_id :: string
  data_found :: bool

definition empty_row :: meme_row where
  "empty_row = \<lparr>meme_temp = [], meme_top = [], meme_bottom = [], meme_row_id = [], data_found = False\<rparr>"

text \<open>
  The loop of \<open>view_callback\<close> over the columns, with its flag \<open>foundData\<close>; a null value makes the
  \<open>std::string\<close> constructor throw.
\<close>

fun view_columns :: "sql_row \<Rightarrow> meme_row \<Rightarrow> bool \<Rightarrow> (meme_row \<times> bool) outcome" where
  "view_columns [] mrp found = Returns (mrp, found)"
| "view_columns ((column, None) # cs) mrp found = Faults NullString"
| "view_columns ((column, Some val) # cs) mrp found =
     (if column = ''TEMPLATE'' then view_columns cs (mrp\<lparr>meme_temp := val\<rparr>) True
      else if column = ''TOP'' then view_columns cs (mrp\<lparr>meme_top := val\<rparr>) True
      else if column = ''BOTTOM'' then view_columns cs (mrp\<lparr>meme_bottom := val\<rparr>) True
      else view_columns cs mrp found)"

definition view_callback :: "sql_row \<Rightarrow> meme_row \<Rightarrow> meme_row outcome" where
  "view_callback row mrp =
     bind_outcome (view_columns row mrp False) (\<lambda>(mrp', found). Returns (mrp'\<lparr>data_found := found\<rparr>))"

fun view_rows :: "sql_row list \<Rightarrow> meme_row \<Rightarrow> meme_row outcome" where
  "view_rows [] mrp = Returns mrp"
| "view_rows (row # rows) mrp = bind_outcome (view_callback row mrp) (view_rows rows)"

fun list_columns :: "sql_row \<Rightarrow> meme_row \<Rightarrow> bool \<Rightarrow> (meme_row \<times> bool) outcome" where
  "list_columns [] mrp found = Returns (mrp, found)"
| "list_columns ((column, None) # cs) mrp found = Faults NullString"
| "list_columns ((column, Some val) # cs) mrp found =
     (if column = ''ID'' then list_columns cs (mrp\<lparr>meme_row_id := val\<rparr>) True
      else if column = ''TEMPLATE'' then list_columns cs (mrp\<lparr>meme_temp := val\<rparr>) True
      else if column = ''TOP'' then list_columns cs (mrp\<lparr>meme_top := val\<rparr>) True
      else if column = ''BOTTOM'' then list_columns cs (mrp\<lparr>meme_bottom := val\<rparr>) True
      else list_columns cs mrp found)"

definition list_callback :: "sql_row \<Rightarrow> meme_row list \<Rightarrow> meme_row list outcome" where
  "list_callback row meme_rows =
     bind_outcome (list_columns row empty_row False) (\<lambda>(mrp, found).
       Returns (meme_rows @ [mrp\<lparr>data_found := found\<rparr>]))"

fun list_rows :: "sql_row list \<Rightarrow> meme_row list \<Rightarrow> meme_row list outcome" where
  "list_rows [] acc = Returns acc"
| "list_rows (row # rows) acc = bind_outcome (list_callback row acc) (list_rows rows)"

definition list_item :: "meme_row \<Rightarrow> string" where
  "list_item r = ''<li><a href=/meme/view?id='' @ meme_row_id r @ ''>'' @ meme_row_id r @
     '' top: '' @ meme_top r @ '' bot: '' @ meme_bottom r @ ''</a></li>''"

definition list_page :: "meme_row list \<Rightarrow> string \<Rightarrow> string" where
  \<open>list_page result search_query_s =
     list_head @ concat (map list_item result) @ ''</ul>'' @
     (if result = [] then ''<div>No memes with '' @ [SQUOTE] @ search_query_s @ [SQUOTE] @
        '' in the top or bottom text</div>'' else []) @
     (if search_query_s \<noteq> [] then ''<a href="/meme/list">Clear search</a>'' else [])\<close>

section \<open>The handler\<close>

datatype db_ptr = DbUninit | DbHandle

record meme_handler =
  handler_root :: string
  location :: string
  view_path :: string
  db_handle :: db_ptr

record 'db meme_state =
  meme_count :: int
  meme_db :: 'db

type_synonym page = "int \<times> string \<times> string"

definition meme_handler_create :: "NginxConfig \<Rightarrow> string \<Rightarrow> meme_handler" where
  "meme_handler_create config root_path =
     (let config_root = get_key_value config ''root''
      in \<lparr>handler_root =
            (if config_root = [] then root_path
             else if hd config_root = CHR ''/'' \<or> config_root = ''.'' then config_root
             else root_path @ config_root),
          location = get_key_value config ''location'',
          view_path = get_key_value config ''view'',
          db_handle = DbUninit\<rparr>)"

definition set_db_ptr :: "db_ptr \<Rightarrow> meme_handler \<Rightarrow> meme_handler" where
  "set_db_ptr db h = h\<lparr>db_handle := db\<rparr>"

text \<open>\<open>sqlite3_exec(db_, SQL.c_str(), ...)\<close>\<close>

definition exec_sql :: "('db, 'net) env \<Rightarrow> meme_handler \<Rightarrow> 'db meme_state \<Rightarrow> string \<Rightarrow>
    ('db meme_state \<times> sql_row list \<times> string option) outcome" where
  "exec_sql env h st SQL =
     (case db_handle h of
        DbUninit \<Rightarrow> Faults NullPointer
      | DbHandle \<Rightarrow>
          (case sqlite3_exec env (meme_db st) (c_str SQL) of (db', rows, err) \<Rightarrow>
             Returns (st\<lparr>meme_db := db'\<rparr>, rows, err)))"

definition open_page :: "('db, 'net) env \<Rightarrow> string \<Rightarrow> string option" where
  "open_page env file = (if is_regular_file env file then read_file env (c_str file) else None)"

definition prepare_new_request :: "('db, 'net) env \<Rightarrow> string \<Rightarrow> page \<Rightarrow> page" where
  "prepare_new_request env file p =
     (case open_page env (file @ ''/new.html'') of
        Some buffer \<Rightarrow> (200, ''text/html'', buffer)
      | None \<Rightarrow> p)"

definition prepare_edit_request :: "('db, 'net) env \<Rightarrow> meme_handler \<Rightarrow> 'db meme_state \<Rightarrow>
    string \<Rightarrow> string \<Rightarrow> page \<Rightarrow> ('db meme_state \<times> page) outcome" where
  "prepare_edit_request env h st file meme_id p =
     bind_outcome (exec_sql env h st (select_sql meme_id)) (\<lambda>(st', rows, err).
     bind_outcome (view_rows rows empty_row) (\<lambda>result.
       if err \<noteq> None \<or> \<not> data_found result then
         Returns (st', 404, ''text/html'', not_found_page meme_id)
       else
         (case open_page env (file @ ''/edit.html'') of
            None \<Rightarrow> Returns (st', p)
          | Some buffer \<Rightarrow>
              (let content1 = boost_replace_all env buffer ''$meme.top'' (meme_top result);
                   content2 = boost_replace_all env content1 ''$meme.bot'' (meme_bottom result);
                   content3 = boost_replace_all env content2 ''$meme.id'' meme_id
               in Returns (st', 200, ''text/html'', content3)))))"

definition create_format :: string where
  "create_format = ''image=%[^&]&top=%[^&]&bottom=%[^&]''"

definition update_format :: string where
  "update_format = ''image=%[^&]&top=%[^&]&bottom=%[^&]&update=%[^&]''"

text \<open>What \<open>prepare_create_request\<close> does once the four fields have been read and decoded.\<close>

definition store_meme :: "('db, 'net) env \<Rightarrow> meme_handler \<Rightarrow> 'db meme_state \<Rightarrow>
    string \<Rightarrow> string \<Rightarrow> string \<Rightarrow> string \<Rightarrow> ('db meme_state \<times> page) outcome" where
  "store_meme env h st pic_file_s top_text_s bot_text_s edit_id_s =
     (if pic_file_s = ''Choose...'' \<or> pic_file_s = [] \<or> top_text_s = [] \<or> bot_text_s = [] then
        Returns (st, 400, ''text/plain'', ''400 Error: Bad Request'')
      else
        let st1 = (if edit_id_s = [] then st\<lparr>meme_count := meme_count st + 1\<rparr> else st);
            unique_id = (if edit_id_s = [] then to_string (meme_count st1) else edit_id_s);
            page = (if edit_id_s = [] then generated_page unique_id else updated_page unique_id);
            SQL = (if edit_id_s = [] then insert_sql unique_id pic_file_s top_text_s bot_text_s
                   else update_sql unique_id pic_file_s top_text_s bot_text_s)
        in bind_outcome (exec_sql env h st1 SQL) (\<lambda>(st2, rows, err).
             if err \<noteq> None then Returns (st2, 404, ''text/html'', create_failed_page)
             else Returns (st2, 200, ''text/html'', page)))"

definition prepare_create_request :: "('db, 'net) env \<Rightarrow> meme_handler \<Rightarrow> 'db meme_state \<Rightarrow>
    string \<Rightarrow> ('db meme_state \<times> page) outcome" where
  "prepare_create_request env h st form =
     bind_outcome
       (if str_find form ''&update='' = None then sscanf 3 create_format (c_str form)
        else sscanf 4 update_format (c_str form)) (\<lambda>vals.
     bind_outcome (decode_field env (scanned vals 0)) (\<lambda>pic_file_s.
     bind_outcome (decode_field env (scanned vals 1)) (\<lambda>top_text_s.
     bind_outcome (decode_field env (scanned vals 2)) (\<lambda>bot_text_s.
       store_meme env h st pic_file_s top_text_s bot_text_s (scanned vals 3)))))"

definition prepare_view_request :: "('db, 'net) env \<Rightarrow> meme_handler \<Rightarrow> 'db meme_state \<Rightarrow>
    string \<Rightarrow> ('db meme_state \<times> page) outcome" where
  "prepare_view_request env h st url =
     bind_outcome (sscanf 1 (c_str (location h @ view_path h @ ''?id=%[^&]'')) (c_str url)) (\<lambda>vals.
       let meme_id_s = scanned vals 0
       in if meme_id_s = [] then Returns (st, 400, ''text/plain'', ''400 Error: Bad Request'')
          else
            bind_outcome (exec_sql env h st (select_sql meme_id_s)) (\<lambda>(st', rows, err).
            bind_outcome (view_rows rows empty_row) (\<lambda>result.
              if err \<noteq> None \<or> \<not> data_found result then
                Returns (st', 404, ''text/html'', not_found_page meme_id_s)
              else
                Returns (st', 200, ''text/html'',
                  view_page (meme_temp result) (meme_top result) (meme_bottom result) meme_id_s))))"

definition prepare_list_request :: "('db, 'net) env \<Rightarrow> meme_handler \<Rightarrow> 'db meme_state \<Rightarrow>
    string \<Rightarrow> ('db meme_state \<times> page) outcome" where
  "prepare_list_request env h st url =
     bind_outcome (sscanf 1 (c_str (location h @ ''/list'' @ ''?query=%[^&]'')) (c_str url)) (\<lambda>vals.
     bind_outcome (decode_field env (scanned vals 0)) (\<lambda>search_query_s.
     bind_outcome (exec_sql env h st (list_sql search_query_s)) (\<lambda>(st', rows, err).
     bind_outcome (list_rows rows []) (\<lambda>result.
       if err \<noteq> None then Returns (st', 404, ''text/html'', ''<header>No memes found :(</header>'')
       else Returns (st', 200, ''text/html'', list_page result search_query_s)))))"

definition prepare_delete_request :: "('db, 'net) env \<Rightarrow> meme_handler \<Rightarrow> 'db meme_state \<Rightarrow>
    string \<Rightarrow> ('db meme_state \<times> page) outcome" where
  "prepare_delete_request env h st meme_id =
     bind_outcome (exec_sql env h st (delete_sql meme_id)) (\<lambda>(st', rows, err).
       if err \<noteq> None then Returns (st', 404, ''text/html'', delete_failed_page meme_id)
       else Returns (st', 200, ''text/html'', deleted_page meme_id))"

text \<open>
  \<open>path.substr(path.find(key) + key.size())\<close>: \<open>npos\<close> is the largest \<open>size_t\<close>, so that the sum
  wraps around when the key is missing.
\<close>

definition param_after :: "string \<Rightarrow> string \<Rightarrow> string outcome" where
  "param_after key url =
     str_substr url (case str_find url key of Some i \<Rightarrow> i + length key | None \<Rightarrow> length key - 1)"

definition meme_page :: "('db, 'net) env \<Rightarrow> meme_handler \<Rightarrow> 'db meme_state \<Rightarrow> request \<Rightarrow>
    ('db meme_state \<times> page) outcome" where
  "meme_page env h st req =
     (let url = path req; p = (404, ''text/plain'', ''404 Error: Page not found'')
      in if str_find url (location h) \<noteq> Some 0 then Returns (st, p)
         else if url = ''/meme/new'' then Returns (st, prepare_new_request env (handler_root h) p)
         else if str_find url ''/meme/edit?update='' = Some 0 then
           bind_outcome (param_after ''?update='' url) (\<lambda>id_param.
             prepare_edit_request env h st (handler_root h) id_param p)
         else if url = ''/meme/create'' then prepare_create_request env h st (body req)
         else if str_find url (location h @ view_path h @ ''?id='') = Some 0 then
           prepare_view_request env h st url
         else if str_find url ''/meme/list'' = Some 0 then prepare_list_request env h st url
         else if str_find url ''/meme/delete?id='' = Some 0 then
           bind_outcome (param_after ''?id='' url) (\<lambda>id_param. prepare_delete_request env h st id_param)
         else Returns (st, p))"

definition meme_HandleRequest :: "('db, 'net) env \<Rightarrow> meme_handler \<Rightarrow> 'db meme_state \<Rightarrow> request \<Rightarrow>
    ('db meme_state \<times> reply) outcome" where
  "meme_HandleRequest env h st req =
     bind_outcome (meme_page env h st req) (\<lambda>(st', c, mime, cont).
       Returns (st', make_reply (http_version req) c mime cont))"

section \<open>The interface of the handler\<close>

definition page_ok :: "('db meme_state \<times> page) outcome \<Rightarrow> bool" where
  "page_ok r \<longleftrightarrow> (\<forall>st' c mime cont. r = Returns (st', c, mime, cont) \<longrightarrow>
     c \<in> {200, 400, 404} \<and> mime \<in> {''text/plain'', ''text/html''})"

lemma page_ok_bind: "(\<And>x. page_ok (f x)) \<Longrightarrow> page_ok (bind_outcome r f)"
  by (cases r) (auto simp: page_ok_def)

lemma page_ok_Returns [simp]: "page_ok (Returns (st', c, mime, cont)) \<longleftrightarrow> c \<in> {200, 400, 404} \<and> mime \<in> {''text/plain'', ''text/html''}"
  by (auto simp: page_ok_def)

lemma page_ok_prepare:
  "page_ok (prepare_edit_request env h st file i (404, ''text/plain'', cont))"
  "page_ok (store_meme env h st p t b e)"
  "page_ok (prepare_create_request env h st form)"
  "page_ok (prepare_view_request env h st url)"
  "page_ok (prepare_list_request env h st url)"
  "page_ok (prepare_delete_request env h st i)"
proof -
  show "page_ok (store_meme env h st p t b e)" for p t b e
    by (auto simp: store_meme_def Let_def intro!: page_ok_bind split: prod.splits)
  then show "page_ok (prepare_create_request env h st form)"
    by (auto simp: prepare_create_request_def intro!: page_ok_bind)
qed (auto simp: prepare_edit_request_def prepare_view_request_def prepare_list_request_def
    prepare_delete_request_def Let_def intro!: page_ok_bind split: prod.splits option.splits)

lemma page_ok_meme_page: "page_ok (meme_page env h st req)"
  unfolding meme_page_def Let_def
  by (auto simp: page_ok_prepare prepare_new_request_def intro!: page_ok_bind split: option.splits)

interpretation meme: request_handler "meme_HandleRequest env h" for env h
proof unfold_locales
  fix st st' req r
  assume "meme_HandleRequest env h st req = Returns (st', r)"
  then obtain c mime cont where p: "meme_page env h st req = Returns (st', c, mime, cont)"
    and r: "r = make_reply (http_version req) c mime cont"
    by (auto simp: meme_HandleRequest_def split: prod.splits)
  from p page_ok_meme_page [of env h st req] have "c \<in> {200, 400, 404}" "mime \<in> {''text/plain'', ''text/html''}"
    by (auto simp: page_ok_def)
  with r show "reply_ok req r" by (auto simp: known_mime_types_def)
qed

end
