(* ===== verification/Meme_Store.thy ===== *)
theory Meme_Store
  imports Meme_Handler
begin

text \<open>
  What the meme handler does to the table of memes. The behaviour of SQLite on the statements the
  handler sends is the hypothesis \<open>sqlite_laws\<close>; the abstract specification is a counter and a
  partial map from ids to memes. The handler refines it on every request whose fields fit the
  buffers and contain no quote.
\<close>

section \<open>Reading form fields\<close>

declare sscanf.simps [simp del]

lemma sscanf_end [simp]: "sscanf n [] s = Returns []"
  by (simp add: sscanf.simps)

lemma sscanf_literal:
  "\<forall>c \<in> set lit. \<not> isspace c \<and> c \<noteq> CHR ''%'' \<Longrightarrow> sscanf n (lit @ fmt) (lit @ s) = sscanf n fmt s"
  by (induction lit) (simp_all add: sscanf.simps)

lemma takeWhile_until: "c \<notin> set f \<Longrightarrow> rest = [] \<or> hd rest = c \<Longrightarrow> takeWhile (\<lambda>x. x \<noteq> c) (f @ rest) = f"
  by (cases rest) (auto simp: takeWhile_append)

lemma sscanf_field:
  assumes "CHR ''&'' \<notin> set f" and "rest = [] \<or> hd rest = CHR ''&''"
  shows "sscanf (Suc n) (''%[^&]'' @ fmt) (f @ rest) =
    (if f = [] then Returns []
     else bind_outcome (scan_buffer f) (\<lambda>g. bind_outcome (sscanf n fmt rest) (\<lambda>gs. Returns (g # gs))))"
  using takeWhile_until [OF assms] by (simp add: sscanf.simps isspace_def Let_def)

text \<open>The body of a form and the fields \<open>sscanf\<close> finds in it.\<close>

definition form_body :: "string \<Rightarrow> string \<Rightarrow> string \<Rightarrow> string" where
  "form_body p t b = ''image='' @ p @ ''&top='' @ t @ ''&bottom='' @ b"

definition form_update :: "string \<Rightarrow> string \<Rightarrow> string \<Rightarrow> string \<Rightarrow> string" where
  "form_update p t b i = ''image='' @ p @ ''&top='' @ t @ ''&bottom='' @ b @ ''&update='' @ i"

fun field_chain :: "string list \<Rightarrow> string list outcome" where
  "field_chain [] = Returns []"
| "field_chain (f # fs) =
     (if f = [] then Returns []
      else if sizeof_string \<le> length f then Faults BufferOverflow
      else bind_outcome (field_chain fs) (\<lambda>gs. Returns (f # gs)))"

text \<open>A format of literal keys, each followed by a field, reads the fields one after the other.\<close>

lemma scan_keyed:
  assumes "\<forall>(k, v) \<in> set kvs. CHR ''&'' \<notin> set v \<and> (\<forall>c \<in> set k. \<not> isspace c \<and> c \<noteq> CHR ''%'')"
    and "\<forall>(k, v) \<in> set (tl kvs). k \<noteq> [] \<and> hd k = CHR ''&''"
  shows "sscanf (length kvs) (concat (map (\<lambda>(k, v). k @ ''%[^&]'') kvs)) (concat (map (\<lambda>(k, v). k @ v) kvs)) =
    field_chain (map snd kvs)"
  using assms
proof (induction kvs)
  case (Cons kv kvs)
  obtain k v where kv: "kv = (k, v)" by fastforce
  let ?fmt = "concat (map (\<lambda>(k, v). k @ ''%[^&]'') kvs)" and ?s = "concat (map (\<lambda>(k, v). k @ v) kvs)"
  have rest: "?s = [] \<or> hd ?s = CHR ''&''"
    using Cons.prems(2) by (cases kvs) (auto simp: hd_append)
  have IH: "sscanf (length kvs) ?fmt ?s = field_chain (map snd kvs)"
    using Cons.IH Cons.prems by (cases kvs) auto
  have "sscanf (Suc (length kvs)) (k @ ''%[^&]'' @ ?fmt) (k @ v @ ?s) =
      sscanf (Suc (length kvs)) (''%[^&]'' @ ?fmt) (v @ ?s)"
    by (rule sscanf_literal) (use Cons.prems(1) kv in auto)
  also have "\<dots> = field_chain (map snd (kv # kvs))"
    by (subst sscanf_field [OF _ rest]) (use Cons.prems(1) kv IH in \<open>auto simp: scan_buffer_def\<close>)
  finally show ?case by (simp add: kv)
qed simp

lemma scan_create:
  assumes "CHR ''&'' \<notin> set p \<union> set t \<union> set b"
  shows "sscanf 3 create_format (form_body p t b) = field_chain [p, t, b]"
  using scan_keyed [of "[(''image='', p), (''&top='', t), (''&bottom='', b)]"] assms
  by (simp add: create_format_def form_body_def isspace_def numeral_3_eq_3)

lemma scan_update:
  assumes "CHR ''&'' \<notin> set p \<union> set t \<union> set b \<union> set i"
  shows "sscanf 4 update_format (form_update p t b i) = field_chain [p, t, b, i]"
  using scan_keyed [of "[(''image='', p), (''&top='', t), (''&bottom='', b), (''&update='', i)]"] assms
  by (simp add: update_format_def form_update_def isspace_def eval_nat_numeral)

lemma scan_view:
  assumes "CHR ''&'' \<notin> set i"
  shows "sscanf 1 ''/meme/view?id=%[^&]'' (''/meme/view?id='' @ i) = field_chain [i]"
  using scan_keyed [of "[(''/meme/view?id='', i)]"] assms by (simp add: isspace_def)

text \<open>Which of the two formats \<open>prepare_create_request\<close> chooses.\<close>

lemma str_find_skip:
  "pat \<noteq> [] \<Longrightarrow> hd pat \<notin> set f \<Longrightarrow> str_find (f @ s) pat = map_option ((+) (length f)) (str_find s pat)"
proof (induction f)
  case (Cons c f)
  then show ?case
    by (cases pat) (auto simp: option.map_comp o_def)
qed (simp add: option.map_ident_strong)

lemma find_update_form:
  assumes "CHR ''&'' \<notin> set p \<union> set t \<union> set b"
  shows "str_find (form_body p t b) ''&update='' = None"
    and "str_find (form_update p t b i) ''&update='' \<noteq> None"
proof -
  have b: "str_find b ''&update='' = None"
    using assms str_find_skip [of "''&update=''" b "[]"] by simp
  show "str_find (form_body p t b) ''&update='' = None"
    using assms b by (simp add: form_body_def str_find_skip)
  show "str_find (form_update p t b i) ''&update='' \<noteq> None"
    using assms by (simp add: form_update_def str_find_skip)
qed

section \<open>SQLite\<close>

text \<open>
  The documented behaviour of SQLite the handler relies on, for the table \<open>MEMES\<close> that
  \<open>server::init_sqlite3\<close> creates: \<open>table\<close> are its rows in insertion order. The laws speak of texts
  without quotes and NUL bytes, and of ids in decimal notation that fit SQLite's integers.
\<close>

type_synonym meme_record = "int \<times> string \<times> string \<times> string"

definition text_ok :: "string \<Rightarrow> bool" where
  "text_ok s \<longleftrightarrow> SQUOTE \<notin> set s \<and> NUL \<notin> set s"

fun view_result :: "meme_record \<Rightarrow> sql_row" where
  "view_result (n, p, t, b) = [(''TEMPLATE'', Some p), (''TOP'', Some t), (''BOTTOM'', Some b)]"

fun list_result :: "meme_record \<Rightarrow> sql_row" where
  "list_result (n, p, t, b) =
     [(''TEMPLATE'', Some p), (''TOP'', Some t), (''BOTTOM'', Some b), (''ID'', Some (to_string n))]"

definition small_id :: "nat \<Rightarrow> bool" where
  "small_id n \<longleftrightarrow> n < 2 ^ 63"

definition sqlite_laws ::
  "('db \<Rightarrow> string \<Rightarrow> 'db \<times> sql_row list \<times> string option) \<Rightarrow> ('db \<Rightarrow> meme_record list) \<Rightarrow> bool" where
  "sqlite_laws exec table \<longleftrightarrow>
     (\<forall>d n p t b. small_id n \<and> text_ok p \<and> text_ok t \<and> text_ok b \<and> int n \<notin> fst ` set (table d) \<longrightarrow>
        (\<exists>d'. exec d (insert_sql (nat_to_string n) p t b) = (d', [], None) \<and>
              table d' = table d @ [(int n, p, t, b)])) \<and>
     (\<forall>d n p t b. small_id n \<and> text_ok p \<and> text_ok t \<and> text_ok b \<longrightarrow>
        (\<exists>d'. exec d (update_sql (nat_to_string n) p t b) = (d', [], None) \<and>
              table d' = map (\<lambda>r. if fst r = int n then (int n, p, t, b) else r) (table d))) \<and>
     (\<forall>d n. small_id n \<longrightarrow>
        (\<exists>d'. exec d (select_sql (nat_to_string n)) =
                (d', map view_result (filter (\<lambda>r. fst r = int n) (table d)), None) \<and>
              table d' = table d)) \<and>
     (\<forall>d n. small_id n \<longrightarrow>
        (\<exists>d'. exec d (delete_sql (nat_to_string n)) = (d', [], None) \<and>
              table d' = filter (\<lambda>r. fst r \<noteq> int n) (table d))) \<and>
     (\<forall>d. \<exists>d'. exec d (list_sql []) = (d', map list_result (table d), None) \<and> table d' = table d)"

lemma sqlite_lawsD:
  assumes "sqlite_laws exec table"
  shows "small_id n \<Longrightarrow> text_ok p \<Longrightarrow> text_ok t \<Longrightarrow> text_ok b \<Longrightarrow> int n \<notin> fst ` set (table d) \<Longrightarrow>
      \<exists>d'. exec d (insert_sql (nat_to_string n) p t b) = (d', [], None) \<and>
           table d' = table d @ [(int n, p, t, b)]"
    and "small_id n \<Longrightarrow> text_ok p \<Longrightarrow> text_ok t \<Longrightarrow> text_ok b \<Longrightarrow>
      \<exists>d'. exec d (update_sql (nat_to_string n) p t b) = (d', [], None) \<and>
           table d' = map (\<lambda>r. if fst r = int n then (int n, p, t, b) else r) (table d)"
    and "small_id n \<Longrightarrow>
      \<exists>d'. exec d (select_sql (nat_to_string n)) =
             (d', map view_result (filter (\<lambda>r. fst r = int n) (table d)), None) \<and> table d' = table d"
    and "small_id n \<Longrightarrow>
      \<exists>d'. exec d (delete_sql (nat_to_string n)) = (d', [], None) \<and>
           table d' = filter (\<lambda>r. fst r \<noteq> int n) (table d)"
    and "\<exists>d'. exec d (list_sql []) = (d', map list_result (table d), None) \<and> table d' = table d"
  using assms unfolding sqlite_laws_def by blast+

text \<open>
  The laws can hold: an engine that understands these statements and the creation of the table, with the rows themselves
  as its database. The parts of a statement are what its quotes separate.
\<close>

fun split_quotes :: "string \<Rightarrow> string list" where
  "split_quotes [] = [[]]"
| "split_quotes (c # cs) =
     (if c = SQUOTE then [] # split_quotes cs
      else (c # hd (split_quotes cs)) # tl (split_quotes cs))"

definition part_id :: "string \<Rightarrow> int" where
  "part_id s = int (decimal (filter isdigit s))"

definition mini_sql :: "meme_record list \<Rightarrow> string \<Rightarrow> meme_record list \<times> sql_row list \<times> string option" where
  "mini_sql d s =
     (let q = split_quotes s
      in if prefix ''INSERT'' s then
           (let n = part_id (q ! 0)
            in if n \<in> fst ` set d then (d, [], Some ''UNIQUE constraint failed: MEMES.ID'')
               else (d @ [(n, q ! 1, q ! 3, q ! 5)], [], None))
         else if prefix ''UPDATE'' s then
           (let n = part_id (q ! 6)
            in (map (\<lambda>r. if fst r = n then (n, q ! 1, q ! 3, q ! 5) else r) d, [], None))
         else if prefix ''SELECT TEMPLATE, TOP, BOTTOM from'' s then
           (d, map view_result (filter (\<lambda>r. fst r = part_id (q ! 1)) d), None)
         else if prefix ''DELETE'' s then (filter (\<lambda>r. fst r \<noteq> part_id (q ! 1)) d, [], None)
         else if s = list_sql [] then (d, map list_result d, None)
         else if prefix ''CREATE'' s then ([], [], None)
         else (d, [], Some ''syntax error''))"

fun join_quotes :: "string list \<Rightarrow> string" where
  "join_quotes [] = []"
| "join_quotes [a] = a"
| "join_quotes (a # as) = a @ [SQUOTE] @ join_quotes as"

lemma split_quotes_append:
  "SQUOTE \<notin> set a \<Longrightarrow> split_quotes (a @ SQUOTE # s) = a # split_quotes s"
  by (induction a) auto

lemma split_quotes_last: "SQUOTE \<notin> set a \<Longrightarrow> split_quotes a = [a]"
  by (induction a) auto

lemma split_join_quotes:
  "as \<noteq> [] \<Longrightarrow> list_all (\<lambda>a. SQUOTE \<notin> set a) as \<Longrightarrow> split_quotes (join_quotes as) = as"
  by (induction as rule: join_quotes.induct) (simp_all add: split_quotes_append split_quotes_last)

declare split_quotes.simps [simp del]

lemma filter_isdigit_number: "filter isdigit (nat_to_string n) = nat_to_string n"
  using nat_to_string_digits [of n] by (simp add: filter_id_conv)

lemma part_id_number [simp]: "part_id (nat_to_string n) = int n"
  by (simp add: part_id_def filter_isdigit_number)

lemma part_id_text:
  "list_all (\<lambda>c. \<not> isdigit c) a \<Longrightarrow> list_all (\<lambda>c. \<not> isdigit c) b \<Longrightarrow>
     part_id (a @ nat_to_string n @ b) = int n"
  by (simp add: part_id_def filter_isdigit_number list_all_iff)

lemma split_quotes_sql:
  assumes "text_ok p" "text_ok t" "text_ok b"
  shows "split_quotes (insert_sql (nat_to_string n) p t b) =
      [''INSERT INTO MEMES VALUES ('' @ nat_to_string n @ '', '', p, '', '', t, '', '', b, '');'']"
    and "split_quotes (update_sql (nat_to_string n) p t b) =
      [''UPDATE MEMES '' @ ''                           SET TEMPLATE = '', p, '', TOP = '', t,
       '', BOTTOM = '', b, ''                           WHERE ID = '' @ nat_to_string n @ '';'']"
proof -
  let ?ins = "[''INSERT INTO MEMES VALUES ('' @ nat_to_string n @ '', '', p, '', '', t, '', '', b, '');'']"
  let ?upd = "[''UPDATE MEMES '' @ ''                           SET TEMPLATE = '', p, '', TOP = '', t,
       '', BOTTOM = '', b, ''                           WHERE ID = '' @ nat_to_string n @ '';'']"
  have "insert_sql (nat_to_string n) p t b = join_quotes ?ins" by (simp add: insert_sql_def)
  then show "split_quotes (insert_sql (nat_to_string n) p t b) = ?ins"
    using split_join_quotes [of ?ins] assms by (simp add: text_ok_def)
  have "update_sql (nat_to_string n) p t b = join_quotes ?upd" by (simp add: update_sql_def)
  then show "split_quotes (update_sql (nat_to_string n) p t b) = ?upd"
    using split_join_quotes [of ?upd] assms by (simp add: text_ok_def)
qed

lemma split_quotes_id:
  "split_quotes (select_sql (nat_to_string n)) =
     [''SELECT TEMPLATE, TOP, BOTTOM from MEMES where ID='', nat_to_string n, '';'']"
  "split_quotes (delete_sql (nat_to_string n)) =
     [''DELETE FROM MEMES WHERE ID='', nat_to_string n, '';'']"
proof -
  let ?sel = "[''SELECT TEMPLATE, TOP, BOTTOM from MEMES where ID='', nat_to_string n, '';'']"
  let ?del = "[''DELETE FROM MEMES WHERE ID='', nat_to_string n, '';'']"
  have "select_sql (nat_to_string n) = join_quotes ?sel" by (simp add: select_sql_def)
  then show "split_quotes (select_sql (nat_to_string n)) = ?sel"
    using split_join_quotes [of ?sel] by simp
  have "delete_sql (nat_to_string n) = join_quotes ?del" by (simp add: delete_sql_def)
  then show "split_quotes (delete_sql (nat_to_string n)) = ?del"
    using split_join_quotes [of ?del] by simp
qed

lemma mini_sql_insert:
  assumes "text_ok p" "text_ok t" "text_ok b" "int n \<notin> fst ` set d"
  shows "mini_sql d (insert_sql (nat_to_string n) p t b) = (d @ [(int n, p, t, b)], [], None)"
proof -
  have "prefix ''INSERT'' (insert_sql (nat_to_string n) p t b)" by (simp add: insert_sql_def)
  moreover have "part_id (''INSERT INTO MEMES VALUES ('' @ nat_to_string n @ '', '') = int n"
    by (rule part_id_text) (simp_all add: isdigit_def)
  ultimately show ?thesis
    using assms by (simp add: mini_sql_def split_quotes_sql Let_def del: append.simps)
qed

lemma mini_sql_update:
  assumes "text_ok p" "text_ok t" "text_ok b"
  shows "mini_sql d (update_sql (nat_to_string n) p t b) =
    (map (\<lambda>r. if fst r = int n then (int n, p, t, b) else r) d, [], None)"
proof -
  have "prefix ''UPDATE'' (update_sql (nat_to_string n) p t b)"
    "\<not> prefix ''INSERT'' (update_sql (nat_to_string n) p t b)" by (simp_all add: update_sql_def)
  moreover have "part_id (''                           WHERE ID = '' @ nat_to_string n @ '';'') = int n"
    by (rule part_id_text) (simp_all add: isdigit_def)
  ultimately show ?thesis
    using assms by (simp add: mini_sql_def split_quotes_sql Let_def eval_nat_numeral del: append.simps)
qed

lemma mini_sql_select:
  "mini_sql d (select_sql (nat_to_string n)) = (d, map view_result (filter (\<lambda>r. fst r = int n) d), None)"
proof -
  have "prefix ''SELECT TEMPLATE, TOP, BOTTOM from'' (select_sql (nat_to_string n))"
    "\<not> prefix ''INSERT'' (select_sql (nat_to_string n))"
    "\<not> prefix ''UPDATE'' (select_sql (nat_to_string n))" by (simp_all add: select_sql_def)
  then show ?thesis by (simp add: mini_sql_def split_quotes_id Let_def)
qed

lemma mini_sql_delete:
  "mini_sql d (delete_sql (nat_to_string n)) = (filter (\<lambda>r. fst r \<noteq> int n) d, [], None)"
proof -
  have "prefix ''DELETE'' (delete_sql (nat_to_string n))"
    "\<not> prefix ''INSERT'' (delete_sql (nat_to_string n))"
    "\<not> prefix ''UPDATE'' (delete_sql (nat_to_string n))"
    "\<not> prefix ''SELECT TEMPLATE, TOP, BOTTOM from'' (delete_sql (nat_to_string n))"
    by (simp_all add: delete_sql_def)
  then show ?thesis by (simp add: mini_sql_def split_quotes_id Let_def)
qed

lemma mini_sql_list: "mini_sql d (list_sql []) = (d, map list_result d, None)"
  by (simp add: mini_sql_def list_sql_def Let_def)

lemma mini_sql_laws: "sqlite_laws mini_sql (\<lambda>d. d)"
  unfolding sqlite_laws_def
  by (simp add: mini_sql_insert mini_sql_update mini_sql_select mini_sql_delete mini_sql_list)

section \<open>The table as a partial map\<close>

lemma filter_key:
  "distinct (map fst tbl) \<Longrightarrow>
     filter (\<lambda>r. fst r = n) tbl = (case map_of tbl n of None \<Rightarrow> [] | Some v \<Rightarrow> [(n, v)])"
proof (induction tbl)
  case (Cons r tbl)
  show ?case
  proof (cases "fst r = n")
    case True
    with Cons.prems have "map_of tbl n = None" by (auto simp: map_of_eq_None_iff)
    with Cons True show ?thesis by (cases r) auto
  qed (use Cons in \<open>auto split: option.splits\<close>)
qed simp

lemma map_of_update_key:
  "map_of (map (\<lambda>r. if fst r = n then (n, v) else r) tbl) =
     (if map_of tbl n = None then map_of tbl else (map_of tbl)(n \<mapsto> v))"
  by (induction tbl) (auto simp: fun_eq_iff)

lemma map_of_delete_key: "map_of (filter (\<lambda>r. fst r \<noteq> n) tbl) = (map_of tbl)(n := None)"
  by (induction tbl) (auto simp: fun_eq_iff)

lemma map_of_insert_key: "n \<notin> fst ` set tbl \<Longrightarrow> map_of (tbl @ [(n, v)]) = (map_of tbl)(n \<mapsto> v)"
  by (induction tbl) (auto simp: fun_eq_iff)

lemma keys_update_key: "map fst (map (\<lambda>r. if fst r = n then (n, v) else r) tbl) = map fst tbl"
  by (induction tbl) auto

lemma distinct_filter_keys: "distinct (map fst tbl) \<Longrightarrow> distinct (map fst (filter P tbl))"
  by (simp add: distinct_map_filter)

section \<open>The abstract specification\<close>

text \<open>
  A meme store is the number of memes created so far and a partial map from ids to template, top
  text and bottom text. \<open>spec_step\<close> says what each operation does to it and which code and page it
  answers. An update of a meme that does not exist, and the deletion of one, report success.
\<close>

type_synonym meme_spec = "int \<times> (int \<rightharpoonup> string \<times> string \<times> string)"

datatype meme_op =
    Create string string string
  | Update nat string string string
  | View nat
  | Delete nat

fun spec_step :: "meme_op \<Rightarrow> meme_spec \<Rightarrow> meme_spec \<times> int \<times> string" where
  "spec_step (Create p t b) (n, m) =
     ((n + 1, m(n + 1 \<mapsto> (p, t, b))), 200, generated_page (to_string (n + 1)))"
| "spec_step (Update i p t b) (n, m) =
     ((n, if m (int i) = None then m else m(int i \<mapsto> (p, t, b))), 200, updated_page (nat_to_string i))"
| "spec_step (View i) (n, m) =
     ((n, m),
      (case m (int i) of
         Some (p, t, b) \<Rightarrow> (200, view_page p t b (nat_to_string i))
       | None \<Rightarrow> (404, not_found_page (nat_to_string i))))"
| "spec_step (Delete i) (n, m) = ((n, m(int i := None)), 200, deleted_page (nat_to_string i))"

text \<open>
  The requests that ask for an operation. A form field \<open>e\<close> carries the text \<open>v\<close> when it fits its
  buffer, contains no separator and decodes to \<open>v\<close>, which has no quote.
\<close>

definition form_field :: "('db, 'net) env \<Rightarrow> string \<Rightarrow> string \<Rightarrow> bool" where
  "form_field env e v \<longleftrightarrow>
     e \<noteq> [] \<and> CHR ''&'' \<notin> set e \<and> NUL \<notin> set e \<and> length e < sizeof_string \<and>
     decode_field env e = Returns v \<and> v \<noteq> [] \<and> text_ok v"

fun asks :: "('db, 'net) env \<Rightarrow> meme_op \<Rightarrow> request \<Rightarrow> bool" where
  "asks env (Create p t b) req \<longleftrightarrow> path req = ''/meme/create'' \<and> p \<noteq> ''Choose...'' \<and>
     (\<exists>ep et eb. body req = form_body ep et eb \<and>
        form_field env ep p \<and> form_field env et t \<and> form_field env eb b)"
| "asks env (Update i p t b) req \<longleftrightarrow> path req = ''/meme/create'' \<and> p \<noteq> ''Choose...'' \<and> small_id i \<and>
     (\<exists>ep et eb. body req = form_update ep et eb (nat_to_string i) \<and>
        form_field env ep p \<and> form_field env et t \<and> form_field env eb b)"
| "asks env (View i) req \<longleftrightarrow> path req = ''/meme/view?id='' @ nat_to_string i \<and> small_id i"
| "asks env (Delete i) req \<longleftrightarrow> path req = ''/meme/delete?id='' @ nat_to_string i \<and> small_id i"

definition meme_setup :: "meme_handler \<Rightarrow> bool" where
  "meme_setup h \<longleftrightarrow> location h = ''/meme'' \<and> view_path h = ''/view'' \<and> db_handle h = DbHandle"

definition meme_abs :: "('db \<Rightarrow> meme_record list) \<Rightarrow> 'db meme_state \<Rightarrow> meme_spec" where
  "meme_abs table st = (meme_count st, map_of (table (meme_db st)))"

text \<open>Ids are distinct and were handed out by the counter.\<close>

definition meme_inv :: "('db \<Rightarrow> meme_record list) \<Rightarrow> 'db meme_state \<Rightarrow> bool" where
  "meme_inv table st \<longleftrightarrow>
     0 \<le> meme_count st \<and> distinct (map fst (table (meme_db st))) \<and>
     fst ` set (table (meme_db st)) \<subseteq> {1..meme_count st}"

section \<open>Refinement\<close>

lemma small_id_length: "small_id n \<Longrightarrow> length (nat_to_string n) < sizeof_string"
proof -
  have len: "n < 10 ^ Suc k \<Longrightarrow> length (nat_to_string n) \<le> Suc k" for k n
  proof (induction k arbitrary: n)
    case (Suc k)
    then show ?case
      by (cases "n < 10") (simp_all add: nat_to_string.simps [of n] less_mult_imp_div_less mult.commute)
  qed (simp add: nat_to_string.simps)
  assume "small_id n"
  then have "n < 10 ^ Suc 18" by (simp add: small_id_def)
  from len [OF this] show ?thesis by (simp add: sizeof_string_def)
qed

lemma number_no_amp: "CHR ''&'' \<notin> set (nat_to_string n)"
  by simp

lemma sql_no_NUL:
  "text_ok p \<Longrightarrow> text_ok t \<Longrightarrow> text_ok b \<Longrightarrow> NUL \<notin> set (insert_sql (nat_to_string n) p t b)"
  "text_ok p \<Longrightarrow> text_ok t \<Longrightarrow> text_ok b \<Longrightarrow> NUL \<notin> set (update_sql (nat_to_string n) p t b)"
  "NUL \<notin> set (select_sql (nat_to_string n))" "NUL \<notin> set (delete_sql (nat_to_string n))"
  "NUL \<notin> set (list_sql [])"
  by (simp_all add: text_ok_def insert_sql_def update_sql_def select_sql_def delete_sql_def list_sql_def)

lemma exec_sql_eq:
  "db_handle h = DbHandle \<Longrightarrow> NUL \<notin> set SQL \<Longrightarrow> sqlite3_exec env (meme_db st) SQL = (d', rows, err) \<Longrightarrow>
     exec_sql env h st SQL = Returns (st\<lparr>meme_db := d'\<rparr>, rows, err)"
  by (simp add: exec_sql_def)

lemma form_fieldD:
  "form_field env e v \<Longrightarrow> e \<noteq> [] \<and> CHR ''&'' \<notin> set e \<and> NUL \<notin> set e \<and> \<not> sizeof_string \<le> length e \<and>
     decode_field env e = Returns v \<and> v \<noteq> [] \<and> text_ok v"
  by (auto simp: form_field_def)

text \<open>What the form handler hands to \<open>store_meme\<close>.\<close>

lemma create_reads_form:
  assumes "form_field env ep p" "form_field env et t" "form_field env eb b"
  shows "prepare_create_request env h st (form_body ep et eb) = store_meme env h st p t b []"
proof -
  note f = assms [THEN form_fieldD]
  have "c_str (form_body ep et eb) = form_body ep et eb"
    using f by (intro c_str_id) (simp add: form_body_def)
  moreover have "str_find (form_body ep et eb) ''&update='' = None"
    using f by (intro find_update_form) simp
  moreover have "sscanf 3 create_format (form_body ep et eb) = Returns [ep, et, eb]"
    using f by (subst scan_create) simp_all
  ultimately show ?thesis
    using f by (simp add: prepare_create_request_def scanned_def)
qed

lemma update_reads_form:
  assumes "form_field env ep p" "form_field env et t" "form_field env eb b" "small_id i"
  shows "prepare_create_request env h st (form_update ep et eb (nat_to_string i)) =
    store_meme env h st p t b (nat_to_string i)"
proof -
  note f = assms(1-3) [THEN form_fieldD]
  have "c_str (form_update ep et eb (nat_to_string i)) = form_update ep et eb (nat_to_string i)"
    using f by (intro c_str_id) (simp add: form_update_def)
  moreover have "str_find (form_update ep et eb (nat_to_string i)) ''&update='' \<noteq> None"
    using f by (intro find_update_form) simp
  moreover have "sscanf 4 update_format (form_update ep et eb (nat_to_string i)) =
      Returns [ep, et, eb, nat_to_string i]"
    using f small_id_length [OF assms(4)] by (subst scan_update) simp_all
  ultimately show ?thesis
    using f by (auto simp: prepare_create_request_def scanned_def)
qed

text \<open>Each operation of the store, on the level of pages.\<close>

lemma store_creates:
  assumes laws: "sqlite_laws (sqlite3_exec env) table" and h: "meme_setup h" and inv: "meme_inv table st"
    and bound: "meme_count st + 1 < 2 ^ 31"
    and texts: "p \<noteq> ''Choose...''" "p \<noteq> []" "t \<noteq> []" "b \<noteq> []" "text_ok p" "text_ok t" "text_ok b"
  shows "\<exists>d'. store_meme env h st p t b [] =
      Returns (st\<lparr>meme_count := meme_count st + 1, meme_db := d'\<rparr>, 200, ''text/html'',
        generated_page (to_string (meme_count st + 1))) \<and>
    table d' = table (meme_db st) @ [(meme_count st + 1, p, t, b)]"
proof -
  define n where "n = nat (meme_count st + 1)"
  have n: "meme_count st + 1 = int n" using inv by (simp add: n_def meme_inv_def)
  have "small_id n" using bound n by (simp add: small_id_def)
  moreover have "int n \<notin> fst ` set (table (meme_db st))"
    using inv n by (auto simp: meme_inv_def)
  ultimately obtain d' where
    "sqlite3_exec env (meme_db st) (insert_sql (nat_to_string n) p t b) = (d', [], None)"
    and tbl: "table d' = table (meme_db st) @ [(int n, p, t, b)]"
    using sqlite_lawsD(1) [OF laws] texts by blast
  then have "exec_sql env h (st\<lparr>meme_count := int n\<rparr>) (insert_sql (nat_to_string n) p t b) =
      Returns (st\<lparr>meme_count := int n, meme_db := d'\<rparr>, [], None)"
    using h texts by (simp add: meme_setup_def exec_sql_eq sql_no_NUL)
  with texts tbl n show ?thesis by (intro exI [of _ d']) (simp add: store_meme_def Let_def)
qed

lemma store_updates:
  assumes laws: "sqlite_laws (sqlite3_exec env) table" and h: "meme_setup h" and i: "small_id i"
    and texts: "p \<noteq> ''Choose...''" "p \<noteq> []" "t \<noteq> []" "b \<noteq> []" "text_ok p" "text_ok t" "text_ok b"
  shows "\<exists>d'. store_meme env h st p t b (nat_to_string i) =
      Returns (st\<lparr>meme_db := d'\<rparr>, 200, ''text/html'', updated_page (nat_to_string i)) \<and>
    table d' = map (\<lambda>r. if fst r = int i then (int i, p, t, b) else r) (table (meme_db st))"
proof -
  obtain d' where
    "sqlite3_exec env (meme_db st) (update_sql (nat_to_string i) p t b) = (d', [], None)"
    and tbl: "table d' = map (\<lambda>r. if fst r = int i then (int i, p, t, b) else r) (table (meme_db st))"
    using sqlite_lawsD(2) [OF laws i] texts by blast
  then have "exec_sql env h st (update_sql (nat_to_string i) p t b) =
      Returns (st\<lparr>meme_db := d'\<rparr>, [], None)"
    using h texts by (simp add: meme_setup_def exec_sql_eq sql_no_NUL)
  with texts tbl show ?thesis by (intro exI [of _ d']) (simp add: store_meme_def Let_def)
qed

lemma view_rows_found:
  "view_rows [view_result (n, p, t, b)] empty_row =
     Returns \<lparr>meme_temp = p, meme_top = t, meme_bottom = b, meme_row_id = [], data_found = True\<rparr>"
  by (simp add: view_callback_def empty_row_def)

text \<open>What \<open>view_callback\<close> has made of the rows of one meme.\<close>

definition found_row :: "(string \<times> string \<times> string) option \<Rightarrow> meme_row" where
  "found_row v = (case v of
     Some (p, t, b) \<Rightarrow> \<lparr>meme_temp = p, meme_top = t, meme_bottom = b, meme_row_id = [], data_found = True\<rparr>
   | None \<Rightarrow> empty_row)"

lemma select_finds:
  assumes laws: "sqlite_laws (sqlite3_exec env) table" and h: "meme_setup h" and i: "small_id i"
    and inv: "meme_inv table st"
  shows "\<exists>d' rows. exec_sql env h st (select_sql (nat_to_string i)) = Returns (st\<lparr>meme_db := d'\<rparr>, rows, None) \<and>
    view_rows rows empty_row = Returns (found_row (map_of (table (meme_db st)) (int i))) \<and>
    table d' = table (meme_db st)"
proof -
  let ?rows = "map view_result (filter (\<lambda>r. fst r = int i) (table (meme_db st)))"
  obtain d' where "sqlite3_exec env (meme_db st) (select_sql (nat_to_string i)) = (d', ?rows, None)"
    and tbl: "table d' = table (meme_db st)"
    using sqlite_lawsD(3) [OF laws i] by blast
  then have exec: "exec_sql env h st (select_sql (nat_to_string i)) = Returns (st\<lparr>meme_db := d'\<rparr>, ?rows, None)"
    using h by (simp add: meme_setup_def exec_sql_eq sql_no_NUL)
  have "distinct (map fst (table (meme_db st)))" using inv by (simp add: meme_inv_def)
  note key = filter_key [OF this, of "int i"]
  have "view_rows ?rows empty_row = Returns (found_row (map_of (table (meme_db st)) (int i)))"
    using view_rows_found by (simp add: key found_row_def split: option.split)
  with exec tbl show ?thesis by blast
qed

lemma view_finds:
  assumes laws: "sqlite_laws (sqlite3_exec env) table" and h: "meme_setup h" and i: "small_id i"
    and inv: "meme_inv table st"
  shows "\<exists>d'. prepare_view_request env h st (''/meme/view?id='' @ nat_to_string i) =
      Returns (st\<lparr>meme_db := d'\<rparr>,
        (case map_of (table (meme_db st)) (int i) of
           Some (p, t, b) \<Rightarrow> (200, ''text/html'', view_page p t b (nat_to_string i))
         | None \<Rightarrow> (404, ''text/html'', not_found_page (nat_to_string i)))) \<and>
    table d' = table (meme_db st)"
proof -
  have scan: "sscanf 1 (c_str (location h @ view_path h @ ''?id=%[^&]''))
      (c_str (''/meme/view?id='' @ nat_to_string i)) = Returns [nat_to_string i]"
    using h scan_view [of "nat_to_string i"] small_id_length [OF i] by (simp add: meme_setup_def)
  from select_finds [OF assms] obtain d' rows where
    "exec_sql env h st (select_sql (nat_to_string i)) = Returns (st\<lparr>meme_db := d'\<rparr>, rows, None)"
    "view_rows rows empty_row = Returns (found_row (map_of (table (meme_db st)) (int i)))"
    "table d' = table (meme_db st)" by blast
  with scan show ?thesis
    by (intro exI [of _ d'])
      (auto simp: prepare_view_request_def scanned_def found_row_def empty_row_def Let_def split: option.split)
qed

lemma delete_removes:
  assumes laws: "sqlite_laws (sqlite3_exec env) table" and h: "meme_setup h" and i: "small_id i"
  shows "\<exists>d'. prepare_delete_request env h st (nat_to_string i) =
      Returns (st\<lparr>meme_db := d'\<rparr>, 200, ''text/html'', deleted_page (nat_to_string i)) \<and>
    table d' = filter (\<lambda>r. fst r \<noteq> int i) (table (meme_db st))"
proof -
  obtain d' where "sqlite3_exec env (meme_db st) (delete_sql (nat_to_string i)) = (d', [], None)"
    and tbl: "table d' = filter (\<lambda>r. fst r \<noteq> int i) (table (meme_db st))"
    using sqlite_lawsD(4) [OF laws i] by blast
  then have "exec_sql env h st (delete_sql (nat_to_string i)) = Returns (st\<lparr>meme_db := d'\<rparr>, [], None)"
    using h by (simp add: meme_setup_def exec_sql_eq sql_no_NUL)
  with tbl show ?thesis by (intro exI [of _ d']) (simp add: prepare_delete_request_def)
qed

text \<open>The routes of \<open>HandleRequest\<close>.\<close>

lemma meme_page_routes:
  assumes "meme_setup h"
  shows "path req = ''/meme/create'' \<Longrightarrow> meme_page env h st req = prepare_create_request env h st (body req)"
    and "path req = ''/meme/view?id='' @ s \<Longrightarrow>
      meme_page env h st req = prepare_view_request env h st (''/meme/view?id='' @ s)"
    and "path req = ''/meme/delete?id='' @ s \<Longrightarrow> meme_page env h st req = prepare_delete_request env h st s"
  using assms by (simp_all add: meme_page_def meme_setup_def Let_def param_after_def str_substr_def)

lemma handle_of_page:
  "meme_page env h st req = Returns (st', c, mime, cont) \<Longrightarrow>
     meme_HandleRequest env h st req = Returns (st', make_reply (http_version req) c mime cont)"
  by (simp add: meme_HandleRequest_def)

lemma meme_inv_steps:
  "meme_inv table st \<Longrightarrow> table d' = table (meme_db st) @ [(meme_count st + 1, v)] \<Longrightarrow>
     meme_inv table (st\<lparr>meme_count := meme_count st + 1, meme_db := d'\<rparr>)"
  "meme_inv table st \<Longrightarrow> table d' = map (\<lambda>r. if fst r = n then (n, v) else r) (table (meme_db st)) \<Longrightarrow>
     meme_inv table (st\<lparr>meme_db := d'\<rparr>)"
  "meme_inv table st \<Longrightarrow> table d' = filter P (table (meme_db st)) \<Longrightarrow> meme_inv table (st\<lparr>meme_db := d'\<rparr>)"
  "meme_inv table st \<Longrightarrow> table d' = table (meme_db st) \<Longrightarrow> meme_inv table (st\<lparr>meme_db := d'\<rparr>)"
proof -
  assume inv: "meme_inv table st"
  show "meme_inv table (st\<lparr>meme_count := meme_count st + 1, meme_db := d'\<rparr>)"
    if "table d' = table (meme_db st) @ [(meme_count st + 1, v)]"
    using inv that by (fastforce simp: meme_inv_def)
  show "meme_inv table (st\<lparr>meme_db := d'\<rparr>)"
    if "table d' = map (\<lambda>r. if fst r = n then (n, v) else r) (table (meme_db st))"
  proof -
    have keys: "map fst (table d') = map fst (table (meme_db st))"
      by (simp only: that keys_update_key)
    from arg_cong [OF keys, of set] have "fst ` set (table d') = fst ` set (table (meme_db st))" by simp
    with keys inv show ?thesis by (simp add: meme_inv_def del: map_eq_conv)
  qed
  show "meme_inv table (st\<lparr>meme_db := d'\<rparr>)" if "table d' = filter P (table (meme_db st))"
    using inv that by (auto simp: meme_inv_def distinct_filter_keys)
  show "meme_inv table (st\<lparr>meme_db := d'\<rparr>)" if "table d' = table (meme_db st)"
    using inv that by (simp add: meme_inv_def)
qed

definition refines :: "('db \<Rightarrow> meme_record list) \<Rightarrow> meme_op \<Rightarrow> 'db meme_state \<Rightarrow>
    ('db meme_state \<times> reply) outcome \<Rightarrow> bool" where
  "refines table op st res \<longleftrightarrow>
     (\<exists>st' r. res = Returns (st', r) \<and> meme_inv table st' \<and> meme_count st' \<le> meme_count st + 1 \<and>
        (meme_abs table st', code r, content r) = spec_step op (meme_abs table st))"

lemma refinesI:
  "meme_page env h st req = Returns (st', c, mime, cont) \<Longrightarrow> meme_inv table st' \<Longrightarrow>
     meme_count st' \<le> meme_count st + 1 \<Longrightarrow> (meme_abs table st', c, cont) = spec_step op (meme_abs table st) \<Longrightarrow>
     refines table op st (meme_HandleRequest env h st req)"
  by (simp add: refines_def handle_of_page)

lemma create_refines:
  assumes laws: "sqlite_laws (sqlite3_exec env) table" and h: "meme_setup h" and inv: "meme_inv table st"
    and bound: "meme_count st + 1 < 2 ^ 31" and asks: "asks env (Create p t b) req"
  shows "refines table (Create p t b) st (meme_HandleRequest env h st req)"
proof -
  from asks obtain ep et eb where req: "path req = ''/meme/create''" "p \<noteq> ''Choose...''" "body req = form_body ep et eb"
    and f: "form_field env ep p" "form_field env et t" "form_field env eb b" by auto
  obtain d' where st: "store_meme env h st p t b [] =
      Returns (st\<lparr>meme_count := meme_count st + 1, meme_db := d'\<rparr>, 200, ''text/html'',
        generated_page (to_string (meme_count st + 1)))"
    and tbl: "table d' = table (meme_db st) @ [(meme_count st + 1, p, t, b)]"
    using store_creates [OF laws h inv bound req(2)] f [THEN form_fieldD] by blast
  have "meme_count st + 1 \<notin> fst ` set (table (meme_db st))" using inv by (auto simp: meme_inv_def)
  then have map: "map_of (table d') = (map_of (table (meme_db st)))(meme_count st + 1 \<mapsto> (p, t, b))"
    unfolding tbl by (rule map_of_insert_key)
  have "meme_page env h st req = store_meme env h st p t b []"
    using req create_reads_form [OF f] by (simp add: meme_page_routes [OF h])
  from trans [OF this st] show ?thesis
    by (rule refinesI) (simp_all add: meme_inv_steps(1) [OF inv tbl] map meme_abs_def)
qed

lemma update_refines:
  assumes laws: "sqlite_laws (sqlite3_exec env) table" and h: "meme_setup h" and inv: "meme_inv table st"
    and asks: "asks env (Update i p t b) req"
  shows "refines table (Update i p t b) st (meme_HandleRequest env h st req)"
proof -
  from asks obtain ep et eb where req: "path req = ''/meme/create''" "p \<noteq> ''Choose...''" "small_id i"
    "body req = form_update ep et eb (nat_to_string i)"
    and f: "form_field env ep p" "form_field env et t" "form_field env eb b" by auto
  obtain d' where st: "store_meme env h st p t b (nat_to_string i) =
      Returns (st\<lparr>meme_db := d'\<rparr>, 200, ''text/html'', updated_page (nat_to_string i))"
    and tbl: "table d' = map (\<lambda>r. if fst r = int i then (int i, p, t, b) else r) (table (meme_db st))"
    using store_updates [OF laws h req(3) req(2)] f [THEN form_fieldD] by blast
  have "meme_page env h st req = store_meme env h st p t b (nat_to_string i)"
    using req update_reads_form [OF f] by (simp add: meme_page_routes [OF h])
  from trans [OF this st] show ?thesis
    by (rule refinesI)
      (use meme_inv_steps(2) [OF inv tbl] map_of_update_key [of "int i" "(p, t, b)" "table (meme_db st)"] tbl
        in \<open>simp_all add: meme_abs_def\<close>)
qed

lemma view_refines:
  assumes laws: "sqlite_laws (sqlite3_exec env) table" and h: "meme_setup h" and inv: "meme_inv table st"
    and asks: "asks env (View i) req"
  shows "refines table (View i) st (meme_HandleRequest env h st req)"
proof -
  from asks have i: "small_id i" and req: "path req = ''/meme/view?id='' @ nat_to_string i" by auto
  obtain d' where view: "prepare_view_request env h st (''/meme/view?id='' @ nat_to_string i) =
      Returns (st\<lparr>meme_db := d'\<rparr>,
        (case map_of (table (meme_db st)) (int i) of
           Some (p, t, b) \<Rightarrow> (200, ''text/html'', view_page p t b (nat_to_string i))
         | None \<Rightarrow> (404, ''text/html'', not_found_page (nat_to_string i))))"
    and tbl: "table d' = table (meme_db st)"
    using view_finds [OF laws h i inv] by blast
  from trans [OF meme_page_routes(2) [OF h req] view] meme_inv_steps(4) [OF inv tbl] tbl show ?thesis
    by (auto simp: refines_def meme_HandleRequest_def meme_abs_def split: option.splits)
qed

lemma delete_refines:
  assumes laws: "sqlite_laws (sqlite3_exec env) table" and h: "meme_setup h" and inv: "meme_inv table st"
    and asks: "asks env (Delete i) req"
  shows "refines table (Delete i) st (meme_HandleRequest env h st req)"
proof -
  from asks have i: "small_id i" and req: "path req = ''/meme/delete?id='' @ nat_to_string i" by auto
  obtain d' where del: "prepare_delete_request env h st (nat_to_string i) =
      Returns (st\<lparr>meme_db := d'\<rparr>, 200, ''text/html'', deleted_page (nat_to_string i))"
    and tbl: "table d' = filter (\<lambda>r. fst r \<noteq> int i) (table (meme_db st))"
    using delete_removes [OF laws h i] by blast
  from trans [OF meme_page_routes(3) [OF h req] del] show ?thesis
    by (rule refinesI)
      (use meme_inv_steps(3) [OF inv tbl] map_of_delete_key [of "int i" "table (meme_db st)"] tbl
        in \<open>simp_all add: meme_abs_def\<close>)
qed

lemma meme_step:
  assumes "sqlite_laws (sqlite3_exec env) table" and "meme_setup h" and "meme_inv table st"
    and "meme_count st + 1 < 2 ^ 31" and "asks env op req"
  shows "refines table op st (meme_HandleRequest env h st req)"
proof (cases op)
  case (Create p t b)
  then show ?thesis using create_refines [OF assms(1-4)] assms(5) by (simp del: asks.simps)
next
  case (Update i p t b)
  then show ?thesis using update_refines [OF assms(1-3)] assms(5) by (simp del: asks.simps)
next
  case (View i)
  then show ?thesis using view_refines [OF assms(1-3)] assms(5) by (simp del: asks.simps)
next
  case (Delete i)
  then show ?thesis using delete_refines [OF assms(1-3)] assms(5) by (simp del: asks.simps)
qed

text \<open>Only \<open>sscanf\<close> can overrun a buffer.\<close>

lemma no_overflow:
  "decode_field env s \<noteq> Faults BufferOverflow" "store_meme env h st p t b i \<noteq> Faults BufferOverflow"
  by (auto simp: decode_field_def store_meme_def exec_sql_def Let_def split: option.splits db_ptr.splits prod.splits)

text \<open>Sequences of requests; \<open>id_lock\<close> makes each access to the store atomic.\<close>

fun meme_serve :: "('db, 'net) env \<Rightarrow> meme_handler \<Rightarrow> 'db meme_state \<Rightarrow> request list \<Rightarrow>
    ('db meme_state \<times> reply list) outcome" where
  "meme_serve env h st [] = Returns (st, [])"
| "meme_serve env h st (req # reqs) =
     bind_outcome (meme_HandleRequest env h st req) (\<lambda>(st', r).
     bind_outcome (meme_serve env h st' reqs) (\<lambda>(st'', rs). Returns (st'', r # rs)))"

fun spec_run :: "meme_op list \<Rightarrow> meme_spec \<Rightarrow> meme_spec \<times> (int \<times> string) list" where
  "spec_run [] s = (s, [])"
| "spec_run (op # ops) s =
     (case spec_step op s of (s', a) \<Rightarrow> (case spec_run ops s' of (s'', as) \<Rightarrow> (s'', a # as)))"

definition answers :: "reply list \<Rightarrow> (int \<times> string) list" where
  "answers rs = map (\<lambda>r. (code r, content r)) rs"

lemma meme_serve_refines:
  assumes laws: "sqlite_laws (sqlite3_exec env) table" and h: "meme_setup h"
    and "meme_inv table st" and "list_all2 (asks env) ops reqs"
    and "meme_count st + int (length ops) < 2 ^ 31"
  shows "\<exists>st' rs. meme_serve env h st reqs = Returns (st', rs) \<and> meme_inv table st' \<and>
    (meme_abs table st', answers rs) = spec_run ops (meme_abs table st)"
  using assms(3-)
proof (induction ops arbitrary: st reqs)
  case Nil
  then show ?case by (simp add: answers_def)
next
  case (Cons op ops)
  from Cons.prems(2) obtain req reqs' where reqs: "reqs = req # reqs'" and asks: "asks env op req"
    and rest: "list_all2 (asks env) ops reqs'" by (auto simp: list_all2_Cons1)
  have "meme_count st + 1 < 2 ^ 31" using Cons.prems(3) by simp
  from meme_step [OF laws h Cons.prems(1) this asks] obtain st' r where
    step: "meme_HandleRequest env h st req = Returns (st', r)" "meme_inv table st'"
    "meme_count st' \<le> meme_count st + 1"
    "(meme_abs table st', code r, content r) = spec_step op (meme_abs table st)"
    by (auto simp: refines_def)
  with Cons.prems(3) have "meme_count st' + int (length ops) < 2 ^ 31" by simp
  from Cons.IH [OF step(2) rest this] obtain st'' rs where
    "meme_serve env h st' reqs' = Returns (st'', rs)" "meme_inv table st''"
    "(meme_abs table st'', answers rs) = spec_run ops (meme_abs table st')" by blast
  with step(1) step(4) [symmetric] reqs show ?case
    by (auto simp: answers_def split: prod.splits)
qed

section \<open>Properties\<close>

text \<open>
  C2: The meme handler refines the abstract store. For every sequence of create, update, view and
  delete requests whose fields fit the 32-byte buffers and contain no quote, the handler returns a
  reply to each of them; the codes and pages are those of the abstract store, the table holds what
  the store holds, ids stay distinct and were all handed out by the counter.
\<close>

theorem meme_handler_refines_store:
  assumes "sqlite_laws (sqlite3_exec env) table" and "meme_setup h" and "meme_inv table st"
    and "list_all2 (asks env) ops reqs" and "meme_count st + int (length ops) < 2 ^ 31"
  shows "\<exists>st' rs. meme_serve env h st reqs = Returns (st', rs) \<and> meme_inv table st' \<and>
    (meme_abs table st', answers rs) = spec_run ops (meme_abs table st)"
  by (rule meme_serve_refines [OF assms])

definition mini_env :: "(meme_record list, unit) env" where
  "mini_env = \<lparr>boost_trim = strip, boost_replace_all = (\<lambda>s a b. s), enum_headers = rev,
     is_regular_file = (\<lambda>f. False), has_extension = (\<lambda>f. False), extension = (\<lambda>f. []),
     read_file = (\<lambda>f. None), curl_unescape = Some,
     curl_perform = (\<lambda>n u. (n, \<lparr>response_chunks = [], response_code = 0, redirect_url = None\<rparr>)),
     sqlite3_exec = mini_sql\<rparr>"

definition mini_handler :: meme_handler where
  "mini_handler = \<lparr>handler_root = ''/srv'', location = ''/meme'', view_path = ''/view'', db_handle = DbHandle\<rparr>"

definition mini_state :: "meme_record list meme_state" where
  "mini_state = \<lparr>meme_count = 0, meme_db = []\<rparr>"

definition create_request :: "string \<Rightarrow> string \<Rightarrow> string \<Rightarrow> request" where
  "create_request p t b = default_request\<lparr>meth := ''POST'', path := ''/meme/create'', body := form_body p t b\<rparr>"

definition view_request :: "nat \<Rightarrow> request" where
  "view_request i = default_request\<lparr>path := ''/meme/view?id='' @ nat_to_string i\<rparr>"

definition delete_request :: "nat \<Rightarrow> request" where
  "delete_request i = default_request\<lparr>path := ''/meme/delete?id='' @ nat_to_string i\<rparr>"

lemma mini_facts:
  "sqlite_laws (sqlite3_exec mini_env) (\<lambda>d. d)" "meme_setup mini_handler" "meme_inv (\<lambda>d. d) mini_state"
  "form_field mini_env ''a.jpg'' ''a.jpg''" "form_field mini_env ''hi+there'' ''hi there''"
  "form_field mini_env ''bye'' ''bye''" "meme_count mini_state = 0"
  "meme_abs (\<lambda>d. d) mini_state = (0, Map.empty)"
  using mini_sql_laws
  by (simp_all add: mini_env_def meme_setup_def mini_handler_def meme_inv_def mini_state_def form_field_def
      decode_field_def plus_to_space_def text_ok_def sizeof_string_def c_str_def meme_abs_def)

lemma mini_asks:
  "asks mini_env (Create ''a.jpg'' ''hi there'' ''bye'') (create_request ''a.jpg'' ''hi+there'' ''bye'')"
  "asks mini_env (View 1) (view_request 1)" "asks mini_env (Delete 1) (delete_request 1)"
  using mini_facts by (auto simp: create_request_def view_request_def delete_request_def small_id_def)

theorem meme_handler_refines_store_witness:
  "\<exists>st' rs. meme_serve mini_env mini_handler mini_state
      [create_request ''a.jpg'' ''hi+there'' ''bye'', view_request 1, delete_request 1, view_request 1] = Returns (st', rs) \<and>
    answers rs = [(200, generated_page ''1''), (200, view_page ''a.jpg'' ''hi there'' ''bye'' ''1''),
      (200, deleted_page ''1''), (404, not_found_page ''1'')]"
  using meme_handler_refines_store [of mini_env "\<lambda>d. d" mini_handler mini_state
      "[Create ''a.jpg'' ''hi there'' ''bye'', View 1, Delete 1, View 1]"
      "[create_request ''a.jpg'' ''hi+there'' ''bye'', view_request 1, delete_request 1, view_request 1]"]
  by (simp add: mini_facts mini_asks nat_to_string.simps to_string_def digit_char_def
      del: asks.simps meme_serve.simps One_nat_def)
    (metis prod.inject)

text \<open>Requests in between that leave a given meme alone.\<close>

fun leaves :: "int \<Rightarrow> meme_op \<Rightarrow> bool" where
  "leaves n (Update i p t b) \<longleftrightarrow> int i \<noteq> n"
| "leaves n (Delete i) \<longleftrightarrow> int i \<noteq> n"
| "leaves n (Create p t b) \<longleftrightarrow> True"
| "leaves n (View i) \<longleftrightarrow> True"

lemma spec_step_leaves:
  "leaves n op \<Longrightarrow> n \<le> fst s \<Longrightarrow> snd (fst (spec_step op s)) n = snd s n \<and> n \<le> fst (fst (spec_step op s))"
  by (cases s; cases op) auto

lemma spec_run_leaves:
  "list_all (leaves n) ops \<Longrightarrow> n \<le> fst s \<Longrightarrow> snd (fst (spec_run ops s)) n = snd s n \<and> n \<le> fst (fst (spec_run ops s))"
proof (induction ops arbitrary: s)
  case (Cons op ops)
  obtain s' a s'' as where step: "spec_step op s = (s', a)" and run: "spec_run ops s' = (s'', as)"
    by (metis prod.exhaust)
  have "snd s' n = snd s n \<and> n \<le> fst s'"
    using spec_step_leaves [of n op s] Cons.prems step by simp
  with Cons.IH [of s'] Cons.prems run have "snd s'' n = snd s n \<and> n \<le> fst s''" by simp
  then show ?case by (simp add: step run)
qed simp

lemma spec_run_append:
  "spec_run (ops @ ops') s =
     (case spec_run ops s of (s', as) \<Rightarrow> (case spec_run ops' s' of (s'', as') \<Rightarrow> (s'', as @ as')))"
  by (induction ops arbitrary: s) (auto split: prod.splits)

lemma answers_last: "answers rs = as @ [a] \<Longrightarrow> (code (last rs), content (last rs)) = a"
  unfolding answers_def by (cases rs rule: rev_cases) auto




definition mini_state1 :: "meme_record list meme_state" where
  "mini_state1 = \<lparr>meme_count = 1, meme_db = [(1, ''a.jpg'', ''x'', ''y'')]\<rparr>"


text \<open>The row object \<open>list_callback\<close> makes of a meme.\<close>

fun row_of :: "meme_record \<Rightarrow> meme_row" where
  "row_of (n, p, t, b) =
     \<lparr>meme_temp = p, meme_top = t, meme_bottom = b, meme_row_id = to_string n, data_found = True\<rparr>"

lemma list_rows_results: "list_rows (map list_result rs) acc = Returns (acc @ map row_of rs)"
proof (induction rs arbitrary: acc)
  case (Cons r rs)
  have "list_callback (list_result r) acc = Returns (acc @ [row_of r])"
    by (cases r) (simp add: list_callback_def empty_row_def)
  with Cons show ?case by simp
qed simp

lemma list_no_query:
  assumes "meme_setup h"
  shows "sscanf 1 (c_str (location h @ ''/list'' @ ''?query=%[^&]'')) (c_str ''/meme/list'') = Returns []"
proof -
  have "sscanf 1 (''/meme/list'' @ ''?query=%[^&]'') (''/meme/list'' @ []) = sscanf 1 ''?query=%[^&]'' []"
    by (rule sscanf_literal) (simp add: isspace_def)
  also have "\<dots> = Returns []" by (simp add: sscanf.simps isspace_def)
  finally show ?thesis using assms by (simp add: meme_setup_def)
qed



lemma create_page:
  assumes "meme_setup h" and "set p \<union> set t \<union> set b \<subseteq> - {CHR ''&'', NUL}"
  shows "meme_page env h st (create_request p t b) =
    bind_outcome (field_chain [p, t, b]) (\<lambda>vals.
    bind_outcome (decode_field env (scanned vals 0)) (\<lambda>p'.
    bind_outcome (decode_field env (scanned vals 1)) (\<lambda>t'.
    bind_outcome (decode_field env (scanned vals 2)) (\<lambda>b'.
      store_meme env h st p' t' b' (scanned vals 3)))))"
proof -
  have "c_str (form_body p t b) = form_body p t b"
    using assms(2) by (intro c_str_id) (auto simp: form_body_def)
  moreover have "str_find (form_body p t b) ''&update='' = None"
    using assms(2) by (intro find_update_form) auto
  moreover have "sscanf 3 create_format (form_body p t b) = field_chain [p, t, b]"
    using assms(2) by (intro scan_create) auto
  moreover have "meme_page env h st (create_request p t b) = prepare_create_request env h st (form_body p t b)"
    by (simp add: meme_page_routes [OF assms(1)] create_request_def)
  ultimately show ?thesis by (simp add: prepare_create_request_def)
qed

text \<open>
  C32: A form field of 32 bytes or more overruns its buffer. For a form whose fields contain no
  separator, the create request runs into undefined behaviour exactly when the template has at least
  32 bytes, or it is not empty and the top text has, or neither is empty and the bottom text has:
  fields after an empty one are not read.
\<close>

theorem create_overflow_iff:
  assumes "meme_setup h" and "set p \<union> set t \<union> set b \<subseteq> - {CHR ''&'', NUL}"
  shows "meme_HandleRequest env h st (create_request p t b) = Faults BufferOverflow \<longleftrightarrow>
    32 \<le> length p \<or> (p \<noteq> [] \<and> (32 \<le> length t \<or> (t \<noteq> [] \<and> 32 \<le> length b)))"
proof -
  have "meme_page env h st (create_request p t b) = Faults BufferOverflow \<longleftrightarrow>
      field_chain [p, t, b] = Faults BufferOverflow"
    by (simp add: create_page [OF assms] no_overflow)
  then show ?thesis
    by (auto simp: meme_HandleRequest_def sizeof_string_def split: prod.splits)
qed

theorem create_overflow_iff_witness:
  "meme_HandleRequest mini_env mini_handler mini_state
     (create_request ''a.jpg'' ''this text has 36 bytes, four too many'' ''bye'') = Faults BufferOverflow"
  using create_overflow_iff [of mini_handler "''a.jpg''" "''this text has 36 bytes, four too many''" "''bye''"
      mini_env mini_state]
  by (simp add: mini_facts)



text \<open>
  C34: The id of a delete request reaches SQLite as it stands in the path, quotes included: any text
  \<open>s\<close> after \<open>?id=\<close> is pasted between the quotes of the statement, so a client can run SQL of its own.
\<close>

theorem delete_pastes_sql:
  assumes "meme_setup h" and "NUL \<notin> set s"
    and "sqlite3_exec env (meme_db st)
      (''DELETE FROM MEMES WHERE ID='' @ [SQUOTE] @ s @ [SQUOTE] @ '';'') = (d', rows, None)"
  shows "\<exists>r. meme_HandleRequest env h st (default_request\<lparr>path := ''/meme/delete?id='' @ s\<rparr>) =
      Returns (st\<lparr>meme_db := d'\<rparr>, r) \<and> code r = 200"
proof -
  let ?req = "default_request\<lparr>path := ''/meme/delete?id='' @ s\<rparr>"
  have "exec_sql env h st (delete_sql s) = Returns (st\<lparr>meme_db := d'\<rparr>, rows, None)"
    using assms by (intro exec_sql_eq) (simp_all add: meme_setup_def delete_sql_def)
  moreover have "meme_page env h st ?req = prepare_delete_request env h st s"
    by (simp add: meme_page_routes [OF assms(1)])
  ultimately show ?thesis
    by (auto simp: prepare_delete_request_def meme_HandleRequest_def)
qed

definition greedy_env :: "(meme_record list, unit) env" where
  "greedy_env = mini_env\<lparr>sqlite3_exec := (\<lambda>d s.
     if s = ''DELETE FROM MEMES WHERE ID='' @ [SQUOTE] @ ''0'' @ [SQUOTE] @ ''OR/**/1=1--'' @ [SQUOTE] @ '';''
     then ([], [], None) else mini_sql d s)\<rparr>"

theorem delete_pastes_sql_witness:
  "\<exists>r. meme_HandleRequest greedy_env mini_handler mini_state1
      (default_request\<lparr>path := ''/meme/delete?id='' @ ''0'' @ [SQUOTE] @ ''OR/**/1=1--''\<rparr>) =
    Returns (mini_state1\<lparr>meme_db := []\<rparr>, r) \<and> code r = 200"
  using delete_pastes_sql [of mini_handler "''0'' @ [SQUOTE] @ ''OR/**/1=1--''" greedy_env mini_state1 "[]" "[]"]
  by (simp add: mini_facts greedy_env_def)

end
