(* ===== verification/Handler_Manager.thy ===== *)
theory Handler_Manager
  imports Static_Handler Proxy_Handler Status_Handler Meme_Store
begin

text \<open>
  \<^verbatim>\<open>include/handler_manager.h\<close> and \<^verbatim>\<open>src/handler_manager.cc\<close>: the counters all sessions share, the
  factory \<open>createByName\<close> and the virtual call \<open>HandleRequest\<close> on the object it makes.

  The state handlers work on is \<open>world\<close>: the manager, the memes and the network. The pointers of
  the manager that its constructor leaves uninitialised are \<open>None\<close> and \<open>DbUninit\<close>.
\<close>

record handler_manager =
  url_counter :: "(string, int) stdmap"
  code_counter :: "(int, int) stdmap"
  manager_paths :: "handler_map option"
  manager_db :: db_ptr

definition new_handler_manager :: handler_manager where
  "new_handler_manager = \<lparr>url_counter = [], code_counter = [], manager_paths = None, manager_db = DbUninit\<rparr>"

definition setHandlerPathsPtr :: "handler_map \<Rightarrow> handler_manager \<Rightarrow> handler_manager" where
  "setHandlerPathsPtr given_handler_paths m = m\<lparr>manager_paths := Some given_handler_paths\<rparr>"

datatype handler =
    Echo_handler
  | Static_handler static_handler
  | Status_handler "handler_manager status_handler"
  | Proxy_handler proxy_handler
  | Meme_handler meme_handler
  | Health_handler
  | Bad_request_handler

text \<open>The stateless handlers keep nothing of their configuration.\<close>

definition echo_handler_create :: "NginxConfig \<Rightarrow> string \<Rightarrow> handler" where
  [simp]: "echo_handler_create config root_path = Echo_handler"

definition health_handler_create :: "NginxConfig \<Rightarrow> string \<Rightarrow> handler" where
  [simp]: "health_handler_create config root_path = Health_handler"

definition bad_request_handler_create :: "NginxConfig \<Rightarrow> string \<Rightarrow> handler" where
  [simp]: "bad_request_handler_create config root_path = Bad_request_handler"

definition createByName :: "handler_manager \<Rightarrow> string \<Rightarrow> NginxConfig \<Rightarrow> string \<Rightarrow> handler" where
  "createByName m name config root_path =
     (if name = ''echo'' then echo_handler_create config root_path
      else if name = ''static'' then Static_handler (static_handler_create config root_path)
      else if name = ''status'' then
        Status_handler (setPathsMap (manager_paths m) (setCodeMap code_counter (setUrlMap url_counter
          (status_handler_create config root_path))))
      else if name = ''proxy'' then Proxy_handler (proxy_handler_create config)
      else if name = ''meme'' then Meme_handler (set_db_ptr (manager_db m) (meme_handler_create config root_path))
      else if name = ''health'' then health_handler_create config root_path
      else bad_request_handler_create config root_path)"

record ('db, 'net) world =
  manager :: handler_manager
  memes :: "'db meme_state"
  network :: 'net

definition HandleRequest :: "('db, 'net) env \<Rightarrow> handler \<Rightarrow> ('db, 'net) world \<Rightarrow> request \<Rightarrow>
    (('db, 'net) world \<times> reply) outcome" where
  "HandleRequest env h w req =
     (case h of
        Echo_handler \<Rightarrow> pure_reply echo_HandleRequest w req
      | Static_handler s \<Rightarrow> pure_reply (static_HandleRequest env s) w req
      | Status_handler s \<Rightarrow>
          bind_outcome (status_HandleRequest s (manager w) req) (\<lambda>(m, r). Returns (w\<lparr>manager := m\<rparr>, r))
      | Proxy_handler p \<Rightarrow>
          bind_outcome (proxy_HandleRequest env p (network w) req) (\<lambda>(n, r). Returns (w\<lparr>network := n\<rparr>, r))
      | Meme_handler m \<Rightarrow>
          bind_outcome (meme_HandleRequest env m (memes w) req) (\<lambda>(st, r). Returns (w\<lparr>memes := st\<rparr>, r))
      | Health_handler \<Rightarrow> pure_reply health_HandleRequest w req
      | Bad_request_handler \<Rightarrow> pure_reply bad_request_HandleRequest w req)"

text \<open>Every handler provides the interface, so the object the factory makes does.\<close>

interpretation any: request_handler "HandleRequest env h" for env h
proof unfold_locales
  fix w w' req r
  assume "HandleRequest env h w req = Returns (w', r)"
  then show "reply_ok req r"
    using echo.handle_reply_ok static.handle_reply_ok health.handle_reply_ok bad_request.handle_reply_ok
      status.handle_reply_ok proxy.handle_reply_ok meme.handle_reply_ok
    by (cases h) (fastforce simp: HandleRequest_def)+
qed

text \<open>Handlers read the counters and never change them.\<close>

lemma HandleRequest_manager:
  assumes "HandleRequest env h w req = Returns (w', r)"
  shows "manager w' = manager w"
  using assms
  by (cases h)
    (auto simp: HandleRequest_def pure_reply_def status_HandleRequest_def split: option.splits)

definition manager_ready :: "handler_manager \<Rightarrow> bool" where
  "manager_ready m \<longleftrightarrow> manager_paths m \<noteq> None \<and> manager_db m = DbHandle"

section \<open>Which faults a handler can run into\<close>

abbreviation input_faults :: "fault set" where
  "input_faults \<equiv> {NullString, BufferOverflow, BadFormat}"

lemma sscanf_faults [fault_rules]: "only_faults input_faults (sscanf n fmt s)"
proof (induction n fmt s rule: sscanf.induct)
  case (2 n c fmt s)
  have field: "only_faults input_faults (bind_outcome (scan_buffer f) (\<lambda>f.
      bind_outcome (sscanf (n - 1) (drop 4 fmt) (drop (length f) s)) (\<lambda>fs. Returns (f # fs))))"
    if "only_faults input_faults (sscanf (n - 1) (drop 4 fmt) (drop (length f) s))" for f
    using that by (auto simp: scan_buffer_def)
  show ?case
    unfolding sscanf.simps(2) Let_def
    using 2 field by (auto split: list.splits simp: scan_buffer_def Let_def)
qed simp

lemma decode_faults [fault_rules]: "only_faults input_faults (decode_field env s)"
  by (simp add: decode_field_def split: option.splits)

lemma exec_faults [fault_rules]: "db_handle h = DbHandle \<Longrightarrow> only_faults S (exec_sql env h st SQL)"
  by (simp add: exec_sql_def split: prod.splits)

lemma view_columns_faults: "only_faults input_faults (view_columns cs mrp found)"
  by (induction cs mrp found rule: view_columns.induct) auto

lemma view_rows_faults [fault_rules]: "only_faults input_faults (view_rows rows mrp)"
  by (induction rows arbitrary: mrp)
    (auto simp: view_callback_def view_columns_faults intro!: only_faults_bind split: prod.splits)

lemma list_columns_faults: "only_faults input_faults (list_columns cs mrp found)"
  by (induction cs mrp found rule: list_columns.induct) auto

lemma list_rows_faults [fault_rules]: "only_faults input_faults (list_rows rows acc)"
  by (induction rows arbitrary: acc)
    (auto simp: list_callback_def list_columns_faults intro!: only_faults_bind split: prod.splits)

lemma param_after_returns: "length key \<le> length url \<Longrightarrow> \<exists>s. param_after key url = Returns s"
  using str_find_Some by (fastforce simp: param_after_def str_substr_def split: option.splits)

lemma prepare_faults:
  assumes "db_handle h = DbHandle"
  shows "only_faults input_faults (prepare_edit_request env h st fl i p)"
    and "only_faults input_faults (store_meme env h st pic t b e)"
    and "only_faults input_faults (prepare_create_request env h st form)"
    and "only_faults input_faults (prepare_view_request env h st url)"
    and "only_faults input_faults (prepare_list_request env h st url)"
    and "only_faults input_faults (prepare_delete_request env h st i)"
proof -
  show store: "only_faults input_faults (store_meme env h st pic t b e)" for pic t b e
    using assms by (auto simp: store_meme_def Let_def fault_rules intro!: only_faults_bind)
  show "only_faults input_faults (prepare_create_request env h st form)"
    unfolding prepare_create_request_def
    by (intro only_faults_bind) (auto simp: fault_rules store)
  show "only_faults input_faults (prepare_edit_request env h st fl i p)"
    using assms unfolding prepare_edit_request_def
    by (auto simp: fault_rules Let_def intro!: only_faults_bind split: option.splits)
  show "only_faults input_faults (prepare_view_request env h st url)"
    using assms unfolding prepare_view_request_def
    by (auto simp: fault_rules Let_def intro!: only_faults_bind)
  show "only_faults input_faults (prepare_list_request env h st url)"
    using assms unfolding prepare_list_request_def
    by (auto simp: fault_rules intro!: only_faults_bind)
  show "only_faults input_faults (prepare_delete_request env h st i)"
    using assms unfolding prepare_delete_request_def
    by (auto simp: fault_rules intro!: only_faults_bind)
qed

lemma meme_HandleRequest_faults:
  assumes "db_handle h = DbHandle"
  shows "only_faults input_faults (meme_HandleRequest env h st req)"
proof -
  have edit: "only_faults input_faults (bind_outcome (param_after ''?update='' (path req)) (\<lambda>i.
      prepare_edit_request env h st fl i p))"
    if pre: "prefix ''/meme/edit?update='' (path req)" for fl p
  proof -
    obtain s where "param_after ''?update='' (path req) = Returns s"
      using param_after_returns [of "''?update=''" "path req"] prefix_length_le [OF pre] by auto
    then show ?thesis by (simp add: prepare_faults [OF assms])
  qed
  have delete: "only_faults input_faults (bind_outcome (param_after ''?id='' (path req)) (\<lambda>i.
      prepare_delete_request env h st i))"
    if pre: "prefix ''/meme/delete?id='' (path req)"
  proof -
    obtain s where "param_after ''?id='' (path req) = Returns s"
      using param_after_returns [of "''?id=''" "path req"] prefix_length_le [OF pre] by auto
    then show ?thesis by (simp add: prepare_faults [OF assms])
  qed
  have "only_faults input_faults (meme_page env h st req)"
    unfolding meme_page_def Let_def str_find_0_iff
    using edit delete by (simp add: prepare_faults [OF assms])
  then show ?thesis unfolding meme_HandleRequest_def by (auto split: prod.splits)
qed

lemma proxy_no_fault:
  "prefix (proxy_handler.location h) (path req) \<Longrightarrow> proxy_HandleRequest env h net req \<noteq> Faults f"
  by (auto simp: proxy_HandleRequest_def getRequestURI_def str_substr_def prefix_def split: option.splits)

text \<open>The factory sets the pointers of the handlers that have some.\<close>

lemma createByName_pointers:
  "createByName m name config root_path = Status_handler s \<Longrightarrow>
     url_counter_ptr s = Some url_counter \<and> code_counter_ptr s = Some code_counter \<and>
     paths_map_ptr s = manager_paths m"
  "createByName m name config root_path = Meme_handler mh \<Longrightarrow> name = ''meme'' \<and> db_handle mh = manager_db m"
  "createByName m name config root_path = Proxy_handler p \<Longrightarrow>
     name = ''proxy'' \<and> proxy_handler.location p = get_key_value config ''location''"
  by (auto simp: createByName_def setPathsMap_def setCodeMap_def setUrlMap_def set_db_ptr_def
      proxy_handler_create_def split: if_splits)

lemma created_handler_faults:
  assumes "manager_ready m" and "prefix (get_key_value config ''location'') (path req)"
    and "HandleRequest env (createByName m name config root_path) w req = Faults f"
  shows "name = ''meme'' \<and> f \<in> input_faults"
proof (cases "createByName m name config root_path")
  case (Status_handler s)
  with createByName_pointers(1) [OF Status_handler] assms(1,3) show ?thesis
    by (auto simp: HandleRequest_def status_HandleRequest_def manager_ready_def)
next
  case (Proxy_handler p)
  with createByName_pointers(3) [OF Proxy_handler] assms(2,3) show ?thesis
    by (auto simp: HandleRequest_def proxy_no_fault)
next
  case (Meme_handler mh)
  with createByName_pointers(2) [OF Meme_handler] meme_HandleRequest_faults [of mh env "memes w" req] assms(1,3)
  show ?thesis by (auto simp: HandleRequest_def only_faults_def manager_ready_def)
qed (use assms(3) in \<open>auto simp: HandleRequest_def pure_reply_def\<close>)

lemma created_handler_diverges:
  assumes "manager_ready m" and "HandleRequest env (createByName m name config root_path) w req = Diverges"
  shows "name = ''proxy''"
proof (cases "createByName m name config root_path")
  case (Meme_handler mh)
  with createByName_pointers(2) [OF Meme_handler] meme_HandleRequest_faults [of mh env "memes w" req] assms
  show ?thesis
    by (cases "meme_HandleRequest env mh (memes w) req") (auto simp: HandleRequest_def manager_ready_def)
next
  case (Status_handler s)
  with assms(2) show ?thesis
    by (auto simp: HandleRequest_def status_HandleRequest_def split: option.splits)
qed (use assms(2) createByName_pointers(3) in \<open>auto simp: HandleRequest_def pure_reply_def\<close>)

section \<open>Properties\<close>


definition mini_manager :: handler_manager where
  "mini_manager = \<lparr>url_counter = [], code_counter = [], manager_paths = Some [], manager_db = DbHandle\<rparr>"

definition mini_world :: "(meme_record list, unit) world" where
  "mini_world = \<lparr>manager = mini_manager, memes = mini_state, network = ()\<rparr>"

definition location_config :: "string \<Rightarrow> NginxConfig" where
  "location_config l = NginxConfig [NginxConfigStatement [''location'', l] None]"

lemma location_config_value [simp]: "get_key_value (location_config l) ''location'' = l"
  by (simp add: location_config_def get_key_value_def)


end
