(* ===== verification/Session.thy ===== *)
theory Session
  imports Handler_Manager
begin

text \<open>
  \<^verbatim>\<open>include/session.h\<close> and \<^verbatim>\<open>src/session.cc\<close>: choosing the handler for a request, answering it,
  counting it, and the life of a session. \<open>handle_read\<close> is first the function a single thread
  computes; the step relation \<open>sys_step\<close> then cuts it at its critical sections, so that the steps of
  all sessions interleave.
\<close>

section \<open>Dispatch\<close>

definition location_matches :: "string \<Rightarrow> string \<Rightarrow> bool" where
  "location_matches loc p \<longleftrightarrow> p = loc \<or> str_find p (loc @ ''/'') = Some 0"

fun find_handler :: "handler_map \<Rightarrow> string \<Rightarrow> string \<times> NginxConfig" where
  "find_handler [] p = ([], NginxConfig [])"
| "find_handler ((loc, name, config) # m) p =
     (if location_matches loc p then (name, config) else find_handler m p)"

definition make_400_request :: reply where
  "make_400_request = make_reply ''HTTP/1.1'' 400 ''text/plain'' ''400 Bad Request''"

section \<open>Answering a request\<close>

text \<open>What a session is doing. \<open>Handling\<close> and \<open>Counting\<close> are inside \<open>handle_read\<close>.\<close>

datatype phase =
    Accepting
  | Reading
  | Handling request handler
  | Counting request reply
  | Writing string

text \<open>From the start of \<open>handle_read\<close> to the call of \<open>HandleRequest\<close>.\<close>

definition begin_request :: "('db, 'net) env \<Rightarrow> config_params \<Rightarrow> handler_manager \<Rightarrow> string \<Rightarrow> phase" where
  "begin_request env params m data_copy =
     (let req = parse_request_line (boost_trim env) data_copy
      in if is_valid req then
           (case find_handler (handler_paths params) (path req) of (name, config) \<Rightarrow>
              Handling req (createByName m name config (server_root params)))
         else Counting req make_400_request)"

definition count_response :: "request \<Rightarrow> reply \<Rightarrow> handler_manager \<Rightarrow> handler_manager" where
  "count_response req r m =
     m\<lparr>url_counter := bump_counter (path req) (url_counter m),
       code_counter := bump_counter (code r) (code_counter m)\<rparr>"

definition handle_read :: "('db, 'net) env \<Rightarrow> config_params \<Rightarrow> ('db, 'net) world \<Rightarrow> string \<Rightarrow>
    (('db, 'net) world \<times> string) outcome" where
  "handle_read env params w data_copy =
     (let req = parse_request_line (boost_trim env) data_copy
      in bind_outcome
           (if is_valid req then
              (case find_handler (handler_paths params) (path req) of (name, config) \<Rightarrow>
                 HandleRequest env (createByName (manager w) name config (server_root params)) w req)
            else Returns (w, make_400_request))
           (\<lambda>(w', response).
              Returns (w'\<lparr>manager := count_response req response (manager w')\<rparr>,
                       construct_http_response (enum_headers env) response)))"

section \<open>Sessions and the acceptor\<close>

text \<open>
  The sessions of the server by number, with the one that waits for a connection
  (\<open>server::start_accept\<close>, \<open>server::handle_accept\<close>); \<open>served\<close> records path and code of every request
  counted. A fault takes the whole process down. A handler that does not return keeps its session
  in \<open>Handling\<close> for ever.
\<close>

record ('db, 'net) system =
  sys_world :: "('db, 'net) world"
  sessions :: "nat \<Rightarrow> phase option"
  next_session :: nat
  crashed :: "fault option"
  served :: "(string \<times> int) list"

definition max_length :: nat where
  "max_length = 1024"

abbreviation sys_manager :: "('db, 'net) system \<Rightarrow> handler_manager" where
  "sys_manager s \<equiv> manager (sys_world s)"

definition start_accept :: "('db, 'net) system \<Rightarrow> ('db, 'net) system" where
  "start_accept s =
     s\<lparr>sessions := (sessions s)(next_session s \<mapsto> Accepting), next_session := Suc (next_session s)\<rparr>"

definition set_phase :: "nat \<Rightarrow> phase option \<Rightarrow> ('db, 'net) system \<Rightarrow> ('db, 'net) system" where
  "set_phase i p s = s\<lparr>sessions := (sessions s)(i := p)\<rparr>"

text \<open>
  \<open>session::start\<close> begins to read and asks for the address of the peer, which only the log uses. The argument
  is what the socket knows: \<open>remote_endpoint\<close> throws when the peer is no longer connected.
\<close>

definition get_remote_ip :: "string option \<Rightarrow> string outcome" where
  "get_remote_ip peer = (case peer of Some ip \<Rightarrow> Returns ip | None \<Rightarrow> Faults NotConnected)"

definition session_start :: "nat \<Rightarrow> string option \<Rightarrow> ('db, 'net) system \<Rightarrow> ('db, 'net) system outcome" where
  "session_start i peer s = bind_outcome (get_remote_ip peer) (\<lambda>remote_ip. Returns (set_phase i (Some Reading) s))"

text \<open>
  The completion handlers of the accept, whose success starts the session, and of the write; the
  flag says that there was no error. A session that ends deletes itself. An exception of
  \<open>session::start\<close> passes through \<open>handle_accept\<close> and ends the process.
\<close>

definition handle_accept :: "nat \<Rightarrow> bool \<Rightarrow> string option \<Rightarrow> ('db, 'net) system \<Rightarrow> ('db, 'net) system" where
  "handle_accept i success peer s =
     (if success then
        (case session_start i peer s of
           Returns s' \<Rightarrow> start_accept s'
         | Faults f \<Rightarrow> s\<lparr>crashed := Some f\<rparr>
         | Diverges \<Rightarrow> s)
      else start_accept (set_phase i None s))"

definition handle_write :: "nat \<Rightarrow> bool \<Rightarrow> ('db, 'net) system \<Rightarrow> ('db, 'net) system" where
  "handle_write i success s = set_phase i (if success then Some Reading else None) s"

inductive sys_step :: "('db, 'net) env \<Rightarrow> config_params \<Rightarrow> ('db, 'net) system \<Rightarrow> ('db, 'net) system \<Rightarrow> bool"
  for env params where
  accept: "crashed s = None \<Longrightarrow> sessions s i = Some Accepting \<Longrightarrow>
    sys_step env params s (handle_accept i True (Some ip) s)"
| accept_gone: "crashed s = None \<Longrightarrow> sessions s i = Some Accepting \<Longrightarrow>
    sys_step env params s (handle_accept i True None s)"
| accept_error: "crashed s = None \<Longrightarrow> sessions s i = Some Accepting \<Longrightarrow>
    sys_step env params s (handle_accept i False peer s)"
| read_some: "crashed s = None \<Longrightarrow> sessions s i = Some Reading \<Longrightarrow> 0 < length data \<Longrightarrow> length data \<le> max_length \<Longrightarrow>
    sys_step env params s (set_phase i (Some (begin_request env params (sys_manager s) data)) s)"
| read_error: "crashed s = None \<Longrightarrow> sessions s i = Some Reading \<Longrightarrow>
    sys_step env params s (set_phase i None s)"
| handle: "crashed s = None \<Longrightarrow> sessions s i = Some (Handling req h) \<Longrightarrow>
    HandleRequest env h (sys_world s) req = Returns (w, r) \<Longrightarrow>
    sys_step env params s (set_phase i (Some (Counting req r)) (s\<lparr>sys_world := w\<rparr>))"
| handle_fault: "crashed s = None \<Longrightarrow> sessions s i = Some (Handling req h) \<Longrightarrow>
    HandleRequest env h (sys_world s) req = Faults f \<Longrightarrow>
    sys_step env params s (s\<lparr>crashed := Some f\<rparr>)"
| count_served: "crashed s = None \<Longrightarrow> sessions s i = Some (Counting req r) \<Longrightarrow>
    sys_step env params s
      (set_phase i (Some (Writing (construct_http_response (enum_headers env) r)))
        (s\<lparr>sys_world := (sys_world s)\<lparr>manager := count_response req r (sys_manager s)\<rparr>,
           served := served s @ [(path req, code r)]\<rparr>))"
| write_done: "crashed s = None \<Longrightarrow> sessions s i = Some (Writing resp) \<Longrightarrow>
    sys_step env params s (handle_write i True s)"
| write_error: "crashed s = None \<Longrightarrow> sessions s i = Some (Writing resp) \<Longrightarrow>
    sys_step env params s (handle_write i False s)"

abbreviation sys_steps :: "('db, 'net) env \<Rightarrow> config_params \<Rightarrow> ('db, 'net) system \<Rightarrow> ('db, 'net) system \<Rightarrow> bool" where
  "sys_steps env params \<equiv> (sys_step env params)\<^sup>*\<^sup>*"

text \<open>The state in which \<open>server::init\<close> leaves the server: no request yet, one pending accept.\<close>

definition init_system :: "('db, 'net) world \<Rightarrow> ('db, 'net) system" where
  "init_system w = start_accept
     \<lparr>sys_world = w, sessions = (\<lambda>i. None), next_session = 0, crashed = None, served = []\<rparr>"

section \<open>The chosen location\<close>

lemma location_matches_iff: "location_matches loc p \<longleftrightarrow> p = loc \<or> prefix (loc @ ''/'') p"
  by (simp add: location_matches_def)

lemma location_matches_prefix: "location_matches loc p \<Longrightarrow> prefix loc p"
  by (auto simp: location_matches_iff prefix_def)

lemma find_handler_none: "\<forall>e \<in> set m. \<not> location_matches (fst e) p \<Longrightarrow> find_handler m p = ([], NginxConfig [])"
  by (induction m) auto

lemma find_handler_some:
  "e \<in> set m \<Longrightarrow> location_matches (fst e) p \<Longrightarrow>
     \<exists>loc. (loc, find_handler m p) \<in> set m \<and> location_matches loc p"
proof (induction m)
  case (Cons x m)
  show ?case
  proof (cases "location_matches (fst x) p")
    case True
    then show ?thesis by (cases x) auto
  next
    case False
    with Cons show ?thesis by (cases x) fastforce
  qed
qed simp

text \<open>A strict prefix comes first in the map.\<close>

lemma strict_prefix_less: "strict_prefix a b \<Longrightarrow> (a :: string) < b"
proof -
  assume "strict_prefix a b"
  then obtain c cs where "b = a @ c # cs" by (auto elim: strict_prefixE')
  then show "a < b" by (induction a arbitrary: b) auto
qed

lemma find_handler_first:
  assumes "map_ok m" and "loc \<in> fst ` set m" and "location_matches loc p"
  shows "\<exists>loc'. (loc', find_handler m p) \<in> set m \<and> location_matches loc' p \<and>
    (\<forall>l \<in> fst ` set m. location_matches l p \<longrightarrow> loc' \<le> l)"
  using assms
proof (induction m)
  case (Cons e m)
  obtain l name config where e: "e = (l, name, config)" by (metis prod_cases3)
  show ?case
  proof (cases "location_matches l p")
    case True
    with Cons.prems(1) e show ?thesis by (force simp: map_ok_Cons)
  next
    case False
    with Cons.prems e have "\<exists>loc'. (loc', find_handler m p) \<in> set m \<and> location_matches loc' p \<and>
      (\<forall>l \<in> fst ` set m. location_matches l p \<longrightarrow> loc' \<le> l)"
      by (intro Cons.IH) (auto simp: map_ok_Cons)
    with False e show ?thesis by auto
  qed
qed simp

lemma location_le_shorter:
  assumes "location_matches a p" and "location_matches b p" and "a \<le> b"
  shows "length a \<le> length b"
proof (rule ccontr)
  assume "\<not> length a \<le> length b"
  moreover have "prefix a p" "prefix b p" using assms(1,2) location_matches_prefix by auto
  ultimately have "prefix b a" "b \<noteq> a" using prefix_length_prefix [of b p a] by auto
  then have "strict_prefix b a" by (simp add: strict_prefix_def)
  from strict_prefix_less [OF this] assms(3) show False by simp
qed

section \<open>A session computes \<open>handle_read\<close>\<close>

text \<open>The last step: the response is counted and its write begins.\<close>

definition written :: "('db, 'net) env \<Rightarrow> nat \<Rightarrow> request \<Rightarrow> reply \<Rightarrow> ('db, 'net) system \<Rightarrow> ('db, 'net) system" where
  "written env i req r s =
     set_phase i (Some (Writing (construct_http_response (enum_headers env) r)))
       (s\<lparr>sys_world := (sys_world s)\<lparr>manager := count_response req r (sys_manager s)\<rparr>,
          served := served s @ [(path req, code r)]\<rparr>)"

lemma written_step:
  "crashed s = None \<Longrightarrow> sessions s i = Some (Counting req r) \<Longrightarrow> sys_step env params s (written env i req r s)"
  unfolding written_def by (rule count_served)

lemma valid_answered:
  assumes "crashed s = None" and "sessions s i = Some (Handling req h)"
    and "HandleRequest env h (sys_world s) req = Returns (w, r)"
  shows "\<exists>s'. sys_steps env params s s' \<and> sys_world s' = w\<lparr>manager := count_response req r (manager w)\<rparr> \<and>
    sessions s' = (sessions s)(i \<mapsto> Writing (construct_http_response (enum_headers env) r)) \<and> crashed s' = None"
proof -
  let ?s = "set_phase i (Some (Counting req r)) (s\<lparr>sys_world := w\<rparr>)"
  have "sys_step env params s ?s" using assms by (rule handle)
  moreover have "sys_step env params ?s (written env i req r ?s)"
    using assms(1) by (intro written_step) (simp_all add: set_phase_def)
  ultimately have "sys_steps env params s (written env i req r ?s)"
    by (meson converse_rtranclp_into_rtranclp rtranclp.rtrancl_refl)
  then show ?thesis
    using assms(1) by (intro exI [of _ "written env i req r ?s"]) (simp add: written_def set_phase_def)
qed

lemma session_answers:
  assumes "crashed s = None" and "sessions s i = Some Reading" and "0 < length d" "length d \<le> max_length"
    and "handle_read env params (sys_world s) d = Returns (w', resp)"
  shows "\<exists>s'. sys_steps env params s s' \<and> sys_world s' = w' \<and>
    sessions s' = (sessions s)(i \<mapsto> Writing resp) \<and> crashed s' = None"
proof -
  let ?req = "parse_request_line (boost_trim env) d"
  let ?s = "set_phase i (Some (begin_request env params (sys_manager s) d)) s"
  have read: "sys_step env params s ?s" by (rule read_some) fact+
  show ?thesis
  proof (cases "is_valid ?req")
    case True
    obtain name config where find: "find_handler (handler_paths params) (path ?req) = (name, config)" by fastforce
    let ?h = "createByName (sys_manager s) name config (server_root params)"
    from assms(5) True find obtain w r where
      h: "HandleRequest env ?h (sys_world s) ?req = Returns (w, r)"
      and w': "w' = w\<lparr>manager := count_response ?req r (manager w)\<rparr>"
      and resp: "resp = construct_http_response (enum_headers env) r"
      by (auto simp: handle_read_def Let_def)
    have "\<exists>s'. sys_steps env params ?s s' \<and> sys_world s' = w' \<and>
        sessions s' = (sessions ?s)(i \<mapsto> Writing resp) \<and> crashed s' = None"
      unfolding w' resp
      by (rule valid_answered) (use True find h assms(1) in \<open>simp_all add: set_phase_def begin_request_def Let_def\<close>)
    with read show ?thesis by (auto simp: set_phase_def intro: converse_rtranclp_into_rtranclp)
  next
    case False
    then have "sys_step env params ?s (written env i ?req make_400_request ?s)"
      using assms(1) by (intro written_step) (simp_all add: set_phase_def begin_request_def Let_def)
    with read have "sys_steps env params s (written env i ?req make_400_request ?s)"
      by (meson converse_rtranclp_into_rtranclp rtranclp.rtrancl_refl)
    with False assms(1,5) show ?thesis
      by (intro exI [of _ "written env i ?req make_400_request ?s"])
        (auto simp: set_phase_def written_def handle_read_def Let_def)
  qed
qed

section \<open>Properties\<close>

text \<open>
  C9: Dispatch picks the shortest configured location that matches: the path itself, or a location
  followed by a slash at the start of the path. The map is visited in lexicographic order, in which
  a prefix comes first, so a handler for a more specific location below another one is never reached.
\<close>

theorem dispatch_shortest_location:
  assumes "map_ok m" and "loc \<in> fst ` set m" and "location_matches loc p"
  shows "\<exists>loc'. (loc', find_handler m p) \<in> set m \<and> location_matches loc' p \<and>
    (\<forall>l \<in> fst ` set m. location_matches l p \<longrightarrow> length loc' \<le> length l)"
  using find_handler_first [OF assms] location_le_shorter by blast

theorem dispatch_shortest_location_witness:
  "find_handler [(''/a'', ''echo'', NginxConfig []), (''/a/b'', ''static'', NginxConfig [])] ''/a/b/c'' =
     (''echo'', NginxConfig [])"
  using dispatch_shortest_location [of "[(''/a'', ''echo'', NginxConfig []), (''/a/b'', ''static'', NginxConfig [])]"
      "''/a/b''" "''/a/b/c''"]
  by (auto simp: location_matches_iff map_ok_def)

text \<open>
  A path that no location matches gets the 404 reply of the bad-request handler; in particular a
  handler at location \<open>/\<close> only serves the path \<open>/\<close> itself and paths that start with two slashes.
\<close>

theorem unmatched_path_404:
  assumes "is_valid (parse_request_line (boost_trim env) d)"
    and "\<forall>e \<in> set (handler_paths params). \<not> location_matches (fst e) (path (parse_request_line (boost_trim env) d))"
  shows "handle_read env params w d =
    (let req = parse_request_line (boost_trim env) d; r = bad_request_HandleRequest req
     in Returns (w\<lparr>manager := count_response req r (manager w)\<rparr>, construct_http_response (enum_headers env) r)) \<and>
    code (bad_request_HandleRequest (parse_request_line (boost_trim env) d)) = 404"
  using assms find_handler_none [OF assms(2)]
  by (simp add: handle_read_def createByName_def HandleRequest_def pure_reply_def Let_def bad_request_HandleRequest_def)

definition get_line :: "string \<Rightarrow> string" where
  "get_line p = ''GET '' @ p @ '' HTTP/1.1'' @ CRLF"

lemma parse_get_line:
  assumes "p \<noteq> []" and "SP \<notin> set p" and "NUL \<notin> set p"
  shows "is_valid (parse_request_line trim (get_line p)) \<and> path (parse_request_line trim (get_line p)) = p"
proof -
  have "c_str (get_line p) = ''GET'' @ SP # p @ SP # ''HTTP/1.1'' @ CRLF @ []"
    using assms by (simp add: get_line_def CRLF_def)
  moreover have "validate_http_version ''HTTP/1.1''"
    by (simp add: validate_http_version_def str_at_def isdigit_def)
  ultimately show ?thesis
    using parse_request_line_ok [of "get_line p" "''GET''" p "''HTTP/1.1''" "[]"] assms
    by (simp add: is_valid_def split: prod.splits)
qed

theorem unmatched_path_404_witness:
  "handle_read mini_env (default_config_params\<lparr>handler_paths := [(''/'', ''echo'', NginxConfig [])]\<rparr>) mini_world
     (get_line ''/x'') =
    (let req = parse_request_line strip (get_line ''/x''); r = bad_request_HandleRequest req
     in Returns (mini_world\<lparr>manager := count_response req r (manager mini_world)\<rparr>, construct_http_response rev r))"
  using unmatched_path_404 [of mini_env "get_line ''/x''"
      "default_config_params\<lparr>handler_paths := [(''/'', ''echo'', NginxConfig [])]\<rparr>" mini_world]
    parse_get_line [of "''/x''"]
  by (simp add: mini_env_def location_matches_iff)

lemma invalid_answered:
  assumes "\<not> is_valid (parse_request_line (boost_trim env) d)"
  shows "handle_read env params w d =
    Returns (w\<lparr>manager := (manager w)\<lparr>url_counter := bump_counter [] (url_counter (manager w)),
                 code_counter := bump_counter 400 (code_counter (manager w))\<rparr>\<rparr>,
             construct_http_response (enum_headers env) make_400_request)"
proof -
  have "path (parse_request_line (boost_trim env) d) = []"
    using assms
    by (auto simp: parse_request_line_def is_valid_def invalid_request_def Let_def
        split: option.splits prod.splits if_splits)
  with assms show ?thesis
    by (simp add: handle_read_def count_response_def make_400_request_def Let_def)
qed

lemma invalid_start:
  assumes "\<not> prefix ''GET '' d" and "\<not> prefix ''POST '' d" and "NUL \<notin> set d"
  shows "\<not> is_valid (parse_request_line trim d)"
proof
  assume "is_valid (parse_request_line trim d)"
  then obtain m r where "c_str d = m @ SP # r" "m = ''GET'' \<or> m = ''POST''"
    using parse_request_line_validD by (fastforce simp: is_valid_def)
  with assms show False by (auto simp: prefix_def)
qed

text \<open>
  C35: An invalid request is answered 400 by the session itself, without a handler. It is counted under
  the empty path, because the request object of an invalid request has none.
\<close>

theorem invalid_request_400:
  assumes "\<not> is_valid (parse_request_line (boost_trim env) d)"
  shows "handle_read env params w d =
    Returns (w\<lparr>manager := (manager w)\<lparr>url_counter := bump_counter [] (url_counter (manager w)),
                 code_counter := bump_counter 400 (code_counter (manager w))\<rparr>\<rparr>,
             construct_http_response (enum_headers env) make_400_request)"
  using assms by (rule invalid_answered)

theorem invalid_request_400_witness:
  "handle_read mini_env default_config_params mini_world ''PUT / HTTP/1.1'' =
    Returns (mini_world\<lparr>manager := (manager mini_world)\<lparr>url_counter := bump_counter [] (url_counter (manager mini_world)),
                 code_counter := bump_counter 400 (code_counter (manager mini_world))\<rparr>\<rparr>,
             construct_http_response (enum_headers mini_env) make_400_request)"
  by (rule invalid_request_400) (simp add: is_valid_def parse_request_line_def c_str_def invalid_request_def)


lemma replicate_no_prefix: "x \<noteq> y \<Longrightarrow> \<not> prefix (x # xs) (replicate n y)"
  by (cases n) simp_all




end
