(* ===== verification/Session_System.thy ===== *)
theory Session_System
  imports Session
begin

text \<open>
  Invariants of the interleaved sessions: what every state the server can reach has in common, for
  every scheduling of its sessions, every input and every behaviour of the outside.
\<close>

text \<open>The shape of an invariance argument, for any step relation.\<close>

locale step_invariant =
  fixes step :: "'s \<Rightarrow> 's \<Rightarrow> bool" and inv :: "'s \<Rightarrow> bool"
  assumes inv_step: "inv s \<Longrightarrow> step s s' \<Longrightarrow> inv s'"
begin

lemma inv_steps: "step\<^sup>*\<^sup>* s s' \<Longrightarrow> inv s \<Longrightarrow> inv s'"
  by (induction rule: rtranclp_induct) (auto intro: inv_step)

end

lemma phase_simps [simp]:
  "sessions (set_phase i p s) = (sessions s)(i := p)" "sys_world (set_phase i p s) = sys_world s"
  "next_session (set_phase i p s) = next_session s" "crashed (set_phase i p s) = crashed s"
  "served (set_phase i p s) = served s"
  "sessions (start_accept s) = (sessions s)(next_session s \<mapsto> Accepting)"
  "next_session (start_accept s) = Suc (next_session s)" "sys_world (start_accept s) = sys_world s"
  "crashed (start_accept s) = crashed s" "served (start_accept s) = served s"
  by (simp_all add: set_phase_def start_accept_def)

lemma handle_simps [simp]:
  "handle_accept i True (Some ip) s = start_accept (set_phase i (Some Reading) s)"
  "handle_accept i True None s = s\<lparr>crashed := Some NotConnected\<rparr>"
  "handle_accept i False peer s = start_accept (set_phase i None s)"
  "handle_write i True s = set_phase i (Some Reading) s" "handle_write i False s = set_phase i None s"
  by (simp_all add: handle_accept_def session_start_def get_remote_ip_def handle_write_def)

section \<open>One pending accept\<close>

definition listening :: "('db, 'net) system \<Rightarrow> bool" where
  "listening s \<longleftrightarrow>
     (\<forall>i. next_session s \<le> i \<longrightarrow> sessions s i = None) \<and> (\<exists>!i. sessions s i = Some Accepting)"

lemma begin_request_cases:
  "(\<exists>req h. begin_request env params m d = Handling req h) \<or>
   (\<exists>req. begin_request env params m d = Counting req make_400_request)"
  by (auto simp: begin_request_def Let_def split: prod.splits)

lemma begin_request_not [simp]:
  "begin_request env params m d \<noteq> Accepting" "begin_request env params m d \<noteq> Reading"
  "begin_request env params m d \<noteq> Writing resp"
  using begin_request_cases [of env params m d] by auto

text \<open>A session that waits for nothing from the acceptor may change its phase or go away.\<close>

lemma listening_other:
  assumes "listening s" and "sessions s i = Some p" and "p \<noteq> Accepting" and "q \<noteq> Some Accepting"
    and "sessions s' = sessions s" and "next_session s' = next_session s"
  shows "listening (set_phase i q s')"
proof -
  have "i < next_session s" using assms(1,2) by (auto simp: listening_def not_less [symmetric])
  moreover have "sessions (set_phase i q s') j = Some Accepting \<longleftrightarrow> sessions s j = Some Accepting" for j
    using assms(2-5) by auto
  ultimately show ?thesis using assms(1,5,6) by (auto simp: listening_def)
qed

lemma listening_accepted:
  assumes "listening s" and "sessions s i = Some Accepting" and "q \<noteq> Some Accepting"
  shows "listening (start_accept (set_phase i q s))"
proof -
  have i: "i < next_session s" using assms(1,2) by (auto simp: listening_def not_less [symmetric])
  have only: "sessions s j = Some Accepting \<longleftrightarrow> j = i" for j
    using assms(1,2) by (auto simp: listening_def)
  have "sessions (start_accept (set_phase i q s)) j = Some Accepting \<longleftrightarrow> j = next_session s" for j
    using assms(3) i by (auto simp: only)
  moreover have "\<forall>j. Suc (next_session s) \<le> j \<longrightarrow> sessions (start_accept (set_phase i q s)) j = None"
    using assms(1) i by (auto simp: listening_def)
  ultimately show ?thesis by (simp add: listening_def del: fun_upd_apply)
qed

lemma listening_step: "sys_step env params s s' \<Longrightarrow> listening s \<Longrightarrow> listening s'"
proof (induction rule: sys_step.induct)
  case (accept s i)
  then show ?case by (simp add: listening_accepted)
next
  case (accept_gone s i)
  then show ?case by (simp add: listening_def)
next
  case (accept_error s i)
  then show ?case by (simp add: listening_accepted)
next
  case (handle_fault s i req h f)
  then show ?case by (simp add: listening_def)
qed (simp only: handle_simps, erule listening_other, assumption, simp, simp, simp, simp |
    erule listening_other, assumption, simp, simp, simp, simp)+

section \<open>The counters\<close>

definition counted :: "('db, 'net) system \<Rightarrow> bool" where
  "counted s \<longleftrightarrow>
     url_counter (sys_manager s) = fold bump_counter (map fst (served s)) [] \<and>
     code_counter (sys_manager s) = fold bump_counter (map snd (served s)) []"

lemma counted_step: "sys_step env params s s' \<Longrightarrow> counted s \<Longrightarrow> counted s'"
  by (induction rule: sys_step.induct)
    (auto simp: counted_def count_response_def HandleRequest_manager)

lemma counted_totals:
  assumes "counted s"
  shows "count_of (url_counter (sys_manager s)) p = int (count_list (map fst (served s)) p)"
    and "count_of (code_counter (sys_manager s)) c = int (count_list (map snd (served s)) c)"
    and "total_count (url_counter (sys_manager s)) = int (length (served s))"
    and "total_count (code_counter (sys_manager s)) = int (length (served s))"
  using assms by (simp_all add: counted_def counter.count_bumps counter.total_bumps)

section \<open>The phases\<close>

definition created :: "config_params \<Rightarrow> request \<Rightarrow> handler \<Rightarrow> bool" where
  "created params req h \<longleftrightarrow>
     (\<exists>m. manager_ready m \<and>
        h = (case find_handler (handler_paths params) (path req) of (name, config) \<Rightarrow>
               createByName m name config (server_root params)))"

definition phase_ok :: "('db, 'net) env \<Rightarrow> config_params \<Rightarrow> phase \<Rightarrow> bool" where
  "phase_ok env params p =
     (case p of
        Handling req h \<Rightarrow> CR \<notin> set (http_version req) \<and> created params req h
      | Counting req r \<Rightarrow> CR \<notin> set (http_version req) \<and> reply_ok req r
      | Writing resp \<Rightarrow> \<exists>req r. CR \<notin> set (http_version req) \<and> reply_ok req r \<and>
          resp = construct_http_response (enum_headers env) r
      | _ \<Rightarrow> True)"

definition phases_ok :: "('db, 'net) env \<Rightarrow> config_params \<Rightarrow> ('db, 'net) system \<Rightarrow> bool" where
  "phases_ok env params s \<longleftrightarrow>
     manager_ready (sys_manager s) \<and> (\<forall>i p. sessions s i = Some p \<longrightarrow> phase_ok env params p)"

lemma phases_okD:
  "phases_ok env params s \<Longrightarrow> sessions s i = Some (Handling req h) \<Longrightarrow>
     CR \<notin> set (http_version req) \<and> created params req h"
  "phases_ok env params s \<Longrightarrow> sessions s i = Some (Counting req r) \<Longrightarrow>
     CR \<notin> set (http_version req) \<and> reply_ok req r"
  "phases_ok env params s \<Longrightarrow> sessions s i = Some (Writing resp) \<Longrightarrow>
     \<exists>req r. CR \<notin> set (http_version req) \<and> reply_ok req r \<and>
       resp = construct_http_response (enum_headers env) r"
  by (fastforce simp: phases_ok_def phase_ok_def)+

lemma find_handler_location:
  assumes "find_handler (handler_paths (config_params c)) p = (name, config)"
  shows "prefix (get_key_value config ''location'') p"
proof (cases "\<exists>e \<in> set (handler_paths (config_params c)). location_matches (fst e) p")
  case True
  then obtain loc where "(loc, name, config) \<in> set (handler_paths (config_params c))" "location_matches loc p"
    using find_handler_some assms by metis
  then show ?thesis
    using handler_paths_location(1) [of loc name config c] location_matches_prefix
    by (simp add: config_params_def Let_def)
next
  case False
  then have "config = NginxConfig []" using find_handler_none assms by fastforce
  then show ?thesis by (simp add: get_key_value_def)
qed

lemma invalid_request_version:
  "\<not> is_valid (parse_request_line trim d) \<Longrightarrow> parse_request_line trim d = invalid_request (c_str d)"
  by (auto simp: parse_request_line_def is_valid_def Let_def split: option.splits prod.splits if_splits)

lemma parsed_version_no_CR: "CR \<notin> set (http_version (parse_request_line trim d))"
  using version_no_CR
  by (auto simp: parse_request_line_def invalid_request_def Let_def split: option.splits prod.splits)

lemma begin_request_ok:
  assumes "manager_ready m"
  shows "phase_ok env (config_params c) (begin_request env (config_params c) m d)"
proof (cases "is_valid (parse_request_line (boost_trim env) d)")
  case True
  obtain name config where find: "find_handler (handler_paths (config_params c))
      (path (parse_request_line (boost_trim env) d)) = (name, config)" by fastforce
  with True assms parsed_version_no_CR show ?thesis
    by (auto simp: begin_request_def phase_ok_def created_def Let_def)
next
  case False
  from invalid_request_version [OF this] False show ?thesis
    using reply_ok_make [of 400 "''text/plain''" "invalid_request (c_str d)" "''400 Bad Request''"]
    by (simp add: begin_request_def phase_ok_def make_400_request_def invalid_request_def known_mime_types_def Let_def)
qed

lemma count_response_ready [simp]: "manager_ready (count_response req r m) = manager_ready m"
  by (simp add: manager_ready_def count_response_def)

lemma phases_step:
  "sys_step env (config_params c) s s' \<Longrightarrow> phases_ok env (config_params c) s \<Longrightarrow> phases_ok env (config_params c) s'"
proof (induction rule: sys_step.induct)
  case (read_some s i d)
  then show ?case using begin_request_ok [of "sys_manager s" env c d] by (auto simp: phases_ok_def)
next
  case (handle s i req h w r)
  have "reply_ok req r" "manager w = sys_manager s"
    using any.handle_reply_ok [OF handle(3)] HandleRequest_manager [OF handle(3)] by simp_all
  moreover have "CR \<notin> set (http_version req)" using handle phases_okD(1) by blast
  ultimately show ?case using handle by (auto simp: phases_ok_def phase_ok_def)
next
  case (count_served s i req r)
  then have "CR \<notin> set (http_version req)" "reply_ok req r" by (blast dest: phases_okD)+
  with count_served show ?case by (auto simp: phases_ok_def phase_ok_def)
qed (auto simp: phases_ok_def phase_ok_def)

section \<open>Crashes\<close>

text \<open>What the handler of a session can do, and which configurations exclude it.\<close>

definition handler_types :: "config_params \<Rightarrow> string set" where
  "handler_types params = (\<lambda>e. fst (snd e)) ` set (handler_paths params)"

lemma find_handler_type:
  "find_handler (handler_paths params) p = (name, config) \<Longrightarrow> name = [] \<or> name \<in> handler_types params"
proof (cases "\<exists>e \<in> set (handler_paths params). location_matches (fst e) p")
  case True
  moreover assume "find_handler (handler_paths params) p = (name, config)"
  ultimately obtain loc where "(loc, name, config) \<in> set (handler_paths params)"
    using find_handler_some by metis
  then show ?thesis by (force simp: handler_types_def)
next
  case False
  moreover assume "find_handler (handler_paths params) p = (name, config)"
  ultimately show ?thesis using find_handler_none by fastforce
qed

lemma created_faults:
  assumes "created (config_params c) req h" and "HandleRequest env h w req = Faults f"
  shows "f \<in> input_faults \<and> ''meme'' \<in> handler_types (config_params c)"
proof -
  obtain name config where find: "find_handler (handler_paths (config_params c)) (path req) = (name, config)"
    by fastforce
  with assms(1) obtain m where "manager_ready m" "h = createByName m name config (server_root (config_params c))"
    by (auto simp: created_def)
  with created_handler_faults [of m config req env name _ w f] find_handler_location [OF find] assms(2)
  have "name = ''meme''" "f \<in> input_faults" by auto
  with find_handler_type [OF find] show ?thesis by auto
qed

lemma created_diverges:
  assumes "created params req h" and "HandleRequest env h w req = Diverges"
  shows "''proxy'' \<in> handler_types params"
proof -
  obtain name config where find: "find_handler (handler_paths params) (path req) = (name, config)"
    by fastforce
  with assms created_handler_diverges have "name = ''proxy''" by (fastforce simp: created_def)
  with find_handler_type [OF find] show ?thesis by auto
qed

definition crash_ok :: "config_params \<Rightarrow> ('db, 'net) system \<Rightarrow> bool" where
  "crash_ok params s \<longleftrightarrow>
     (\<forall>f. crashed s = Some f \<longrightarrow> f = NotConnected \<or> (f \<in> input_faults \<and> ''meme'' \<in> handler_types params))"

lemma crash_step:
  "sys_step env (config_params c) s s' \<Longrightarrow> phases_ok env (config_params c) s \<Longrightarrow> crash_ok (config_params c) s \<Longrightarrow>
     crash_ok (config_params c) s'"
proof (induction rule: sys_step.induct)
  case (handle_fault s i req h f)
  then have "created (config_params c) req h" by (blast dest: phases_okD)
  with created_faults [OF this handle_fault(3)] show ?case by (simp add: crash_ok_def)
qed (simp_all add: crash_ok_def)

section \<open>The codes\<close>

definition codes_ok :: "('db, 'net) system \<Rightarrow> bool" where
  "codes_ok s \<longleftrightarrow> snd ` set (served s) \<subseteq> {200, 400, 404}"

lemma codes_step:
  "sys_step env params s s' \<Longrightarrow> phases_ok env params s \<Longrightarrow> codes_ok s \<Longrightarrow> codes_ok s'"
proof (induction rule: sys_step.induct)
  case (count_served s i req r)
  then have "reply_ok req r" by (blast dest: phases_okD)
  with count_served show ?case by (auto simp: codes_ok_def reply_ok_def)
qed (simp_all add: codes_ok_def)

definition sys_inv :: "('db, 'net) env \<Rightarrow> NginxConfig \<Rightarrow> ('db, 'net) system \<Rightarrow> bool" where
  "sys_inv env c s \<longleftrightarrow>
     listening s \<and> counted s \<and> codes_ok s \<and> phases_ok env (config_params c) s \<and> crash_ok (config_params c) s"

interpretation sys: step_invariant "sys_step env (config_params c)" "sys_inv env c" for env c
  by unfold_locales (auto simp: sys_inv_def intro: listening_step counted_step codes_step phases_step crash_step)

lemma sys_inv_init:
  assumes "manager_ready (manager w)" and "url_counter (manager w) = []" and "code_counter (manager w) = []"
  shows "sys_inv env c (init_system w)"
  using assms
  by (auto simp: sys_inv_def init_system_def listening_def counted_def codes_ok_def phases_ok_def phase_ok_def crash_ok_def)

section \<open>Progress\<close>

text \<open>A session inside \<open>handle_read\<close> can go on to its response when its handler returns.\<close>

lemma counting_proceeds:
  assumes "crashed s = None" and "sessions s i = Some (Counting req r)"
  shows "\<exists>s' resp. sys_steps env params s s' \<and> sessions s' i = Some (Writing resp)"
  using r_into_rtranclp [of "sys_step env params", OF count_served [OF assms]] by fastforce

lemma handling_proceeds:
  assumes "crashed s = None" and "sessions s i = Some (Handling req h)"
    and "HandleRequest env h (sys_world s) req = Returns (w, r)"
  shows "\<exists>s' resp. sys_steps env params s s' \<and> sessions s' i = Some (Writing resp)"
proof -
  let ?s = "set_phase i (Some (Counting req r)) (s\<lparr>sys_world := w\<rparr>)"
  have "sys_step env params s ?s" using assms by (rule handle)
  moreover obtain s' resp where "sys_steps env params ?s s'" "sessions s' i = Some (Writing resp)"
    using counting_proceeds [of ?s i req r env params] assms(1) by auto
  ultimately show ?thesis by (blast intro: converse_rtranclp_into_rtranclp)
qed

lemma created_status:
  assumes "created params req (Status_handler h)"
  shows "url_counter_ptr h = Some url_counter \<and> code_counter_ptr h = Some code_counter \<and>
    (\<exists>paths. paths_map_ptr h = Some paths)"
proof -
  obtain name config where "find_handler (handler_paths params) (path req) = (name, config)" by fastforce
  with assms obtain m where "manager_ready m"
    "createByName m name config (server_root params) = Status_handler h" by (auto simp: created_def)
  with createByName_pointers(1) show ?thesis by (fastforce simp: manager_ready_def)
qed

end
