(* ===== verification/Server.thy ===== *)
theory Server
  imports Session_System
begin

text \<open>
  \<^verbatim>\<open>include/server.h\<close>, \<^verbatim>\<open>src/server.cc\<close> and \<^verbatim>\<open>src/server_main.cc\<close>: reading the configuration,
  opening the acceptor and the database, and the way the program starts or gives up. The
  operating system is the argument \<open>os\<close>: the content of configuration files, the ports that
  can be bound (the constructor of the acceptor throws otherwise) and the result of
  \<open>sqlite3_open\<close>.
\<close>

record 'db os =
  config_file :: "string \<Rightarrow> string option"
  can_listen :: "nat \<Rightarrow> bool"
  open_db :: "'db option"

record server =
  acceptor :: "nat option"
  server_params :: config_params
  server_manager :: handler_manager

definition set_config_params :: "'db os \<Rightarrow> string \<Rightarrow> config_params" where
  "set_config_params os file_name =
     (case Parse_file (config_file os) file_name of
        Parsed config \<Rightarrow> config_params config
      | _ \<Rightarrow> default_config_params)"

text \<open>The constructor; \<open>None\<close> is the exception of the acceptor's constructor.\<close>

definition server_create :: "'db os \<Rightarrow> string \<Rightarrow> server option" where
  "server_create os file_name =
     (let p = set_config_params os file_name;
          m = setHandlerPathsPtr (handler_paths p) new_handler_manager
      in if port p = -1 then Some \<lparr>acceptor = None, server_params = p, server_manager = m\<rparr>
         else if can_listen os (unat (port p)) then
           Some \<lparr>acceptor = Some (unat (port p)), server_params = p, server_manager = m\<rparr>
         else None)"

definition create_table_sql :: string where
  "create_table_sql =
     ''CREATE TABLE MEMES('' @
     ''ID INT PRIMARY KEY     NOT NULL,'' @
     ''TEMPLATE       TEXT    NOT NULL,'' @
     ''TOP            TEXT    NOT NULL,'' @
     ''BOTTOM         TEXT    NOT NULL);''"

text \<open>\<open>None\<close> is the result \<open>false\<close>; otherwise the server and the open database.\<close>

definition init_sqlite3 :: "('db, 'net) env \<Rightarrow> 'db os \<Rightarrow> server \<Rightarrow> (server \<times> 'db) option" where
  "init_sqlite3 env os s =
     (case open_db os of
        None \<Rightarrow> None
      | Some db \<Rightarrow>
          (case sqlite3_exec env db (c_str create_table_sql) of (db', rows, err) \<Rightarrow>
             if err \<noteq> None then None
             else Some (s\<lparr>server_manager := (server_manager s)\<lparr>manager_db := DbHandle\<rparr>\<rparr>, db')))"

definition server_init :: "('db, 'net) env \<Rightarrow> 'db os \<Rightarrow> 'net \<Rightarrow> server \<Rightarrow> ('db, 'net) system option" where
  "server_init env os net s =
     (if acceptor s \<noteq> None then
        (case init_sqlite3 env os s of
           Some (s', db) \<Rightarrow>
             Some (init_system \<lparr>manager = server_manager s', memes = \<lparr>meme_count = 0, meme_db = db\<rparr>, network = net\<rparr>)
         | None \<Rightarrow> None)
      else None)"

definition server_kill :: "server \<Rightarrow> bool" where
  "server_kill s \<longleftrightarrow> acceptor s \<noteq> None"

text \<open>\<open>main\<close>: the exit code, or the server whose sessions the thread pool then runs.\<close>

datatype ('db, 'net) run = Exit int | Runs config_params "('db, 'net) system"

definition EXIT_FAILURE :: int where
  "EXIT_FAILURE = 1"

definition server_main :: "('db, 'net) env \<Rightarrow> 'db os \<Rightarrow> 'net \<Rightarrow> int \<Rightarrow> string \<Rightarrow> ('db, 'net) run" where
  "server_main env os net argc file_name =
     (if argc \<noteq> 2 then Exit 1
      else case server_create os file_name of
        None \<Rightarrow> Exit EXIT_FAILURE
      | Some s \<Rightarrow>
          (case server_init env os net s of
             Some sys \<Rightarrow> Runs (server_params s) sys
           | None \<Rightarrow> Exit EXIT_FAILURE))"

section \<open>Starting\<close>

lemma set_config_params_port:
  "port (set_config_params os file_name) \<noteq> -1 \<Longrightarrow>
     \<exists>text c. config_file os file_name = Some text \<and> Parse text = Parsed c \<and>
       set_config_params os file_name = config_params c"
  by (auto simp: set_config_params_def Parse_file_def default_config_params_def
      split: option.splits parse_result.splits)

lemma server_main_Runs:
  assumes "server_main env os net argc file_name = Runs params s"
  shows "\<exists>c. params = config_params c \<and> sys_inv env c s"
proof -
  let ?p = "set_config_params os file_name"
  from assms have port: "port ?p \<noteq> -1" and params: "params = ?p"
    by (auto simp: server_main_def server_create_def server_init_def Let_def split: if_splits option.splits)
  from assms obtain db where "s = init_system \<lparr>manager = \<lparr>url_counter = [], code_counter = [],
      manager_paths = Some (handler_paths ?p), manager_db = DbHandle\<rparr>,
      memes = \<lparr>meme_count = 0, meme_db = db\<rparr>, network = net\<rparr>"
    by (auto simp: server_main_def server_create_def server_init_def init_sqlite3_def Let_def
        setHandlerPathsPtr_def new_handler_manager_def split: if_splits option.splits prod.splits)
  then have "sys_inv env c s" for c
    by (simp add: sys_inv_init manager_ready_def)
  moreover from set_config_params_port [OF port] params obtain c where "params = config_params c" by auto
  ultimately show ?thesis by blast
qed

text \<open>A state the program can be in after it has been started with a configuration file.\<close>

definition running :: "('db, 'net) env \<Rightarrow> 'db os \<Rightarrow> 'net \<Rightarrow> string \<Rightarrow> config_params \<Rightarrow> ('db, 'net) system \<Rightarrow> bool" where
  "running env os net file_name params s \<longleftrightarrow>
     (\<exists>s0. server_main env os net 2 file_name = Runs params s0 \<and> sys_steps env params s0 s)"

lemma running_inv:
  assumes "running env os net file_name params s"
  shows "\<exists>c. params = config_params c \<and> sys_inv env c s"
proof -
  from assms obtain s0 where main: "server_main env os net 2 file_name = Runs params s0"
    and steps: "sys_steps env params s0 s" by (auto simp: running_def)
  from server_main_Runs [OF main] obtain c where "params = config_params c" "sys_inv env c s0" by blast
  with sys.inv_steps [of env c s0 s] steps show ?thesis by blast
qed

section \<open>Properties\<close>


end
