(* ===== verification/Thread_Pool.thy ===== *)
theory Thread_Pool
  imports Server
begin

text \<open>
  The threads behind the sessions: \<open>main\<close> (\<^verbatim>\<open>src/server_main.cc\<close>) runs the I/O service on
  twenty threads and on its own, and \<open>handle_read\<close> (\<^verbatim>\<open>src/session.cc\<close>) guards what the sessions share
  with the mutex \<open>mtx\<close>. Here every lock, every unlock and each of the two counter updates is a step of its own.
  The mutex makes these steps an implementation of the atomic steps of \<open>sys_step\<close>, but
  for the status page, which reads the counters without taking it.
\<close>

section \<open>Tasks\<close>

text \<open>
  What a session waits for or what its thread does next. The tasks named \<open>Lock_\<close> wait for the
  mutex; those between a lock and the matching unlock hold it.
\<close>

datatype task =
    Accept_wait                              \<comment> \<open>\<open>async_accept\<close> is pending\<close>
  | Read_wait                                \<comment> \<open>\<open>async_read_some\<close> is pending\<close>
  | Lock_create request string NginxConfig   \<comment> \<open>a handler has been found for the request\<close>
  | In_create request string NginxConfig
  | Created request handler                  \<comment> \<open>\<open>createByName\<close> has returned\<close>
  | Run_handler request handler
  | Lock_count request reply
  | In_count_url request reply
  | In_count_code request reply              \<comment> \<open>the path has been counted\<close>
  | Counted request reply
  | Lock_write string                        \<comment> \<open>\<open>http_response\<close> has been built\<close>
  | In_write string
  | Write_wait string nat                    \<comment> \<open>\<open>async_write\<close> is pending, so many bytes have been sent\<close>

fun holds_mtx :: "task \<Rightarrow> bool" where
  "holds_mtx (In_create req name config) = True"
| "holds_mtx (Created req h) = True"
| "holds_mtx (In_count_url req r) = True"
| "holds_mtx (In_count_code req r) = True"
| "holds_mtx (Counted req r) = True"
| "holds_mtx (In_write resp) = True"
| "holds_mtx p = False"

fun waits_mtx :: "task \<Rightarrow> bool" where
  "waits_mtx (Lock_create req name config) = True"
| "waits_mtx (Lock_count req r) = True"
| "waits_mtx (Lock_write resp) = True"
| "waits_mtx p = False"

fun locked :: "task \<Rightarrow> task" where
  "locked (Lock_create req name config) = In_create req name config"
| "locked (Lock_count req r) = In_count_url req r"
| "locked (Lock_write resp) = In_write resp"
| "locked p = p"

text \<open>Tasks that occupy a thread.\<close>

fun on_thread :: "task \<Rightarrow> bool" where
  "on_thread Accept_wait = False"
| "on_thread Read_wait = False"
| "on_thread (Write_wait resp n) = False"
| "on_thread p = True"

section \<open>The pool\<close>

text \<open>
  How the process ends: by a fault of one of its threads, or with an exit code. An exception that leaves the I/O
  service is caught on the main thread, which then exits, and terminates the process on the others;
  both are \<open>Crash\<close>.
\<close>

datatype fate = Crash fault | Exited int

text \<open>
  Who holds the mutex: the thread of a session's task, or the thread that has started the write of a
  session and is about to leave \<open>handle_read\<close>. The write can complete, and the session go on, before
  that thread does.
\<close>

datatype holder = Task nat | Returning nat

record ('db, 'net) pool =
  pool_world :: "('db, 'net) world"
  tasks :: "nat \<Rightarrow> task option"
  pool_next :: nat
  mtx :: "holder option"
  buffers :: "nat set"       \<comment> \<open>sessions whose local string \<open>http_response\<close> is alive\<close>
  ended :: "fate option"
  pool_served :: "(string \<times> int) list"

definition THREAD_POOL_SIZE :: nat where
  "THREAD_POOL_SIZE = 20"

text \<open>The threads that run the I/O service: those of the pool and the main thread.\<close>

definition threads :: nat where
  "threads = THREAD_POOL_SIZE + 1"

definition busy :: "('db, 'net) pool \<Rightarrow> nat set" where
  "busy s = {i. \<exists>p. tasks s i = Some p \<and> on_thread p}"

definition returning :: "('db, 'net) pool \<Rightarrow> nat" where
  "returning s = (case mtx s of Some (Returning i) \<Rightarrow> 1 | _ \<Rightarrow> 0)"

definition thread_free :: "('db, 'net) pool \<Rightarrow> bool" where
  "thread_free s \<longleftrightarrow> card (busy s) + returning s < threads"

definition set_task :: "nat \<Rightarrow> task option \<Rightarrow> ('db, 'net) pool \<Rightarrow> ('db, 'net) pool" where
  "set_task i p s = s\<lparr>tasks := (tasks s)(i := p)\<rparr>"

definition pool_accept :: "('db, 'net) pool \<Rightarrow> ('db, 'net) pool" where
  "pool_accept s =
     s\<lparr>tasks := (tasks s)(pool_next s \<mapsto> Accept_wait), pool_next := Suc (pool_next s)\<rparr>"

definition got_signal :: "('db, 'net) pool \<Rightarrow> ('db, 'net) pool" where
  "got_signal s = s\<lparr>ended := Some (Exited 0)\<rparr>"

abbreviation pool_manager :: "('db, 'net) pool \<Rightarrow> handler_manager" where
  "pool_manager s \<equiv> manager (pool_world s)"

text \<open>The two updates inside the critical section, on the manager of the shared world.\<close>

definition count_url :: "string \<Rightarrow> ('db, 'net) world \<Rightarrow> ('db, 'net) world" where
  "count_url p w = w\<lparr>manager := (manager w)\<lparr>url_counter := bump_counter p (url_counter (manager w))\<rparr>\<rparr>"

definition count_code :: "int \<Rightarrow> ('db, 'net) world \<Rightarrow> ('db, 'net) world" where
  "count_code c w = w\<lparr>manager := (manager w)\<lparr>code_counter := bump_counter c (code_counter (manager w))\<rparr>\<rparr>"

text \<open>What \<open>handle_read\<close> does before it needs the mutex.\<close>

definition after_read :: "('db, 'net) env \<Rightarrow> config_params \<Rightarrow> string \<Rightarrow> task" where
  "after_read env params data_copy =
     (let req = parse_request_line (boost_trim env) data_copy
      in if is_valid req then
           (case find_handler (handler_paths params) (path req) of (name, config) \<Rightarrow> Lock_create req name config)
         else Lock_count req make_400_request)"

inductive pool_step :: "('db, 'net) env \<Rightarrow> config_params \<Rightarrow> ('db, 'net) pool \<Rightarrow> ('db, 'net) pool \<Rightarrow> bool"
  for env params where
  signal: "ended s = None \<Longrightarrow> pool_step env params s (got_signal s)"
| accepted: "ended s = None \<Longrightarrow> thread_free s \<Longrightarrow> tasks s i = Some Accept_wait \<Longrightarrow>
    pool_step env params s (pool_accept (set_task i (Some Read_wait) s))"
| accepted_gone: "ended s = None \<Longrightarrow> thread_free s \<Longrightarrow> tasks s i = Some Accept_wait \<Longrightarrow>
    pool_step env params s (s\<lparr>ended := Some (Crash NotConnected)\<rparr>)"
| accept_failed: "ended s = None \<Longrightarrow> thread_free s \<Longrightarrow> tasks s i = Some Accept_wait \<Longrightarrow>
    pool_step env params s (pool_accept (set_task i None s))"
| was_read: "ended s = None \<Longrightarrow> thread_free s \<Longrightarrow> tasks s i = Some Read_wait \<Longrightarrow>
    0 < length d \<Longrightarrow> length d \<le> max_length \<Longrightarrow>
    pool_step env params s (set_task i (Some (after_read env params d)) s)"
| read_failed: "ended s = None \<Longrightarrow> thread_free s \<Longrightarrow> tasks s i = Some Read_wait \<Longrightarrow>
    pool_step env params s (set_task i None s)"
| lock: "ended s = None \<Longrightarrow> mtx s = None \<Longrightarrow> tasks s i = Some p \<Longrightarrow> waits_mtx p \<Longrightarrow>
    pool_step env params s (set_task i (Some (locked p)) (s\<lparr>mtx := Some (Task i)\<rparr>))"
| create: "ended s = None \<Longrightarrow> tasks s i = Some (In_create req name config) \<Longrightarrow>
    pool_step env params s
      (set_task i (Some (Created req (createByName (pool_manager s) name config (server_root params)))) s)"
| unlock_created: "ended s = None \<Longrightarrow> tasks s i = Some (Created req h) \<Longrightarrow>
    pool_step env params s (set_task i (Some (Run_handler req h)) (s\<lparr>mtx := None\<rparr>))"
| handled: "ended s = None \<Longrightarrow> tasks s i = Some (Run_handler req h) \<Longrightarrow>
    HandleRequest env h (pool_world s) req = Returns (w, r) \<Longrightarrow>
    pool_step env params s (set_task i (Some (Lock_count req r)) (s\<lparr>pool_world := w\<rparr>))"
| handler_fault: "ended s = None \<Longrightarrow> tasks s i = Some (Run_handler req h) \<Longrightarrow>
    HandleRequest env h (pool_world s) req = Faults f \<Longrightarrow>
    pool_step env params s (s\<lparr>ended := Some (Crash f)\<rparr>)"
| url_counted: "ended s = None \<Longrightarrow> tasks s i = Some (In_count_url req r) \<Longrightarrow>
    pool_step env params s
      (set_task i (Some (In_count_code req r))
        (s\<lparr>pool_world := count_url (path req) (pool_world s), pool_served := pool_served s @ [(path req, code r)]\<rparr>))"
| code_counted: "ended s = None \<Longrightarrow> tasks s i = Some (In_count_code req r) \<Longrightarrow>
    pool_step env params s
      (set_task i (Some (Counted req r)) (s\<lparr>pool_world := count_code (code r) (pool_world s)\<rparr>))"
| unlock_counted: "ended s = None \<Longrightarrow> tasks s i = Some (Counted req r) \<Longrightarrow>
    pool_step env params s
      (set_task i (Some (Lock_write (construct_http_response (enum_headers env) r)))
        (s\<lparr>mtx := None, buffers := insert i (buffers s)\<rparr>))"
| start_write: "ended s = None \<Longrightarrow> tasks s i = Some (In_write resp) \<Longrightarrow> n \<le> length resp \<Longrightarrow>
    pool_step env params s (set_task i (Some (Write_wait resp n)) (s\<lparr>mtx := Some (Returning i)\<rparr>))"
| unlock_write: "ended s = None \<Longrightarrow> mtx s = Some (Returning i) \<Longrightarrow>
    pool_step env params s (s\<lparr>mtx := None, buffers := buffers s - {i}\<rparr>)"
| write_more: "ended s = None \<Longrightarrow> thread_free s \<Longrightarrow> tasks s i = Some (Write_wait resp n) \<Longrightarrow>
    n < k \<Longrightarrow> k \<le> length resp \<Longrightarrow> i \<in> buffers s \<Longrightarrow>
    pool_step env params s (set_task i (Some (Write_wait resp k)) s)"
| write_dangling: "ended s = None \<Longrightarrow> thread_free s \<Longrightarrow> tasks s i = Some (Write_wait resp n) \<Longrightarrow>
    n < length resp \<Longrightarrow> i \<notin> buffers s \<Longrightarrow>
    pool_step env params s (s\<lparr>ended := Some (Crash UseAfterFree)\<rparr>)"
| written_all: "ended s = None \<Longrightarrow> thread_free s \<Longrightarrow> tasks s i = Some (Write_wait resp (length resp)) \<Longrightarrow>
    pool_step env params s (set_task i (Some Read_wait) s)"
| write_failed: "ended s = None \<Longrightarrow> thread_free s \<Longrightarrow> tasks s i = Some (Write_wait resp n) \<Longrightarrow>
    pool_step env params s (set_task i None s)"

abbreviation pool_steps :: "('db, 'net) env \<Rightarrow> config_params \<Rightarrow> ('db, 'net) pool \<Rightarrow> ('db, 'net) pool \<Rightarrow> bool" where
  "pool_steps env params \<equiv> (pool_step env params)\<^sup>*\<^sup>*"

text \<open>The pool when \<open>main\<close> has started its threads.\<close>

definition start_pool :: "('db, 'net) system \<Rightarrow> ('db, 'net) pool" where
  "start_pool s = pool_accept
     \<lparr>pool_world = sys_world s, tasks = (\<lambda>i. None), pool_next = 0, mtx = None, buffers = {}, ended = None,
      pool_served = []\<rparr>"

lemma pool_simps [simp]:
  "tasks (set_task i p s) = (tasks s)(i := p)" "pool_world (set_task i p s) = pool_world s"
  "pool_next (set_task i p s) = pool_next s" "mtx (set_task i p s) = mtx s"
  "buffers (set_task i p s) = buffers s" "ended (set_task i p s) = ended s"
  "pool_served (set_task i p s) = pool_served s"
  "tasks (pool_accept s) = (tasks s)(pool_next s \<mapsto> Accept_wait)" "pool_world (pool_accept s) = pool_world s"
  "pool_next (pool_accept s) = Suc (pool_next s)" "mtx (pool_accept s) = mtx s"
  "buffers (pool_accept s) = buffers s" "ended (pool_accept s) = ended s"
  "pool_served (pool_accept s) = pool_served s"
  "tasks (got_signal s) = tasks s" "mtx (got_signal s) = mtx s" "buffers (got_signal s) = buffers s"
  "pool_next (got_signal s) = pool_next s" "pool_world (got_signal s) = pool_world s"
  "pool_served (got_signal s) = pool_served s" "ended (got_signal s) = Some (Exited 0)"
  by (simp_all add: set_task_def pool_accept_def got_signal_def)

lemma after_read_cases:
  "(\<exists>req name config. after_read env params d = Lock_create req name config) \<or>
   (\<exists>req. after_read env params d = Lock_count req make_400_request)"
  by (auto simp: after_read_def Let_def split: prod.splits)

lemma after_read_simps [simp]: "\<not> holds_mtx (after_read env params d)" "waits_mtx (after_read env params d)"
  "on_thread (after_read env params d)" "after_read env params d \<noteq> Read_wait"
  using after_read_cases [of env params d] by auto

lemma locked_simps [simp]: "waits_mtx p \<Longrightarrow> holds_mtx (locked p)" "waits_mtx p \<Longrightarrow> on_thread (locked p)"
  "waits_mtx p \<Longrightarrow> \<not> holds_mtx p" "waits_mtx p \<Longrightarrow> on_thread p" "holds_mtx p \<Longrightarrow> on_thread p"
  by (cases p; simp)+


section \<open>The mutex\<close>

text \<open>
  The thread of a task is inside a critical section exactly when the mutex says so; sessions that do not
  exist have no task; the response string of a session lives from its construction to the end of \<open>handle_read\<close>.
\<close>

definition mutex_ok :: "('db, 'net) pool \<Rightarrow> bool" where
  "mutex_ok s \<longleftrightarrow> (\<forall>i. mtx s = Some (Task i) \<longleftrightarrow> (\<exists>p. tasks s i = Some p \<and> holds_mtx p))"

definition unborn_ok :: "('db, 'net) pool \<Rightarrow> bool" where
  "unborn_ok s \<longleftrightarrow> (\<forall>i. pool_next s \<le> i \<longrightarrow> tasks s i = None)"

fun has_response :: "task \<Rightarrow> bool" where
  "has_response (Lock_write resp) = True"
| "has_response (In_write resp) = True"
| "has_response p = False"

definition buffers_ok :: "('db, 'net) pool \<Rightarrow> bool" where
  "buffers_ok s \<longleftrightarrow>
     (\<forall>i. i \<in> buffers s \<longleftrightarrow> (\<exists>p. tasks s i = Some p \<and> has_response p) \<or> mtx s = Some (Returning i)) \<and>
     (\<forall>i p. mtx s = Some (Returning i) \<longrightarrow> tasks s i = Some p \<longrightarrow> \<not> has_response p)"

lemma mutex_okD:
  assumes "mutex_ok s" and "tasks s i = Some p"
  shows "holds_mtx p \<Longrightarrow> mtx s = Some (Task i)" "\<not> holds_mtx p \<Longrightarrow> mtx s \<noteq> Some (Task i)"
  using assms by (auto simp: mutex_ok_def)

lemma unborn_ok_less: "unborn_ok s \<Longrightarrow> tasks s i = Some p \<Longrightarrow> i < pool_next s"
  by (auto simp: unborn_ok_def not_less [symmetric])

lemma task_reads_simps [simp]: "\<not> has_response (after_read env params d)"
  "waits_mtx p \<Longrightarrow> has_response (locked p) = has_response p" "holds_mtx p \<Longrightarrow> p \<noteq> Accept_wait"
  using after_read_cases [of env params d] by (auto, (cases p; simp)+)

text \<open>How a step that keeps the mutex where it is changes the invariants.\<close>

lemma mutex_ok_set:
  assumes "mutex_ok s" and "tasks s i = Some p" and "\<And>q'. q = Some q' \<Longrightarrow> holds_mtx q' = holds_mtx p"
    and "q = None \<Longrightarrow> \<not> holds_mtx p" and "tasks s' = tasks s" and "mtx s' = mtx s"
  shows "mutex_ok (set_task i q s')"
  using assms by (cases q) (auto simp: mutex_ok_def)

lemma mutex_ok_release:
  assumes "mutex_ok s" and "tasks s i = Some p" and "holds_mtx p" and "\<not> holds_mtx q"
    and "tasks s' = tasks s" and "mtx s' = None \<or> mtx s' = Some (Returning j)"
  shows "mutex_ok (set_task i (Some q) s')"
proof -
  have "j = i" if "tasks s j = Some p'" "holds_mtx p'" for j p'
    using mutex_okD(1) [OF assms(1) that] mutex_okD(1) [OF assms(1-3)] by simp
  with assms(4-6) show ?thesis by (auto simp: mutex_ok_def)
qed

lemma mutex_ok_accept: "mutex_ok s \<Longrightarrow> unborn_ok s \<Longrightarrow> mutex_ok (pool_accept s)"
  by (auto simp: mutex_ok_def unborn_ok_def)

lemma unborn_ok_set: "unborn_ok s \<Longrightarrow> tasks s i = Some p \<Longrightarrow> tasks s' = tasks s \<Longrightarrow> pool_next s' = pool_next s \<Longrightarrow>
    unborn_ok (set_task i q s')"
  using unborn_ok_less by (fastforce simp: unborn_ok_def)

lemma unborn_ok_accept: "unborn_ok s \<Longrightarrow> unborn_ok (pool_accept s)"
  by (auto simp: unborn_ok_def)

lemma unborn_step: "pool_step env params s s' \<Longrightarrow> unborn_ok s \<Longrightarrow> unborn_ok s'"
  by (induction rule: pool_step.induct)
    (auto intro!: unborn_ok_accept intro: unborn_ok_set, auto simp: unborn_ok_def)

lemma mutex_step: "pool_step env params s s' \<Longrightarrow> unborn_ok s \<Longrightarrow> mutex_ok s \<Longrightarrow> mutex_ok s'"
proof (induction rule: pool_step.induct)
  case (lock s i p)
  then show ?case by (auto simp: mutex_ok_def)
next
  case (unlock_write s i)
  then show ?case by (auto simp: mutex_ok_def)
next
  case (accepted s i)
  then show ?case by (auto intro!: mutex_ok_accept mutex_ok_set unborn_ok_set)
next
  case (accept_failed s i)
  then show ?case by (auto intro!: mutex_ok_accept mutex_ok_set unborn_ok_set)
qed (auto intro: mutex_ok_set mutex_ok_release, auto simp: mutex_ok_def)

lemma buffers_ok_set:
  assumes "buffers_ok s" and "tasks s i = Some p" and "\<And>q'. q = Some q' \<Longrightarrow> has_response q' = has_response p"
    and "q = None \<Longrightarrow> \<not> has_response p" and "tasks s' = tasks s"
    and "\<And>j. mtx s' = Some (Returning j) \<longleftrightarrow> mtx s = Some (Returning j)" and "buffers s' = buffers s"
  shows "buffers_ok (set_task i q s')"
  using assms by (cases q) (auto simp: buffers_ok_def)

lemma buffers_ok_accept: "buffers_ok s \<Longrightarrow> unborn_ok s \<Longrightarrow> buffers_ok (pool_accept s)"
  by (auto simp: buffers_ok_def unborn_ok_def)

lemma buffers_step:
  "pool_step env params s s' \<Longrightarrow> unborn_ok s \<Longrightarrow> mutex_ok s \<Longrightarrow> buffers_ok s \<Longrightarrow> buffers_ok s'"
proof (induction rule: pool_step.induct)
  case (accepted s i)
  then show ?case by (intro buffers_ok_accept buffers_ok_set unborn_ok_set) auto
next
  case (accept_failed s i)
  then show ?case by (intro buffers_ok_accept buffers_ok_set unborn_ok_set) auto
next
  case (unlock_created s i req h)
  then show ?case using mutex_okD(1) [of s i] by (intro buffers_ok_set) auto
next
  case (unlock_counted s i req r)
  then show ?case using mutex_okD(1) [of s i] by (auto simp: buffers_ok_def)
next
  case (start_write s i resp n)
  then show ?case using mutex_okD(1) [of s i] by (auto simp: buffers_ok_def)
next
  case (unlock_write s i)
  then show ?case by (auto simp: buffers_ok_def)
next
  case (lock s i p)
  then show ?case by (intro buffers_ok_set) auto
qed (auto intro: buffers_ok_set, auto simp: buffers_ok_def)

end
