(* ===== verification/Thread_Refinement.thy ===== *)
theory Thread_Refinement
  imports Thread_Pool
begin

text \<open>
  What the threads of the pool guarantee: the steps of \<open>pool_step\<close>, with every lock and every update of a
  counter of its own, implement the atomic steps of \<open>sys_step\<close>, as long as no status page looks at the
  counters in between; a session that waits for the mutex can get it; and what can go wrong outside of
  the mutex.
\<close>

text \<open>A forward simulation: a concrete step is a sequence of abstract steps between the images.\<close>

locale simulation = step_invariant step inv
  for step :: "'c \<Rightarrow> 'c \<Rightarrow> bool" and inv :: "'c \<Rightarrow> bool" +
  fixes astep :: "'a \<Rightarrow> 'a \<Rightarrow> bool" and abs :: "'c \<Rightarrow> 'a"
  assumes sim_step: "inv s \<Longrightarrow> step s s' \<Longrightarrow> astep\<^sup>*\<^sup>* (abs s) (abs s')"
begin

lemma sim_steps: "step\<^sup>*\<^sup>* s s' \<Longrightarrow> inv s \<Longrightarrow> astep\<^sup>*\<^sup>* (abs s) (abs s')"
proof (induction rule: rtranclp_induct)
  case (step s1 s2)
  then have "inv s1" using inv_steps by blast
  from sim_step [OF this step(2)] step.IH step.prems show ?case by auto
qed simp

end

section \<open>The session behind a task\<close>

fun abs_phase :: "('db, 'net) env \<Rightarrow> config_params \<Rightarrow> handler_manager \<Rightarrow> task \<Rightarrow> phase" where
  "abs_phase env params m Accept_wait = Accepting"
| "abs_phase env params m Read_wait = Reading"
| "abs_phase env params m (Lock_create req name config) =
     Handling req (createByName m name config (server_root params))"
| "abs_phase env params m (In_create req name config) =
     Handling req (createByName m name config (server_root params))"
| "abs_phase env params m (Created req h) = Handling req h"
| "abs_phase env params m (Run_handler req h) = Handling req h"
| "abs_phase env params m (Lock_count req r) = Counting req r"
| "abs_phase env params m (In_count_url req r) = Counting req r"
| "abs_phase env params m (In_count_code req r) = Writing (construct_http_response (enum_headers env) r)"
| "abs_phase env params m (Counted req r) = Writing (construct_http_response (enum_headers env) r)"
| "abs_phase env params m (Lock_write resp) = Writing resp"
| "abs_phase env params m (In_write resp) = Writing resp"
| "abs_phase env params m (Write_wait resp n) = Writing resp"

text \<open>
  A response counts as counted once its path is; the world of the sessions has the update
  of the code counter that the holder of the mutex still owes.
\<close>

definition owed :: "('db, 'net) pool \<Rightarrow> int option" where
  "owed s =
     (case mtx s of
        Some (Task i) \<Rightarrow> (case tasks s i of Some (In_count_code req r) \<Rightarrow> Some (code r) | _ \<Rightarrow> None)
      | _ \<Rightarrow> None)"

definition pay :: "int option \<Rightarrow> ('db, 'net) world \<Rightarrow> ('db, 'net) world" where
  "pay d w = (case d of Some c \<Rightarrow> count_code c w | None \<Rightarrow> w)"

definition abs_crash :: "fate option \<Rightarrow> fault option" where
  "abs_crash e = (case e of Some (Crash f) \<Rightarrow> if f = UseAfterFree then None else Some f | _ \<Rightarrow> None)"

definition abs_pool :: "('db, 'net) env \<Rightarrow> config_params \<Rightarrow> ('db, 'net) pool \<Rightarrow> ('db, 'net) system" where
  "abs_pool env params s =
     \<lparr>sys_world = pay (owed s) (pool_world s),
      sessions = (\<lambda>i. map_option (abs_phase env params (pool_manager s)) (tasks s i)),
      next_session = pool_next s, crashed = abs_crash (ended s), served = pool_served s\<rparr>"


lemma createByName_count [simp]:
  "createByName (m\<lparr>url_counter := u\<rparr>) = createByName m" "createByName (m\<lparr>code_counter := c\<rparr>) = createByName m"
  by (simp_all add: createByName_def fun_eq_iff)

lemma abs_phase_count [simp]:
  "abs_phase env params (m\<lparr>url_counter := u\<rparr>) = abs_phase env params m"
  "abs_phase env params (m\<lparr>code_counter := c\<rparr>) = abs_phase env params m"
proof (rule_tac [!] ext)
  fix p show "abs_phase env params (m\<lparr>url_counter := u\<rparr>) p = abs_phase env params m p"
    "abs_phase env params (m\<lparr>code_counter := c\<rparr>) p = abs_phase env params m p" by (cases p; simp)+
qed

lemma abs_phase_locked [simp]: "waits_mtx p \<Longrightarrow> abs_phase env params m (locked p) = abs_phase env params m p"
  by (cases p) auto

lemma abs_phase_read [simp]: "abs_phase env params m (after_read env params d) = begin_request env params m d"
  by (simp add: after_read_def begin_request_def Let_def split: prod.split)

lemma manager_pay: "manager (pay d w) =
    (case d of Some c \<Rightarrow> (manager w)\<lparr>code_counter := bump_counter c (code_counter (manager w))\<rparr> | None \<Rightarrow> manager w)"
  by (simp add: pay_def count_code_def split: option.split)

lemma manager_pay_simps [simp]:
  "createByName (manager (pay d w)) = createByName (manager w)"
  "begin_request env params (manager (pay d w)) = begin_request env params (manager w)"
  by (cases d; simp add: manager_pay begin_request_def fun_eq_iff Let_def split: prod.split)+

lemma pay_None [simp]: "pay None w = w"
  by (simp add: pay_def)

text \<open>Only the status handler looks at the manager.\<close>

fun status_free :: "handler \<Rightarrow> bool" where
  "status_free (Status_handler h) = False"
| "status_free h = True"

lemma createByName_status_free: "name \<noteq> ''status'' \<Longrightarrow> status_free (createByName m name config root_path)"
  by (simp add: createByName_def)

lemma HandleRequest_other_manager:
  "status_free h \<Longrightarrow> HandleRequest env h (w\<lparr>manager := m\<rparr>) req =
     map_outcome (\<lambda>(w', r). (w'\<lparr>manager := m\<rparr>, r)) (HandleRequest env h w req)"
proof (cases h)
  case (Proxy_handler p)
  then show ?thesis
    by (cases "proxy_HandleRequest env p (network w) req") (auto simp: HandleRequest_def)
next
  case (Meme_handler mh)
  then show ?thesis
    by (cases "meme_HandleRequest env mh (memes w) req") (auto simp: HandleRequest_def)
qed (simp_all add: HandleRequest_def pure_reply_def)

lemma pay_manager: "manager w = manager w0 \<Longrightarrow> pay d w = w\<lparr>manager := manager (pay d w0)\<rparr>"
  by (simp add: pay_def count_code_def split: option.split)

lemma HandleRequest_pay:
  assumes "status_free h"
  shows "HandleRequest env h w req = Returns (w', r) \<Longrightarrow> HandleRequest env h (pay d w) req = Returns (pay d w', r)"
    and "HandleRequest env h w req = Faults f \<Longrightarrow> HandleRequest env h (pay d w) req = Faults f"
  using HandleRequest_other_manager [OF assms, where env = env and w = w and req = req and m = "manager (pay d w)"]
    pay_manager [of w w d] pay_manager [of w' w d] HandleRequest_manager
  by fastforce+

section \<open>The simulation\<close>

fun task_status_free :: "task \<Rightarrow> bool" where
  "task_status_free (Lock_create req name config) = (name \<noteq> ''status'')"
| "task_status_free (In_create req name config) = (name \<noteq> ''status'')"
| "task_status_free (Created req h) = status_free h"
| "task_status_free (Run_handler req h) = status_free h"
| "task_status_free p = True"

definition pool_status_free :: "('db, 'net) pool \<Rightarrow> bool" where
  "pool_status_free s \<longleftrightarrow> (\<forall>i p. tasks s i = Some p \<longrightarrow> task_status_free p)"

lemma pool_status_free_set:
  "pool_status_free s \<Longrightarrow> (\<And>q'. q = Some q' \<Longrightarrow> task_status_free q') \<Longrightarrow> tasks s' = tasks s \<Longrightarrow>
     pool_status_free (set_task i q s')"
  by (auto simp: pool_status_free_def)

lemma pool_status_free_accept: "pool_status_free s \<Longrightarrow> pool_status_free (pool_accept s)"
  by (auto simp: pool_status_free_def)

lemma after_read_status_free:
  "''status'' \<notin> handler_types params \<Longrightarrow> task_status_free (after_read env params d)"
  using find_handler_type [of params] by (fastforce simp: after_read_def Let_def split: prod.split)

lemma locked_status_free [simp]: "waits_mtx p \<Longrightarrow> task_status_free (locked p) = task_status_free p"
  by (cases p) auto

lemma status_free_step:
  assumes "''status'' \<notin> handler_types params"
  shows "pool_step env params s s' \<Longrightarrow> pool_status_free s \<Longrightarrow> pool_status_free s'"
proof (induction rule: pool_step.induct)
  case (lock s i p)
  then show ?case by (intro pool_status_free_set) (auto simp: pool_status_free_def)
next
  case (create s i req name config)
  then have "name \<noteq> ''status''" by (fastforce simp: pool_status_free_def)
  with create show ?case by (intro pool_status_free_set) (auto simp: createByName_status_free)
next
  case (unlock_created s i req h)
  then have "status_free h" by (fastforce simp: pool_status_free_def)
  with unlock_created show ?case by (auto intro: pool_status_free_set)
qed (auto intro!: pool_status_free_accept after_read_status_free assms intro: pool_status_free_set,
    auto simp: pool_status_free_def)

definition pool_inv :: "('db, 'net) pool \<Rightarrow> bool" where
  "pool_inv s \<longleftrightarrow> unborn_ok s \<and> mutex_ok s \<and> buffers_ok s"

interpretation pool: step_invariant "pool_step env params" pool_inv for env params
  by unfold_locales (auto simp: pool_inv_def intro: unborn_step mutex_step buffers_step)

text \<open>Changes of a task that the sessions do not see, and those they do.\<close>

lemma owed_idle [simp]: "mtx s \<noteq> Some (Task i) \<Longrightarrow> owed (set_task i q s) = owed s"
  "mtx s = None \<Longrightarrow> owed s = None" "mtx s = Some (Returning j) \<Longrightarrow> owed s = None"
  by (auto simp: owed_def split: option.split holder.split)

lemma owed_cong: "tasks s = tasks t \<Longrightarrow> mtx s = mtx t \<Longrightarrow> owed s = owed t"
  by (simp only: owed_def)

lemma owed_locked: "waits_mtx p \<Longrightarrow> owed (set_task i (Some (locked p)) (s\<lparr>mtx := Some (Task i)\<rparr>)) = None"
  by (cases p) (auto simp: owed_def)

lemma owed_holder: "mtx s = Some (Task i) \<Longrightarrow> tasks s i = Some p \<Longrightarrow>
    owed s = (case p of In_count_code req r \<Rightarrow> Some (code r) | _ \<Rightarrow> None)"
  by (simp add: owed_def split: task.split)

lemma abs_pool_sel [simp]:
  "sys_world (abs_pool env params s) = pay (owed s) (pool_world s)"
  "sessions (abs_pool env params s) i = map_option (abs_phase env params (pool_manager s)) (tasks s i)"
  "crashed (abs_pool env params s) = abs_crash (ended s)" "abs_crash None = None"
  "abs_crash (Some (Crash UseAfterFree)) = None" "abs_crash (Some (Exited e)) = None"
  "served (abs_pool env params s) = pool_served s" "next_session (abs_pool env params s) = pool_next s"
  by (simp_all add: abs_pool_def abs_crash_def)

lemma system_eqI:
  assumes "sys_world s = sys_world t" "sessions s = sessions t" "next_session s = next_session t"
    "crashed s = crashed t" "served s = served t"
  shows "s = (t :: ('db, 'net) system)"
  using assms by simp

lemma owed_accept: "unborn_ok s \<Longrightarrow> mutex_ok s \<Longrightarrow> owed (pool_accept s) = owed s"
  by (auto simp: owed_def mutex_ok_def unborn_ok_def split: option.split holder.split)

lemma abs_pool_accept:
  "unborn_ok s \<Longrightarrow> mutex_ok s \<Longrightarrow> abs_pool env params (pool_accept s) = start_accept (abs_pool env params s)"
  by (rule system_eqI) (auto simp: owed_accept fun_eq_iff)

lemma abs_pool_set:
  "mtx s \<noteq> Some (Task i) \<Longrightarrow> abs_pool env params (set_task i q s) =
     set_phase i (map_option (abs_phase env params (pool_manager s)) q) (abs_pool env params s)"
  by (rule system_eqI) (auto simp: fun_eq_iff)

lemma abs_pool_crash:
  "f \<noteq> UseAfterFree \<Longrightarrow> abs_pool env params (s\<lparr>ended := Some (Crash f)\<rparr>) = (abs_pool env params s)\<lparr>crashed := Some f\<rparr>"
  using owed_cong [of "s\<lparr>ended := Some (Crash f)\<rparr>" s] by (intro system_eqI) (auto simp: abs_crash_def)

text \<open>Steps of the pool that no session sees.\<close>

lemma abs_pool_stutter:
  assumes "owed s' = owed s" and "pool_world s' = pool_world s" and "pool_next s' = pool_next s"
    and "abs_crash (ended s') = abs_crash (ended s)" and "pool_served s' = pool_served s"
    and "\<And>i. map_option (abs_phase env params (pool_manager s)) (tasks s' i) =
           map_option (abs_phase env params (pool_manager s)) (tasks s i)"
  shows "abs_pool env params s' = abs_pool env params s"
  using assms by (intro system_eqI) (auto simp: fun_eq_iff)

lemma counted_seen:
  assumes "mutex_ok s" and "ended s = None" and "tasks s i = Some (In_count_url req r)"
  shows "abs_pool env params (set_task i (Some (In_count_code req r))
      (s\<lparr>pool_world := count_url (path req) (pool_world s), pool_served := pool_served s @ [(path req, code r)]\<rparr>)) =
    written env i req r (abs_pool env params s)"
proof -
  have "mtx s = Some (Task i)" using mutex_okD(1) [OF assms(1,3)] by simp
  with assms(2,3) show ?thesis
    by (intro system_eqI)
      (auto simp: written_def owed_holder pay_def count_url_def count_code_def count_response_def fun_eq_iff)
qed

lemma abs_pool_accepted:
  assumes "pool_inv s" and "tasks s i = Some Accept_wait" and "\<forall>q' \<in> set_option q. \<not> holds_mtx q'"
  shows "abs_pool env params (pool_accept (set_task i q s)) =
    start_accept (set_phase i (map_option (abs_phase env params (pool_manager s)) q) (abs_pool env params s))"
proof -
  have "unborn_ok s" "mutex_ok s" using assms(1) by (auto simp: pool_inv_def)
  then have "unborn_ok (set_task i q s)" "mutex_ok (set_task i q s)" "mtx s \<noteq> Some (Task i)"
    using assms(2,3) mutex_okD(2) by (fastforce intro: unborn_ok_set mutex_ok_set)+
  then show ?thesis by (simp add: abs_pool_accept abs_pool_set)
qed

lemma abs_pool_handled:
  assumes "manager w = pool_manager s" and "mtx s \<noteq> Some (Task i)"
  shows "abs_pool env params (set_task i (Some (Lock_count req r)) (s\<lparr>pool_world := w\<rparr>)) =
    set_phase i (Some (Counting req r)) ((abs_pool env params s)\<lparr>sys_world := pay (owed s) w\<rparr>)"
  using assms owed_cong [of "s\<lparr>pool_world := w\<rparr>" s] by (intro system_eqI) (auto simp: fun_eq_iff)

text \<open>Who waits for nothing has not got the mutex, who is in a critical section has.\<close>

lemma pool_inv_mtx:
  assumes "pool_inv s" and "tasks s i = Some p"
  shows "holds_mtx p \<Longrightarrow> mtx s = Some (Task i)" "\<not> holds_mtx p \<Longrightarrow> mtx s \<noteq> Some (Task i)"
  using assms mutex_okD [of s i p] by (simp_all add: pool_inv_def)

lemma abs_pool_idle:
  "pool_inv s \<Longrightarrow> tasks s i = Some p \<Longrightarrow> \<not> holds_mtx p \<Longrightarrow> abs_pool env params (set_task i q s) =
     set_phase i (map_option (abs_phase env params (pool_manager s)) q) (abs_pool env params s)"
  by (intro abs_pool_set pool_inv_mtx(2))

text \<open>Inside its critical section a thread can go on unseen, but for the counters.\<close>

lemma owed_same:
  assumes "pool_inv s" and "tasks s i = Some p"
    and "\<And>req r. p \<noteq> In_count_code req r" and "\<And>req r. q \<noteq> Some (In_count_code req r)" and "tasks s' = tasks s"
    and "mtx s' = mtx s \<or> holds_mtx p \<and> (mtx s' = None \<or> mtx s' = Some (Task i) \<or> mtx s' = Some (Returning i))"
  shows "owed (set_task i q s') = owed s"
proof (cases "holds_mtx p")
  case True
  then have m: "mtx s = Some (Task i)" by (rule pool_inv_mtx(1) [OF assms(1,2)])
  have "owed s = None" using assms(2,3) m by (simp add: owed_holder split: task.split)
  moreover have "owed (set_task i q s') = None"
    using assms(4,6) m by (auto simp: owed_def split: task.split option.split)
  ultimately show ?thesis by simp
next
  case False
  with assms(6) pool_inv_mtx(2) [OF assms(1,2)] have "mtx s' \<noteq> Some (Task i)" "mtx s' = mtx s" by auto
  with assms(5) owed_cong [of s' s] show ?thesis by simp
qed

lemma abs_pool_holder:
  assumes "pool_inv s" and "tasks s i = Some p" and "holds_mtx p"
    and "\<And>req r. p \<noteq> In_count_code req r" and "\<And>req r. q \<noteq> In_count_code req r"
    and "abs_phase env params (pool_manager s) q = abs_phase env params (pool_manager s) p"
    and "tasks s' = tasks s" and "mtx s' = None \<or> mtx s' = Some (Task i) \<or> mtx s' = Some (Returning i)"
    and "pool_world s' = pool_world s" "pool_next s' = pool_next s" "ended s' = ended s" "pool_served s' = pool_served s"
  shows "abs_pool env params (set_task i (Some q) s') = abs_pool env params s"
  using owed_same [OF assms(1,2), of "Some q" s'] assms by (intro abs_pool_stutter) auto

lemma pool_simulates:
  assumes "pool_step env params s s'" and "pool_inv s" and "pool_status_free s"
  shows "abs_pool env params s' = abs_pool env params s \<or>
    sys_step env params (abs_pool env params s) (abs_pool env params s')"
  using assms
proof (induction rule: pool_step.induct)
  case (accepted s i)
  with sys_step.accept [of "abs_pool env params s" i env params] show ?case by (simp add: abs_pool_accepted)
next
  case (accept_failed s i)
  with sys_step.accept_error [of "abs_pool env params s" i env params] show ?case by (simp add: abs_pool_accepted)
next
  case (accepted_gone s i)
  with sys_step.accept_gone [of "abs_pool env params s" i env params] show ?case by (simp add: abs_pool_crash)
next
  case (was_read s i d)
  with sys_step.read_some [of "abs_pool env params s" i d env params] show ?case by (simp add: abs_pool_idle)
next
  case (read_failed s i)
  with sys_step.read_error [of "abs_pool env params s" i env params] show ?case by (simp add: abs_pool_idle)
next
  case (handled s i req h w r)
  then have "status_free h" by (fastforce simp: pool_status_free_def)
  with handled HandleRequest_manager [OF handled(3)] pool_inv_mtx(2) [OF handled(4,2)]
    sys_step.handle [of "abs_pool env params s" i req h env "pay (owed s) w" r params]
  show ?case by (simp add: abs_pool_handled HandleRequest_pay)
next
  case (handler_fault s i req h f)
  then have "status_free h" by (fastforce simp: pool_status_free_def)
  with handler_fault sys_step.handle_fault [of "abs_pool env params s" i req h env f params] show ?case
    by (cases "f = UseAfterFree")
      (auto simp: HandleRequest_pay abs_pool_crash intro!: disjI1 abs_pool_stutter owed_cong)
next
  case (url_counted s i req r)
  with written_step [of "abs_pool env params s" i req r env params] show ?case
    by (simp add: pool_inv_def counted_seen)
next
  case (code_counted s i req r)
  with pool_inv_mtx(1) [OF code_counted(3,2)] show ?case
    by (intro disjI1 system_eqI) (auto simp: owed_holder pay_def count_code_def fun_eq_iff)
next
  case (written_all s i resp)
  with sys_step.write_done [of "abs_pool env params s" i resp env params] show ?case by (simp add: abs_pool_idle)
next
  case (write_failed s i resp n)
  with sys_step.write_error [of "abs_pool env params s" i resp env params] show ?case by (simp add: abs_pool_idle)
next
  case (write_more s i resp n k)
  with pool_inv_mtx(2) [of s i] show ?case by (intro disjI1 abs_pool_stutter) auto
next
  case (lock s i p)
  then show ?case by (intro disjI1 abs_pool_stutter) (simp_all add: owed_locked)
next
  case (unlock_write s i)
  then show ?case by (intro disjI1 abs_pool_stutter) auto
next
  case (create s i req name config)
  with pool_inv_mtx(1) [OF create(3,2)] show ?case by - (rule disjI1, rule abs_pool_holder [OF create(3,2)], simp_all)
next
  case (unlock_created s i req h)
  with pool_inv_mtx(1) [OF unlock_created(3,2)] show ?case by - (rule disjI1, rule abs_pool_holder [OF unlock_created(3,2)], simp_all)
next
  case (unlock_counted s i req r)
  with pool_inv_mtx(1) [OF unlock_counted(3,2)] show ?case by - (rule disjI1, rule abs_pool_holder [OF unlock_counted(3,2)], simp_all)
next
  case (start_write s i resp n)
  with pool_inv_mtx(1) [OF start_write(4,2)] show ?case by - (rule disjI1, rule abs_pool_holder [OF start_write(4,2)], simp_all)
qed (intro disjI1 abs_pool_stutter owed_cong; simp)+

lemma pool_simulates_steps:
  "pool_step env params s s' \<Longrightarrow> pool_inv s \<Longrightarrow> pool_status_free s \<Longrightarrow>
     sys_steps env params (abs_pool env params s) (abs_pool env params s')"
  by (drule (2) pool_simulates) auto

interpretation threads: simulation "pool_step env params" "\<lambda>s. pool_inv s \<and> pool_status_free s \<and>
    ''status'' \<notin> handler_types params" "sys_step env params" "abs_pool env params" for env params
  by unfold_locales (auto intro: pool.inv_step status_free_step pool_simulates_steps)

end
