(* ===== verification/Demo_Run.thy ===== *)
theory Demo_Run
  imports Server
begin

text \<open>
  A concrete server: the program started on a small configuration, and short runs of it, at
  which the properties about running servers are evaluated.
\<close>

section \<open>A running server\<close>

text \<open>An operating system that serves a configuration from every file, and the server it starts.\<close>

definition config_os :: "NginxConfig \<Rightarrow> meme_record list os" where
  "config_os c = \<lparr>config_file = (\<lambda>f. Some (NginxConfig_ToString c 0)), can_listen = (\<lambda>p. True), open_db = Some []\<rparr>"

definition config_system :: "NginxConfig \<Rightarrow> (meme_record list, unit) system" where
  "config_system c = init_system
     \<lparr>manager = \<lparr>url_counter = [], code_counter = [],
        manager_paths = Some (handler_paths (config_params c)), manager_db = DbHandle\<rparr>,
      memes = \<lparr>meme_count = 0, meme_db = []\<rparr>, network = ()\<rparr>"

lemma config_main:
  assumes "wf_config c" and "lexical_config c" and "unat (port (config_params c)) \<noteq> 65535"
    and "sqlite3_exec env [] (c_str create_table_sql) = ([], [], None)"
  shows "server_main env (config_os c) () 2 f = Runs (config_params c) (config_system c)"
proof -
  have cfg: "set_config_params (config_os c) f = config_params c"
    using Parse_ToString [OF assms(1,2)] by (simp add: set_config_params_def Parse_file_def config_os_def)
  have port: "port (config_params c) \<noteq> -1" using assms(3) by (simp add: word16_eq_minus_1)
  then have "server_create (config_os c) f = Some \<lparr>acceptor = Some (unat (port (config_params c))),
      server_params = config_params c,
      server_manager = setHandlerPathsPtr (handler_paths (config_params c)) new_handler_manager\<rparr>"
    by (simp add: server_create_def cfg Let_def) (simp add: config_os_def)
  with assms(4) show ?thesis
    by (simp add: server_main_def server_init_def init_sqlite3_def config_os_def
        setHandlerPathsPtr_def new_handler_manager_def config_system_def)
qed

lemma mini_create_table: "sqlite3_exec mini_env [] (c_str create_table_sql) = ([], [], None)"
  by (simp add: mini_env_def mini_sql_def create_table_sql_def list_sql_def Let_def)

text \<open>Configurations with one handler.\<close>

definition one_handler :: "string \<Rightarrow> NginxConfigStatement list \<Rightarrow> NginxConfig" where
  "one_handler name ss = NginxConfig
     [NginxConfigStatement [''port'', ''8080''] None, NginxConfigStatement [''handler'', name] (Some (NginxConfig ss))]"

lemma one_handler_port: "unat (port (config_params (one_handler name ss))) = 8080"
proof -
  have "nat_to_string 8080 = ''8080''" by (simp add: nat_to_string.simps digit_char_def)
  then show ?thesis
    using port_narrowed [of "one_handler name ss" "NginxConfigStatement [''port'', ''8080''] None" 8080]
    by (simp add: one_handler_def sets_port_def)
qed

lemma one_handler_main:
  assumes "wf_config (one_handler name ss)" and "lexical_config (one_handler name ss)"
    and "sqlite3_exec env [] (c_str create_table_sql) = ([], [], None)"
  shows "server_main env (config_os (one_handler name ss)) () 2 f =
    Runs (config_params (one_handler name ss)) (config_system (one_handler name ss))"
  using assms by (simp add: config_main one_handler_port)

definition demo_config :: NginxConfig where
  "demo_config = one_handler ''status'' [NginxConfigStatement [''location'', ''/status''] None]"

abbreviation demo_os :: "meme_record list os" where
  "demo_os \<equiv> config_os demo_config"

abbreviation demo_params :: config_params where
  "demo_params \<equiv> config_params demo_config"

abbreviation demo_system :: "(meme_record list, unit) system" where
  "demo_system \<equiv> config_system demo_config"

lemma demo_main: "server_main mini_env demo_os () 2 f = Runs demo_params demo_system"
  unfolding demo_config_def
  by (rule one_handler_main)
    (simp_all add: one_handler_def word_ok_def word_start_def word_end_def mini_create_table)

definition demo_connected :: "(meme_record list, unit) system" where
  "demo_connected = start_accept (set_phase 0 (Some Reading) demo_system)"

definition demo_counted :: "(meme_record list, unit) system" where
  "demo_counted =
     (let s = set_phase 0 (Some (begin_request mini_env demo_params (sys_manager demo_connected) ''x'')) demo_connected
      in set_phase 0 (Some (Writing (construct_http_response rev make_400_request)))
        (s\<lparr>sys_world := (sys_world s)\<lparr>manager :=
              count_response (invalid_request ''x'') make_400_request (sys_manager s)\<rparr>,
           served := served s @ [([], 400)]\<rparr>))"

lemma running_step:
  "running env os net f params s \<Longrightarrow> sys_step env params s s' \<Longrightarrow> running env os net f params s'"
  unfolding running_def by (meson rtranclp.rtrancl_into_rtrancl)

lemma demo_connected_running: "running mini_env demo_os () f demo_params demo_connected"
proof -
  have "sys_step mini_env demo_params demo_system demo_connected"
    using accept [of demo_system 0 mini_env demo_params]
    by (simp add: demo_connected_def config_system_def init_system_def)
  then show ?thesis unfolding running_def using demo_main by blast
qed

lemma begin_invalid: "begin_request mini_env params m ''x'' = Counting (invalid_request ''x'') make_400_request"
  by (simp add: begin_request_def parse_request_line_def c_str_def invalid_request_def is_valid_def Let_def)

lemma demo_simps: "enum_headers mini_env = rev" "path (invalid_request b) = []" "code make_400_request = 400"
  by (simp_all add: mini_env_def invalid_request_def make_400_request_def)

lemma demo_connected_facts: "crashed demo_connected = None" "sessions demo_connected 0 = Some Reading"
  by (simp_all add: demo_connected_def config_system_def init_system_def)

lemma demo_counted_running: "running mini_env demo_os () f demo_params demo_counted"
proof -
  let ?s = "set_phase 0 (Some (begin_request mini_env demo_params (sys_manager demo_connected) ''x'')) demo_connected"
  have "sys_step mini_env demo_params demo_connected ?s"
    by (rule read_some) (simp_all add: demo_connected_facts max_length_def)
  with demo_connected_running have run: "running mini_env demo_os () f demo_params ?s" by (rule running_step)
  have "sys_step mini_env demo_params ?s demo_counted"
    using count_served [of ?s 0 "invalid_request ''x''" make_400_request mini_env demo_params]
    by (simp add: demo_counted_def demo_connected_facts begin_invalid Let_def demo_simps)
  with run show ?thesis by (rule running_step)
qed

lemma demo_counted_facts:
  "crashed demo_counted = None" "served demo_counted = [([], 400)]"
  "sessions demo_counted 0 = Some (Writing (construct_http_response rev make_400_request))"
  by (simp_all add: demo_counted_def demo_connected_def config_system_def init_system_def Let_def)

end
