(* ===== verification/Thread_Guarantees.thy ===== *)
theory Thread_Guarantees
  imports Thread_Refinement Demo_Run
begin

text \<open>
  What holds of the running program with its threads, and what a client can do to it: the mutex can
  always be had, the counters are in step but for one code, a few requests that hang stop everything, and a
  response that the socket does not take at once is sent from freed memory.
\<close>

definition pool_running :: "('db, 'net) env \<Rightarrow> 'db os \<Rightarrow> 'net \<Rightarrow> string \<Rightarrow> config_params \<Rightarrow> ('db, 'net) pool \<Rightarrow> bool" where
  "pool_running env os net file_name params s \<longleftrightarrow>
     (\<exists>s0. server_main env os net 2 file_name = Runs params s0 \<and> pool_steps env params (start_pool s0) s)"

lemma pool_running_step:
  "pool_running env os net f params s \<Longrightarrow> pool_step env params s s' \<Longrightarrow> pool_running env os net f params s'"
  unfolding pool_running_def by (meson rtranclp.rtrancl_into_rtrancl)

lemma pool_start_inv: "pool_inv (start_pool s)" "pool_status_free (start_pool s)"
  by (auto simp: pool_inv_def start_pool_def unborn_ok_def mutex_ok_def buffers_ok_def pool_status_free_def)

lemma pool_running_inv: "pool_running env os net f params s \<Longrightarrow> pool_inv s"
  unfolding pool_running_def using pool.inv_steps pool_start_inv(1) by blast

lemma server_main_init:
  "server_main env os net argc f = Runs params s \<Longrightarrow> s = init_system (sys_world s)"
  by (auto simp: server_main_def server_init_def init_system_def split: if_splits option.splits prod.splits)

lemma abs_pool_start: "s = init_system w \<Longrightarrow> abs_pool env params (start_pool s) = s"
  by (intro system_eqI) (auto simp: start_pool_def init_system_def fun_eq_iff)

section \<open>The mutex can be had\<close>

text \<open>A thread in a critical section waits for nothing and leaves it after at most three steps.\<close>

definition releases :: "('db, 'net) env \<Rightarrow> config_params \<Rightarrow> nat \<Rightarrow> ('db, 'net) pool \<Rightarrow> bool" where
  "releases env params i s \<longleftrightarrow>
     (\<exists>t. pool_steps env params s t \<and> mtx t = None \<and> ended t = None \<and> (\<forall>j. j \<noteq> i \<longrightarrow> tasks t j = tasks s j))"

lemma releases_now: "mtx s = None \<Longrightarrow> ended s = None \<Longrightarrow> releases env params i s"
  unfolding releases_def by blast

lemma releases_step:
  "pool_step env params s s' \<Longrightarrow> releases env params i s' \<Longrightarrow> (\<And>j. j \<noteq> i \<Longrightarrow> tasks s' j = tasks s j) \<Longrightarrow>
     releases env params i s"
  unfolding releases_def by (metis converse_rtranclp_into_rtranclp)

lemma returning_releases: "ended s = None \<Longrightarrow> mtx s = Some (Returning j) \<Longrightarrow> releases env params i s"
  by (intro releases_step [OF unlock_write [of s j]]) (simp_all add: releases_now)

lemma created_releases: "ended s = None \<Longrightarrow> tasks s i = Some (Created req h) \<Longrightarrow> releases env params i s"
  by (intro releases_step [OF unlock_created [of s i]]) (simp_all add: releases_now)

lemma counted_releases: "ended s = None \<Longrightarrow> tasks s i = Some (Counted req r) \<Longrightarrow> releases env params i s"
  by (intro releases_step [OF unlock_counted [of s i]]) (simp_all add: releases_now)

lemma code_releases: "ended s = None \<Longrightarrow> tasks s i = Some (In_count_code req r) \<Longrightarrow> releases env params i s"
  by (intro releases_step [OF code_counted [of s i]]) (simp_all add: counted_releases)

lemma holder_releases:
  "ended s = None \<Longrightarrow> tasks s i = Some p \<Longrightarrow> holds_mtx p \<Longrightarrow> releases env params i s"
proof (cases p)
  case (In_create req name config)
  moreover assume "ended s = None" "tasks s i = Some p"
  ultimately show ?thesis
    by (intro releases_step [OF create [of s i]]) (simp_all add: created_releases)
next
  case (In_count_url req r)
  moreover assume "ended s = None" "tasks s i = Some p"
  ultimately show ?thesis
    by (intro releases_step [OF url_counted [of s i]]) (simp_all add: code_releases)
next
  case (In_write resp)
  moreover assume "ended s = None" "tasks s i = Some p"
  ultimately show ?thesis
    by (intro releases_step [OF start_write [of s i resp 0]]) (simp_all add: returning_releases)
qed (simp_all add: created_releases counted_releases code_releases)

lemma mtx_released:
  assumes "pool_inv s" and "ended s = None" and "tasks s i = Some p" and "waits_mtx p"
  shows "\<exists>t. pool_steps env params s t \<and> mtx t = None \<and> ended t = None \<and> tasks t i = Some p"
proof -
  have "\<exists>j. j \<noteq> i \<and> releases env params j s"
  proof (cases "mtx s")
    case None
    with assms(2) show ?thesis by (intro exI [of _ "Suc i"]) (simp add: releases_now)
  next
    case (Some holder)
    show ?thesis
    proof (cases holder)
      case (Task j)
      with Some assms(1) obtain q where "tasks s j = Some q" "holds_mtx q"
        by (auto simp: pool_inv_def mutex_ok_def)
      with assms(2-4) holder_releases [of s j q env params] show ?thesis by (intro exI [of _ j]) auto
    next
      case (Returning j)
      with Some assms(2) show ?thesis by (intro exI [of _ "Suc i"]) (simp add: returning_releases)
    qed
  qed
  with assms(3) show ?thesis unfolding releases_def by fastforce
qed

lemma mtx_acquired:
  assumes "pool_inv s" and "ended s = None" and "tasks s i = Some p" and "waits_mtx p"
  shows "\<exists>t. pool_steps env params s t \<and> tasks t i = Some (locked p) \<and> mtx t = Some (Task i)"
proof -
  from mtx_released [OF assms] obtain t where t: "pool_steps env params s t" "mtx t = None" "ended t = None"
    "tasks t i = Some p" by blast
  from lock [OF t(3,2,4) assms(4), of env params] t(1) show ?thesis
    by (intro exI [of _ "set_task i (Some (locked p)) (t\<lparr>mtx := Some (Task i)\<rparr>)"]) auto
qed

lemma mutual_exclusion:
  "pool_inv s \<Longrightarrow> tasks s i = Some p \<Longrightarrow> holds_mtx p \<Longrightarrow> tasks s j = Some q \<Longrightarrow> holds_mtx q \<Longrightarrow> i = j"
  using pool_inv_mtx(1) [of s i p] pool_inv_mtx(1) [of s j q] by simp

section \<open>The counters\<close>

text \<open>Every request in the log is counted under its path, and under its code once the debt is paid.\<close>

definition pool_counted :: "('db, 'net) pool \<Rightarrow> bool" where
  "pool_counted s \<longleftrightarrow>
     map_ok (code_counter (pool_manager s)) \<and>
     url_counter (pool_manager s) = fold bump_counter (map fst (pool_served s)) [] \<and>
     code_counter (manager (pay (owed s) (pool_world s))) = fold bump_counter (map snd (pool_served s)) []"

lemma pool_counted_cong:
  "pool_counted s \<Longrightarrow> owed s' = owed s \<Longrightarrow> pool_manager s' = pool_manager s \<Longrightarrow> pool_served s' = pool_served s \<Longrightarrow>
     pool_counted s'"
  by (cases "owed s") (simp_all add: pool_counted_def manager_pay counter.ok_bumps)

lemma owed_accepted:
  assumes "pool_inv s" and "tasks s i = Some Accept_wait" and "q = None \<or> q = Some Read_wait"
  shows "owed (pool_accept (set_task i q s)) = owed s"
proof -
  have "unborn_ok (set_task i q s)" "mutex_ok (set_task i q s)"
    using assms by (auto simp: pool_inv_def intro: unborn_ok_set mutex_ok_set)
  moreover have "owed (set_task i q s) = owed s" using assms(3) by (intro owed_same [OF assms(1,2)]) auto
  ultimately show ?thesis by (simp add: owed_accept)
qed

lemma pool_counted_set:
  assumes "pool_counted s" and "pool_inv s" and "tasks s i = Some p"
    and "\<And>req r. p \<noteq> In_count_code req r" and "\<And>req r. q \<noteq> Some (In_count_code req r)" and "tasks s' = tasks s"
    and "mtx s' = mtx s \<or> holds_mtx p \<and> (mtx s' = None \<or> mtx s' = Some (Task i) \<or> mtx s' = Some (Returning i))"
    and "pool_manager s' = pool_manager s" and "pool_served s' = pool_served s"
  shows "pool_counted (set_task i q s')"
  using owed_same [OF assms(2-7)] assms(1,8,9) by (auto intro: pool_counted_cong)

lemma after_read_owes_nothing [simp]: "after_read env params d \<noteq> In_count_code req r"
  using after_read_cases [of env params d] by auto

lemma pool_counted_step:
  "pool_step env params s s' \<Longrightarrow> pool_inv s \<Longrightarrow> pool_counted s \<Longrightarrow> pool_counted s'"
proof (induction rule: pool_step.induct)
  case (url_counted s i req r)
  with pool_inv_mtx(1) [OF url_counted(3,2)] show ?case
    by (simp add: pool_counted_def owed_holder pay_def count_url_def count_code_def counter.ok_bumps)
next
  case (code_counted s i req r)
  with pool_inv_mtx(1) [OF code_counted(3,2)] show ?case
    by (simp add: pool_counted_def owed_holder pay_def count_code_def counter.ok_bumps)
next
  case (accepted s i)
  then show ?case by - (rule pool_counted_cong [of s], simp_all add: owed_accepted)
next
  case (accept_failed s i)
  then show ?case by - (rule pool_counted_cong [of s], simp_all add: owed_accepted)
next
  case (lock s i p)
  then show ?case by - (rule pool_counted_cong [of s], simp_all add: owed_locked)
next
  case (unlock_write s i)
  then show ?case by - (rule pool_counted_cong [of s], simp_all)
next
  case (handled s i req h w r)
  with HandleRequest_manager [OF handled(3)] show ?case by - (rule pool_counted_set, assumption+, simp_all)
qed (rule pool_counted_set, assumption, assumption, assumption, simp, simp, simp, simp, simp, simp |
    rule pool_counted_cong, assumption, rule owed_cong, simp_all)+


lemma pool_running_counted: "pool_running env os net f params s \<Longrightarrow> pool_counted s"
proof -
  assume "pool_running env os net f params s"
  then obtain s0 where main: "server_main env os net 2 f = Runs params s0"
    and steps: "pool_steps env params (start_pool s0) s" by (auto simp: pool_running_def)
  from server_main_Runs [OF main] server_main_init [OF main] obtain c where "counted s0" "served s0 = []"
    by (metis sys_inv_def init_system_def phase_simps(10) system.select_convs(5))
  then have "pool_counted (start_pool s0)"
    by (simp add: pool_counted_def counted_def start_pool_def owed_def)
  from steps this pool_start_inv(1) [of s0] show "pool_counted s"
    by (induction rule: rtranclp_induct) (auto intro: pool_counted_step dest: pool.inv_steps)
qed

lemma total_paid: "map_ok (code_counter (manager w)) \<Longrightarrow>
    total_count (code_counter (manager (pay d w))) = total_count (code_counter (manager w)) + (if d \<noteq> None then 1 else 0)"
  by (cases d) (simp_all add: manager_pay counter.total_bump)

text \<open>The pool has one code to count exactly when some task is about to.\<close>

lemma owed_iff: "pool_inv s \<Longrightarrow> owed s \<noteq> None \<longleftrightarrow> (\<exists>i req r. tasks s i = Some (In_count_code req r))"
proof
  assume inv: "pool_inv s" and "\<exists>i req r. tasks s i = Some (In_count_code req r)"
  then obtain i req r where "tasks s i = Some (In_count_code req r)" by blast
  with pool_inv_mtx(1) [OF inv this] show "owed s \<noteq> None" by (simp add: owed_holder)
qed (fastforce simp: owed_def split: option.splits holder.splits task.splits)

section \<open>Threads that hang\<close>

text \<open>The first \<open>k\<close> sessions are inside a handler that does not return, the next waits for a connection.\<close>

definition hung :: "('db, 'net) world \<Rightarrow> request \<Rightarrow> handler \<Rightarrow> nat \<Rightarrow> ('db, 'net) pool" where
  "hung w req h k =
     \<lparr>pool_world = w,
      tasks = (\<lambda>i. if i < k then Some (Run_handler req h) else if i = k then Some Accept_wait else None),
      pool_next = Suc k, mtx = None, buffers = {}, ended = None, pool_served = []\<rparr>"

lemma pool_eqI:
  assumes "pool_world s = pool_world t" "tasks s = tasks t" "pool_next s = pool_next t" "mtx s = mtx t"
    "buffers s = buffers t" "ended s = ended t" "pool_served s = pool_served t"
  shows "s = (t :: ('db, 'net) pool)"
  using assms by simp

lemma hung_busy: "busy (hung w req h k) = {..<k}"
  by (auto simp: busy_def hung_def split: if_splits)

lemma start_hung: "start_pool s = hung (sys_world s) req h 0"
  by (rule pool_eqI) (auto simp: start_pool_def hung_def fun_eq_iff)

text \<open>One more client takes one more thread.\<close>

lemma hung_step:
  assumes "k < threads" and "0 < length d" and "length d \<le> max_length"
    and "after_read env params d = Lock_create req name config"
    and "h = createByName (manager w) name config (server_root params)"
  shows "pool_steps env params (hung w req h k) (hung w req h (Suc k))"
proof -
  let ?s = "hung w req h k"
  define s1 where "s1 = pool_accept (set_task k (Some Read_wait) ?s)"
  define s2 where "s2 = set_task k (Some (Lock_create req name config)) s1"
  define s3 where "s3 = set_task k (Some (In_create req name config)) (s2\<lparr>mtx := Some (Task k)\<rparr>)"
  define s4 where "s4 = set_task k (Some (Created req h)) s3"
  have s: "ended ?s = None" "tasks ?s k = Some Accept_wait" "mtx ?s = None" "pool_next ?s = Suc k" "pool_world ?s = w"
    by (simp_all add: hung_def)
  have free: "thread_free ?s" using assms(1) by (simp add: thread_free_def hung_busy returning_def s)
  have "busy s1 = {..<k}" by (auto simp: busy_def s1_def hung_def split: if_splits)
  then have free1: "thread_free s1" using assms(1) by (simp add: thread_free_def returning_def s1_def s)
  have "pool_step env params ?s s1" unfolding s1_def by (rule accepted) (simp_all add: s free)
  moreover have "pool_step env params s1 s2"
    unfolding s2_def assms(4) [symmetric]
    by (rule was_read) (use free1 assms(2,3) in \<open>simp_all add: s1_def s\<close>)
  moreover have "pool_step env params s2 s3"
    using lock [of s2 k "Lock_create req name config" env params] by (simp add: s3_def s2_def s1_def s)
  moreover have "pool_step env params s3 s4"
    using create [of s3 k req name config env params] by (simp add: s4_def s3_def s2_def s1_def s assms(5) [symmetric])
  moreover have "pool_step env params s4 (set_task k (Some (Run_handler req h)) (s4\<lparr>mtx := None\<rparr>))"
    by (rule unlock_created) (simp_all add: s4_def s3_def s2_def s1_def s)
  moreover have "set_task k (Some (Run_handler req h)) (s4\<lparr>mtx := None\<rparr>) = hung w req h (Suc k)"
    by (rule pool_eqI) (auto simp: s4_def s3_def s2_def s1_def hung_def fun_eq_iff)
  ultimately show ?thesis by (auto intro: converse_rtranclp_into_rtranclp)
qed

lemma hung_reached:
  assumes "k \<le> threads" and "0 < length d" and "length d \<le> max_length"
    and "after_read env params d = Lock_create req name config"
    and "h = createByName (manager w) name config (server_root params)"
  shows "pool_steps env params (hung w req h 0) (hung w req h k)"
  using assms(1)
proof (induction k)
  case (Suc k)
  with hung_step [OF _ assms(2-5), of k] show ?case by (auto intro: rtranclp_trans)
qed simp

text \<open>With every thread inside that handler nobody is left to do anything but take the signal.\<close>

lemma hung_stops:
  assumes "HandleRequest env h w req = Diverges" and "pool_step env params (hung w req h threads) t"
  shows "t = got_signal (hung w req h threads)"
proof -
  have full: "\<not> thread_free (hung w req h threads)"
    by (simp add: thread_free_def hung_busy)
  have waits: "p = Run_handler req h \<or> p = Accept_wait" if "tasks (hung w req h threads) i = Some p" for i p
    using that by (simp add: hung_def split: if_splits)
  have "mtx (hung w req h threads) = None" "pool_world (hung w req h threads) = w" by (simp_all add: hung_def)
  with assms(2) show ?thesis
    by (cases rule: pool_step.cases) (use assms(1) full in \<open>auto dest: waits\<close>)
qed


section \<open>A run of the threads\<close>

text \<open>One client is connected; the fields that its session changes are arguments.\<close>

definition one_client :: "('db, 'net) world \<Rightarrow> task \<Rightarrow> holder option \<Rightarrow> nat set \<Rightarrow> (string \<times> int) list \<Rightarrow> ('db, 'net) pool" where
  "one_client w p m b sv = \<lparr>pool_world = w, tasks = [0 \<mapsto> p, 1 \<mapsto> Accept_wait], pool_next = 2, mtx = m, buffers = b,
     ended = None, pool_served = sv\<rparr>"

lemma one_client_simps [simp]:
  "pool_world (one_client w p m b sv) = w" "tasks (one_client w p m b sv) 0 = Some p" "mtx (one_client w p m b sv) = m"
  "buffers (one_client w p m b sv) = b" "ended (one_client w p m b sv) = None" "pool_served (one_client w p m b sv) = sv"
  "set_task 0 (Some q) (one_client w p m b sv) = one_client w q m b sv"
  "(one_client w p m b sv)\<lparr>mtx := m'\<rparr> = one_client w p m' b sv"
  "(one_client w p m b sv)\<lparr>pool_world := w'\<rparr> = one_client w' p m b sv"
  "(one_client w p m b sv)\<lparr>buffers := b'\<rparr> = one_client w p m b' sv"
  "(one_client w p m b sv)\<lparr>pool_served := sv'\<rparr> = one_client w p m b sv'"
  by (auto simp: one_client_def set_task_def)

lemma one_client_free: "(\<And>i. m \<noteq> Some (Returning i)) \<Longrightarrow> thread_free (one_client w p m b sv)"
proof -
  assume "\<And>i. m \<noteq> Some (Returning i)"
  then have "returning (one_client w p m b sv) = 0" by (auto simp: returning_def split: option.split holder.split)
  moreover have "busy (one_client w p m b sv) \<subseteq> {0, 1}" by (auto simp: busy_def one_client_def split: if_splits)
  then have "card (busy (one_client w p m b sv)) \<le> card {0, 1 :: nat}" by (intro card_mono) simp_all
  ultimately show ?thesis by (simp add: thread_free_def threads_def THREAD_POOL_SIZE_def)
qed

text \<open>
  The client sends an invalid request: its session has read it, its thread is between the two updates of the
  counters, and at last the write has begun but the socket is full.
\<close>

abbreviation bad :: request where
  "bad \<equiv> invalid_request ''x''"

abbreviation bad_response :: string where
  "bad_response \<equiv> construct_http_response rev make_400_request"

definition pool_read :: "('db, 'net) system \<Rightarrow> ('db, 'net) pool" where
  "pool_read s = one_client (sys_world s) (Lock_count bad make_400_request) None {} []"

definition pool_racing :: "('db, 'net) system \<Rightarrow> ('db, 'net) pool" where
  "pool_racing s = one_client (count_url [] (sys_world s)) (In_count_code bad make_400_request) (Some (Task 0)) {} [([], 400)]"

definition pool_late :: "('db, 'net) system \<Rightarrow> ('db, 'net) pool" where
  "pool_late s = one_client (count_code 400 (count_url [] (sys_world s))) (Write_wait bad_response 0) None {} [([], 400)]"

lemma after_read_bad: "after_read mini_env params ''x'' = Lock_count bad make_400_request"
  by (simp add: after_read_def parse_request_line_def c_str_def invalid_request_def is_valid_def Let_def)

lemma pool_read_steps: "pool_steps mini_env params (start_pool s) (pool_read s)"
proof -
  let ?t = "one_client (sys_world s) Read_wait None {} []"
  have s: "ended (start_pool s) = None" "tasks (start_pool s) 0 = Some Accept_wait" by (simp_all add: start_pool_def)
  have "busy (start_pool s) = {}" "mtx (start_pool s) = None"
    by (auto simp: busy_def start_pool_def split: if_splits)
  then have free: "thread_free (start_pool s)" by (simp add: thread_free_def returning_def threads_def)
  have "pool_accept (set_task 0 (Some Read_wait) (start_pool s)) = ?t"
    by (rule pool_eqI) (auto simp: start_pool_def one_client_def)
  with accepted [OF s(1) free s(2), of mini_env params] have "pool_step mini_env params (start_pool s) ?t" by simp
  moreover have "pool_step mini_env params ?t (pool_read s)"
    using was_read [of ?t 0 "''x''" mini_env params] by (simp add: pool_read_def after_read_bad max_length_def one_client_free)
  ultimately show ?thesis by (auto intro: converse_rtranclp_into_rtranclp)
qed

lemma pool_racing_steps: "pool_steps mini_env params (pool_read s) (pool_racing s)"
proof -
  let ?t = "one_client (sys_world s) (In_count_url bad make_400_request) (Some (Task 0)) {} []"
  have "pool_step mini_env params (pool_read s) ?t"
    using lock [of "pool_read s" 0 "Lock_count bad make_400_request" mini_env params] by (simp add: pool_read_def)
  moreover have "pool_step mini_env params ?t (pool_racing s)"
    using url_counted [of ?t 0 bad make_400_request mini_env params] by (simp add: pool_racing_def demo_simps)
  ultimately show ?thesis by (auto intro: converse_rtranclp_into_rtranclp)
qed

lemma pool_late_steps: "pool_steps mini_env params (pool_racing s) (pool_late s)"
proof -
  let ?s = "\<lambda>p m b. one_client (count_code 400 (count_url [] (sys_world s))) p m b [([], 400)]"
  have "pool_step mini_env params (pool_racing s) (?s (Counted bad make_400_request) (Some (Task 0)) {})"
    using code_counted [of "pool_racing s" 0 bad make_400_request mini_env params]
    by (simp add: pool_racing_def demo_simps)
  moreover have "pool_step mini_env params \<dots> (?s (Lock_write bad_response) None {0})"
    using unlock_counted [of "?s (Counted bad make_400_request) (Some (Task 0)) {}" 0 bad make_400_request mini_env params]
    by (simp add: demo_simps)
  moreover have "pool_step mini_env params \<dots> (?s (In_write bad_response) (Some (Task 0)) {0})"
    using lock [of "?s (Lock_write bad_response) None {0}" 0 "Lock_write bad_response" mini_env params] by simp
  moreover have "pool_step mini_env params \<dots> (?s (Write_wait bad_response 0) (Some (Returning 0)) {0})"
    using start_write [of "?s (In_write bad_response) (Some (Task 0)) {0}" 0 bad_response 0 mini_env params] by simp
  moreover have "pool_step mini_env params \<dots> (pool_late s)"
    using unlock_write [of "?s (Write_wait bad_response 0) (Some (Returning 0)) {0}" 0 mini_env params]
    by (simp add: pool_late_def)
  ultimately show ?thesis by (auto intro: converse_rtranclp_into_rtranclp)
qed

lemma one_client_running:
  assumes "server_main mini_env os net 2 f = Runs params s"
  shows "pool_running mini_env os net f params (pool_read s)" "pool_running mini_env os net f params (pool_racing s)"
    "pool_running mini_env os net f params (pool_late s)"
proof -
  note run = pool_read_steps [of params s]
  with assms show "pool_running mini_env os net f params (pool_read s)" unfolding pool_running_def by blast
  from run pool_racing_steps have run: "pool_steps mini_env params (start_pool s) (pool_racing s)" by (rule rtranclp_trans)
  with assms show "pool_running mini_env os net f params (pool_racing s)" unfolding pool_running_def by blast
  from run pool_late_steps have "pool_steps mini_env params (start_pool s) (pool_late s)" by (rule rtranclp_trans)
  with assms show "pool_running mini_env os net f params (pool_late s)" unfolding pool_running_def by blast
qed

section \<open>Properties\<close>


definition echo_config :: NginxConfig where
  "echo_config = one_handler ''echo'' [NginxConfigStatement [''location'', ''/echo''] None]"

lemma echo_facts:
  "server_main mini_env (config_os echo_config) () 2 f = Runs (config_params echo_config) (config_system echo_config)"
  "''status'' \<notin> handler_types (config_params echo_config)"
proof -
  show "server_main mini_env (config_os echo_config) () 2 f = Runs (config_params echo_config) (config_system echo_config)"
    unfolding echo_config_def
    by (rule one_handler_main)
      (simp_all add: one_handler_def word_ok_def word_start_def word_end_def mini_create_table)
  show "''status'' \<notin> handler_types (config_params echo_config)"
    by (simp add: handler_types_def config_params_def echo_config_def one_handler_def get_key_value_def Let_def)
qed


text \<open>
  C17: A session that waits for the mutex can always get it: from every reachable state of a
  live program some steps lead to a state in which its thread holds the mutex, and then no other thread does.
\<close>

theorem waiting_thread_gets_mutex:
  assumes "pool_running env os net f params s" and "ended s = None" and "tasks s i = Some p" and "waits_mtx p"
  shows "\<exists>t. pool_steps env params s t \<and> tasks t i = Some (locked p) \<and>
    (\<forall>j q. tasks t j = Some q \<and> holds_mtx q \<longrightarrow> j = i)"
proof -
  have inv: "pool_inv s" using assms(1) by (rule pool_running_inv)
  from mtx_acquired [OF this assms(2-4)] obtain t where t: "pool_steps env params s t"
    "tasks t i = Some (locked p)" by blast
  have "pool_inv t" using pool.inv_steps [OF t(1) inv] .
  with t assms(4) show ?thesis by (blast intro: mutual_exclusion locked_simps(1))
qed

theorem waiting_thread_gets_mutex_witness:
  "\<exists>t. pool_steps mini_env demo_params (pool_read demo_system) t \<and>
    tasks t 0 = Some (In_count_url bad make_400_request) \<and> {j. \<exists>q. tasks t j = Some q \<and> holds_mtx q} = {0}"
proof -
  obtain t where "pool_steps mini_env demo_params (pool_read demo_system) t"
    "tasks t 0 = Some (In_count_url bad make_400_request)" "\<forall>j q. tasks t j = Some q \<and> holds_mtx q \<longrightarrow> j = 0"
    using waiting_thread_gets_mutex [OF one_client_running(1) [OF demo_main [of "''conf''"]], of 0 "Lock_count bad make_400_request"]
    by (auto simp: pool_read_def)
  then show ?thesis by (intro exI [of _ t]) auto
qed

text \<open>
  C18: Twenty-one requests whose handler does not return stop the server: a client that sends the same request
  on as many connections drives it into a state in which no step is left but the signal that ends
  it, neither an accept nor a read nor a write.
\<close>

theorem hanging_requests_stop_server:
  assumes "server_main env os net 2 f = Runs params s0" and "0 < length d" and "length d \<le> max_length"
    and "after_read env params d = Lock_create req name config"
    and "HandleRequest env (createByName (sys_manager s0) name config (server_root params)) (sys_world s0) req = Diverges"
  shows "\<exists>s. pool_running env os net f params s \<and> pool_next s = 22 \<and>
    (\<forall>t. pool_step env params s t \<longleftrightarrow> t = got_signal s)"
proof -
  define h where "h = createByName (sys_manager s0) name config (server_root params)"
  let ?s = "hung (sys_world s0) req h threads"
  have "pool_steps env params (start_pool s0) ?s"
    unfolding start_hung [of s0 req h] by (rule hung_reached [OF _ assms(2-4) h_def]) simp
  with assms(1) have "pool_running env os net f params ?s" unfolding pool_running_def by blast
  moreover have "pool_next ?s = 22" "ended ?s = None"
    by (simp_all add: hung_def threads_def THREAD_POOL_SIZE_def)
  moreover have "pool_step env params ?s t \<longleftrightarrow> t = got_signal ?s" for t
  proof
    show "t = got_signal ?s" if "pool_step env params ?s t" using hung_stops [OF assms(5) [folded h_def] that] .
    show "pool_step env params ?s t" if "t = got_signal ?s" unfolding that using \<open>ended ?s = None\<close> by (rule signal)
  qed
  ultimately show ?thesis by (intro exI [of _ ?s]) simp
qed

definition loop_config :: NginxConfig where
  "loop_config = one_handler ''proxy''
     [NginxConfigStatement [''location'', ''/p''] None, NginxConfigStatement [''host'', ''http://a''] None]"

text \<open>A network in which every page is a redirect to itself.\<close>

definition loop_env :: "(meme_record list, unit) env" where
  "loop_env = mini_env\<lparr>curl_perform :=
     (\<lambda>n u. (n, \<lparr>response_chunks = [], response_code = 301, redirect_url = u\<rparr>))\<rparr>"

lemma loop_redirected: "redirected ((next_transfer loop_env ^^ n) (first_transfer loop_env h net uri))"
  by (cases n) (simp_all add: redirected_def next_transfer_def getServerResponse_def loop_env_def split: prod.split)

lemma loop_main:
  "server_main loop_env (config_os loop_config) () 2 f = Runs (config_params loop_config) (config_system loop_config)"
  unfolding loop_config_def
  by (rule one_handler_main)
    (use mini_create_table in \<open>simp_all add: one_handler_def word_ok_def word_start_def word_end_def loop_env_def\<close>)

theorem hanging_requests_stop_server_witness:
  "\<exists>s. pool_running loop_env (config_os loop_config) () ''conf'' (config_params loop_config) s \<and> pool_next s = 22 \<and>
    (\<forall>t. pool_step loop_env (config_params loop_config) s t \<longleftrightarrow> t = got_signal s)"
proof (rule hanging_requests_stop_server [OF loop_main])
  let ?c = "NginxConfig [NginxConfigStatement [''location'', ''/p''] None, NginxConfigStatement [''host'', ''http://a''] None]"
  let ?req = "parse_request_line strip (get_line ''/p'')"
  have req: "is_valid ?req \<and> path ?req = ''/p''" by (rule parse_get_line) simp_all
  have paths: "handler_paths (config_params loop_config) = [(''/p'', ''proxy'', ?c)]"
    by (simp add: config_params_def loop_config_def one_handler_def get_key_value_def Let_def)
  show "0 < length (get_line ''/p'')" "length (get_line ''/p'') \<le> max_length"
    by (simp_all add: get_line_def max_length_def)
  show "after_read loop_env (config_params loop_config) (get_line ''/p'') = Lock_create ?req ''proxy'' ?c"
    using req paths by (simp add: after_read_def loop_env_def mini_env_def location_matches_iff Let_def)
  have "path ?req = proxy_handler.location (proxy_handler_create ?c) @ []"
    using req by (simp add: proxy_handler_create_def get_key_value_def)
  from iffD2 [OF proxy_diverges [OF this, unfolded follow_diverges_iff] allI [OF loop_redirected]]
  have "proxy_HandleRequest loop_env (proxy_handler_create ?c) net ?req = Diverges" for net .
  then show "HandleRequest loop_env (createByName (sys_manager (config_system loop_config)) ''proxy'' ?c
      (server_root (config_params loop_config))) (sys_world (config_system loop_config)) ?req = Diverges"
    by (simp add: createByName_def HandleRequest_def)
qed



text \<open>
  C23: A response is only safe while \<open>handle_read\<close> runs: when it has returned before the socket took the
  whole response, the string given to \<open>async_write\<close> is gone. The session can then fail, but the rest
  of the response is never sent from live memory, and going on reads memory that has been freed.
\<close>

theorem late_write_dangles:
  assumes "pool_running env os net f params s" and "ended s = None" and "thread_free s"
    and "tasks s i = Some (Write_wait resp n)" and "n < length resp" and "mtx s \<noteq> Some (Returning i)"
  shows "pool_step env params s (s\<lparr>ended := Some (Crash UseAfterFree)\<rparr>) \<and>
    (\<forall>t. pool_step env params s t \<longrightarrow> tasks t i = Some (Write_wait resp n) \<or> tasks t i = None)"
proof -
  have inv: "pool_inv s" using assms(1) by (rule pool_running_inv)
  then have gone: "i \<notin> buffers s" using assms(4,6) by (auto simp: pool_inv_def buffers_ok_def)
  have "i < pool_next s" using inv assms(4) unborn_ok_less by (auto simp: pool_inv_def)
  then have "tasks t i = Some (Write_wait resp n) \<or> tasks t i = None" if "pool_step env params s t" for t
    using that assms(4,5) gone by - (erule pool_step.cases, auto split: if_splits)
  with write_dangling [OF assms(2-5) gone] show ?thesis by blast
qed

theorem late_write_dangles_witness:
  "pool_step mini_env demo_params (pool_late demo_system)
     ((pool_late demo_system)\<lparr>ended := Some (Crash UseAfterFree)\<rparr>)"
proof -
  have "pool_running mini_env demo_os () ''conf'' demo_params (pool_late demo_system)"
    using demo_main by (rule one_client_running(3))
  moreover have "0 < length bad_response"
    by (simp add: construct_http_response_def)
  ultimately show ?thesis
    using late_write_dangles [of mini_env demo_os "()" "''conf''" demo_params "pool_late demo_system" 0 bad_response 0]
    by (simp add: pool_late_def one_client_free)
qed

end
