(* ===== verification/Meme_Pages.thy ===== *)
theory Meme_Pages
  imports Meme_Store
begin

text \<open>
  The pages of the meme handler that go beyond the store: the edit form, which is a file with
  placeholders, and the search, which is SQLite's \<open>LIKE\<close>.
\<close>

section \<open>Replacing placeholders\<close>

text \<open>
  What \<open>boost::replace_all\<close> does: from left to right, every occurrence of the search string becomes the
  replacement, which is not searched again.
\<close>

fun replace_all :: "string \<Rightarrow> string \<Rightarrow> string \<Rightarrow> string" where
  "replace_all [] pat v = []"
| "replace_all (c # s) pat v =
     (if pat \<noteq> [] \<and> prefix pat (c # s) then v @ replace_all (drop (length pat - 1) s) pat v
      else c # replace_all s pat v)"

lemma replace_all_skip:
  "hd pat \<notin> set a \<Longrightarrow> pat \<noteq> [] \<Longrightarrow> replace_all (a @ s) pat v = a @ replace_all s pat v"
  by (induction a) (auto simp: prefix_Cons)

lemma replace_all_hit:
  assumes "pat \<noteq> []"
  shows "replace_all (pat @ s) pat v = v @ replace_all s pat v"
proof -
  obtain c p where "pat = c # p" using assms by (cases pat) auto
  then show ?thesis by simp
qed

lemma replace_all_miss:
  assumes "pat \<noteq> []" and "hd pat \<notin> set (tl q)" and "\<not> prefix pat (q @ s)"
  shows "replace_all (q @ s) pat v = q @ replace_all s pat v"
proof (cases q)
  case (Cons c q')
  with assms replace_all_skip [of pat q' s v] show ?thesis by simp
qed simp

text \<open>A page with placeholders, as it is on disk and as it should be sent.\<close>

datatype part = Plain string | Top_text | Bottom_text | Meme_id

fun placeholder :: "part \<Rightarrow> string" where
  "placeholder (Plain s) = s"
| "placeholder Top_text = ''$meme.top''"
| "placeholder Bottom_text = ''$meme.bot''"
| "placeholder Meme_id = ''$meme.id''"

fun filled :: "string \<Rightarrow> string \<Rightarrow> string \<Rightarrow> part \<Rightarrow> string" where
  "filled t b i (Plain s) = s"
| "filled t b i Top_text = t"
| "filled t b i Bottom_text = b"
| "filled t b i Meme_id = i"

fun text_part :: "part \<Rightarrow> bool" where
  "text_part (Plain s) = (CHR ''$'' \<notin> set s)"
| "text_part x = True"

text \<open>One replacement fills in one kind of placeholder and leaves the others.\<close>

definition placeholders :: "string set" where
  "placeholders = {''$meme.top'', ''$meme.bot'', ''$meme.id''}"

lemma replace_pieces:
  assumes "k \<in> placeholders" and "\<forall>x \<in> set xs. x \<in> placeholders \<or> CHR ''$'' \<notin> set x"
  shows "replace_all (concat xs) k v = concat (map (\<lambda>x. if x = k then v else x) xs)"
  using assms(2)
proof (induction xs)
  case (Cons x xs)
  have k: "k \<noteq> []" "hd k = CHR ''$''" using assms(1) by (auto simp: placeholders_def)
  have IH: "replace_all (concat xs) k v = concat (map (\<lambda>x. if x = k then v else x) xs)" using Cons by simp
  consider "x = k" | "x \<noteq> k" "x \<in> placeholders" | "CHR ''$'' \<notin> set x" using Cons.prems by auto
  then show ?case
  proof cases
    case 1
    with IH replace_all_hit [OF k(1)] show ?thesis by simp
  next
    case 2
    with assms(1) have "\<not> prefix k (x @ concat xs)" "CHR ''$'' \<notin> set (tl x)" by (auto simp: placeholders_def)
    with 2 IH replace_all_miss [of k x] k show ?thesis by simp
  next
    case 3
    with k have "x \<noteq> k" by (cases k) auto
    with 3 IH replace_all_skip [of k x] k show ?thesis by simp
  qed
qed simp

lemma fill_page:
  assumes "\<forall>x \<in> set ps. text_part x" and "CHR ''$'' \<notin> set t \<union> set b"
  shows "replace_all (replace_all (replace_all (concat (map placeholder ps)) ''$meme.top'' t) ''$meme.bot'' b) ''$meme.id'' i =
    concat (map (filled t b i) ps)"
proof -
  let ?f = "\<lambda>k v x. if x = k then v else x :: string"
  have ok: "placeholder x \<in> placeholders \<or> CHR ''$'' \<notin> set (placeholder x)" if "x \<in> set ps" for x
    using assms(1) that by (cases x) (auto simp: placeholders_def)
  have "replace_all (replace_all (replace_all (concat (map placeholder ps)) ''$meme.top'' t) ''$meme.bot'' b) ''$meme.id'' i =
    concat (map (?f ''$meme.id'' i) (map (?f ''$meme.bot'' b) (map (?f ''$meme.top'' t) (map placeholder ps))))"
  proof -
    have 1: "replace_all (concat (map placeholder ps)) ''$meme.top'' t = concat (map (?f ''$meme.top'' t) (map placeholder ps))"
      by (rule replace_pieces) (use ok in \<open>auto simp: placeholders_def\<close>)
    have 2: "replace_all \<dots> ''$meme.bot'' b = concat (map (?f ''$meme.bot'' b) (map (?f ''$meme.top'' t) (map placeholder ps)))"
      by (rule replace_pieces) (use ok assms(2) in \<open>auto simp: placeholders_def\<close>)
    have 3: "replace_all \<dots> ''$meme.id'' i =
        concat (map (?f ''$meme.id'' i) (map (?f ''$meme.bot'' b) (map (?f ''$meme.top'' t) (map placeholder ps))))"
      by (rule replace_pieces) (use ok assms(2) in \<open>auto simp: placeholders_def\<close>)
    show ?thesis unfolding 1 2 3 ..
  qed
  moreover have "?f ''$meme.id'' i (?f ''$meme.bot'' b (?f ''$meme.top'' t (placeholder x))) = filled t b i x"
    if "x \<in> set ps" for x
    using assms that by (cases x) auto
  ultimately show ?thesis by (simp cong: map_cong)
qed

section \<open>Searching\<close>

text \<open>
  SQLite's \<open>LIKE\<close> for patterns without underscore: a percent sign matches any text, any other byte itself,
  ASCII letters without regard to case.
\<close>

definition ascii_lower :: "char \<Rightarrow> char" where
  "ascii_lower c = (if 65 \<le> (of_char c :: nat) \<and> (of_char c :: nat) \<le> 90 then char_of (of_char c + 32 :: nat) else c)"

fun like :: "string \<Rightarrow> string \<Rightarrow> bool" where
  "like [] s = (s = [])"
| "like (c # pat) [] = (c = CHR ''%'' \<and> like pat [])"
| "like (c # pat) (x # s) =
     (if c = CHR ''%'' then like pat (x # s) \<or> like (c # pat) s
      else ascii_lower c = ascii_lower x \<and> like pat s)"

definition contains_text :: "string \<Rightarrow> string \<Rightarrow> bool" where
  "contains_text q s \<longleftrightarrow> (\<exists>a m b. s = a @ m @ b \<and> map ascii_lower m = map ascii_lower q)"

lemma like_percent: "like (CHR ''%'' # pat) s \<longleftrightarrow> (\<exists>a b. s = a @ b \<and> like pat b)"
proof (induction s)
  case (Cons x s)
  have "(\<exists>a b. x # s = a @ b \<and> like pat b) \<longleftrightarrow> like pat (x # s) \<or> (\<exists>a b. s = a @ b \<and> like pat b)"
    by (auto simp: Cons_eq_append_conv)
  with Cons show ?case by simp
qed simp

lemma like_literal: "CHR ''%'' \<notin> set q \<Longrightarrow>
    like (q @ pat) s \<longleftrightarrow> (\<exists>m b. s = m @ b \<and> map ascii_lower m = map ascii_lower q \<and> like pat b)"
proof (induction q arbitrary: s)
  case (Cons c q)
  show ?case
  proof (cases s)
    case (Cons x xs)
    have "(\<exists>m b. x # xs = m @ b \<and> map ascii_lower m = map ascii_lower (c # q) \<and> like pat b) \<longleftrightarrow>
      ascii_lower x = ascii_lower c \<and> (\<exists>m b. xs = m @ b \<and> map ascii_lower m = map ascii_lower q \<and> like pat b)"
      (is "?L \<longleftrightarrow> ?R")
    proof
      assume ?L
      then show ?R by (auto simp: map_eq_Cons_conv) blast
    next
      assume ?R
      then obtain m b where "ascii_lower x = ascii_lower c" "xs = m @ b" "map ascii_lower m = map ascii_lower q" "like pat b"
        by blast
      then show ?L by (intro exI [of _ "x # m"] exI [of _ b]) simp
    qed
    with Cons Cons.prems Cons.IH [of xs] show ?thesis by auto
  qed (use Cons.prems in auto)
qed simp

lemma like_contains: "CHR ''%'' \<notin> set q \<Longrightarrow> like (''%'' @ q @ ''%'') s \<longleftrightarrow> contains_text q s"
  by (simp add: like_percent like_literal contains_text_def) blast

text \<open>The documented behaviour of SQLite on the statement of a search.\<close>

definition search_matches :: "string \<Rightarrow> meme_record \<Rightarrow> bool" where
  "search_matches q r = (case r of (n, p, t, b) \<Rightarrow> like (''%'' @ q @ ''%'') t \<or> like (''%'' @ q @ ''%'') b)"

definition like_law ::
  "('db \<Rightarrow> string \<Rightarrow> 'db \<times> sql_row list \<times> string option) \<Rightarrow> ('db \<Rightarrow> meme_record list) \<Rightarrow> bool" where
  "like_law exec table \<longleftrightarrow>
     (\<forall>d q. q \<noteq> [] \<and> text_ok q \<and> CHR ''_'' \<notin> set q \<longrightarrow>
        (\<exists>d'. exec d (list_sql q) = (d', map list_result (filter (search_matches q) (table d)), None) \<and>
              table d' = table d))"

lemma scan_list:
  assumes "CHR ''&'' \<notin> set f"
  shows "sscanf 1 ''/meme/list?query=%[^&]'' (''/meme/list?query='' @ f) = field_chain [f]"
  using scan_keyed [of "[(''/meme/list?query='', f)]"] assms by (simp add: isspace_def)

lemma list_sql_no_NUL: "text_ok q \<Longrightarrow> NUL \<notin> set (list_sql q)"
  by (simp add: text_ok_def list_sql_def)

lemma search_lists:
  assumes "like_law (sqlite3_exec env) table" and "meme_setup h" and "form_field env f q" and "CHR ''_'' \<notin> set q"
  shows "\<exists>d'. prepare_list_request env h st (''/meme/list?query='' @ f) =
      Returns (st\<lparr>meme_db := d'\<rparr>, 200, ''text/html'',
        list_page (map row_of (filter (search_matches q) (table (meme_db st)))) q) \<and> table d' = table (meme_db st)"
proof -
  note f = form_fieldD [OF assms(3)]
  then obtain d' where "sqlite3_exec env (meme_db st) (list_sql q) =
      (d', map list_result (filter (search_matches q) (table (meme_db st))), None)"
    and tbl: "table d' = table (meme_db st)" using assms(1,4) unfolding like_law_def by blast
  then have "exec_sql env h st (list_sql q) =
      Returns (st\<lparr>meme_db := d'\<rparr>, map list_result (filter (search_matches q) (table (meme_db st))), None)"
    using assms(2) f by (intro exec_sql_eq) (simp_all add: meme_setup_def list_sql_no_NUL)
  moreover have "sscanf 1 (c_str (location h @ ''/list'' @ ''?query=%[^&]'')) (c_str (''/meme/list?query='' @ f)) = Returns [f]"
    using assms(2) f scan_list [of f] by (simp add: meme_setup_def)
  ultimately show ?thesis
    using f tbl by (intro exI [of _ d']) (simp add: prepare_list_request_def scanned_def list_rows_results)
qed

section \<open>Properties\<close>

text \<open>
  C25: The edit page is the form on disk with the meme filled in: wherever the file has a placeholder for the
  top text, the bottom text or the id, and nowhere else, the page has that value of the meme, provided no
  text brings in a dollar sign. For an id without a meme the answer is 404.
\<close>

theorem edit_prefills_form:
  assumes "sqlite_laws (sqlite3_exec env) table" and "meme_setup h" and "small_id i" and "meme_inv table st"
    and "\<forall>s k v. boost_replace_all env s k v = replace_all s k v"
    and "path req = ''/meme/edit?update='' @ nat_to_string i"
    and "open_page env (handler_root h @ ''/edit.html'') = Some (concat (map placeholder ps))"
    and "\<forall>x \<in> set ps. text_part x"
    and "\<forall>p t b. map_of (table (meme_db st)) (int i) = Some (p, t, b) \<longrightarrow> CHR ''$'' \<notin> set t \<union> set b"
  shows "\<exists>st' r. meme_HandleRequest env h st req = Returns (st', r) \<and> table (meme_db st') = table (meme_db st) \<and>
    (code r, content r) =
      (case map_of (table (meme_db st)) (int i) of
         Some (p, t, b) \<Rightarrow> (200, concat (map (filled t b (nat_to_string i)) ps))
       | None \<Rightarrow> (404, not_found_page (nat_to_string i)))"
proof -
  obtain d' rows where
    "exec_sql env h st (select_sql (nat_to_string i)) = Returns (st\<lparr>meme_db := d'\<rparr>, rows, None)"
    "view_rows rows empty_row = Returns (found_row (map_of (table (meme_db st)) (int i)))"
    "table d' = table (meme_db st)" using select_finds [OF assms(1-4)] by blast
  moreover have "meme_page env h st req = prepare_edit_request env h st (handler_root h) (nat_to_string i)
      (404, ''text/plain'', ''404 Error: Page not found'')"
    using assms(2,6) by (simp add: meme_page_def meme_setup_def param_after_def str_substr_def Let_def)
  ultimately show ?thesis
    using assms(5,7,9) fill_page [OF assms(8)]
    by (auto simp: meme_HandleRequest_def prepare_edit_request_def found_row_def empty_row_def Let_def split: option.split)
qed

definition form_env :: "(meme_record list, unit) env" where
  "form_env = mini_env\<lparr>boost_replace_all := replace_all, is_regular_file := (\<lambda>f. True),
     read_file := (\<lambda>f. Some ''<i>$meme.id</i> $meme.top, $meme.bot'')\<rparr>"

theorem edit_prefills_form_witness:
  "\<exists>st' r. meme_HandleRequest form_env mini_handler mini_state1
      (default_request\<lparr>path := ''/meme/edit?update='' @ nat_to_string 1\<rparr>) = Returns (st', r) \<and>
    code r = 200 \<and> content r = ''<i>1</i> x, y''"
proof -
  have "open_page form_env (handler_root mini_handler @ ''/edit.html'') =
      Some (concat (map placeholder [Plain ''<i>'', Meme_id, Plain ''</i> '', Top_text, Plain '', '', Bottom_text]))"
    by (simp add: open_page_def form_env_def)
  moreover have "nat_to_string 1 = ''1''" by (simp add: nat_to_string.simps digit_char_def)
  moreover have "sqlite_laws (sqlite3_exec form_env) (\<lambda>d. d)" using mini_facts(1) by (simp add: form_env_def)
  moreover have "meme_inv (\<lambda>d. d) mini_state1" "meme_db mini_state1 = [(1, ''a.jpg'', ''x'', ''y'')]"
    by (simp_all add: mini_state1_def meme_inv_def)
  ultimately show ?thesis
    using edit_prefills_form [of form_env "\<lambda>d. d" mini_handler 1 mini_state1
        "default_request\<lparr>path := ''/meme/edit?update='' @ nat_to_string 1\<rparr>"
        "[Plain ''<i>'', Meme_id, Plain ''</i> '', Top_text, Plain '', '', Bottom_text]"] mini_facts(2)
    by (simp add: small_id_def form_env_def) blast
qed


text \<open>An engine that understands the statement of a search.\<close>

definition like_sql :: "meme_record list \<Rightarrow> string \<Rightarrow> meme_record list \<times> sql_row list \<times> string option" where
  "like_sql d s =
     (let k = split_quotes s ! 1
      in (d, map list_result (filter (\<lambda>(n, p, t, b). like k t \<or> like k b) d), None))"

lemma like_sql_law: "like_law like_sql (\<lambda>d. d)"
proof -
  have "split_quotes (list_sql q) ! 1 = ''%'' @ q @ ''%''" if "q \<noteq> []" "text_ok q" for q
  proof -
    let ?parts = "[''SELECT TEMPLATE, TOP, BOTTOM, ID FROM MEMES WHERE TOP LIKE '', ''%'' @ q @ ''%'',
      '' OR BOTTOM LIKE '', ''%'' @ q @ ''%'', '';'']"
    have "list_sql q = join_quotes ?parts" using that by (simp add: list_sql_def)
    then show ?thesis using split_join_quotes [of ?parts] that by (simp add: text_ok_def)
  qed
  moreover have "search_matches q = (\<lambda>(n, p, t, b). like (''%'' @ q @ ''%'') t \<or> like (''%'' @ q @ ''%'') b)" for q
    by (simp add: search_matches_def fun_eq_iff)
  ultimately show ?thesis by (simp add: like_law_def like_sql_def Let_def)
qed


end
