(* ===== verification/Spec2Isabelle.thy ===== *)
theory Spec2Isabelle
  imports Thread_Guarantees Meme_Pages
begin

text \<open>
  Bingit is a web server in C++ on top of Boost.Asio. It reads an nginx-like configuration file,
  listens on a port, and answers each request with the handler configured for its path: echo, static
  files, a status page, a proxy, a small meme service on SQLite, a health check, or a 404. This
  library models the program's own code (\<^verbatim>\<open>src/src\<close> and \<^verbatim>\<open>src/include\<close>) and proves what it does.

  \<^bold>\<open>Parts and theories.\<close> Each theory holds the data, the operations in the order of the code and
  the lemmas of one part; it imports the parts it calls.

  \<^item> \<open>Bingit_Prelude\<close>: what the code uses of C++ and its library: strings, C strings, decimal
    numbers, \<open>std::map\<close> and \<open>std::unordered_map\<close> (locale \<open>keyed_map\<close>), the counters (locale
    \<open>counter_table\<close>), and \<open>outcome\<close>, the result of code that can fault or not return.
  \<^item> \<open>Config_Parser\<close> (\<^verbatim>\<open>config_parser.cc\<close>): the configuration tree, \<open>ToString\<close>, \<open>ParseToken\<close>, \<open>Parse\<close>
    (\<open>parse_step\<close> is one round of its loop) and the queries. \<open>Config_Grammar\<close>: the parser accepts
    exactly the token sequences of well-formed trees, never runs into undefined behaviour, and
    printing and parsing are inverse to each other.
  \<^item> \<open>Config_Params\<close> (\<^verbatim>\<open>config_params.cc\<close>): the 16-bit port, the server root, the handler map.
  \<^item> \<open>Http_Message\<close> (\<^verbatim>\<open>request.cc\<close>, \<^verbatim>\<open>reply.cc\<close>) and \<open>Request_Parser\<close> (\<open>parse_request_line\<close> in
    \<^verbatim>\<open>session.cc\<close>): which requests are valid, and that requests and replies survive serialisation.
  \<^item> \<open>Handler\<close> (\<^verbatim>\<open>handler.h\<close> and the three stateless handlers): the interface as the locale
    \<open>request_handler\<close>, which every handler interprets, and \<open>env\<close>, the code outside the repository.
  \<^item> \<open>Static_Handler\<close>, \<open>Proxy_Handler\<close>, \<open>Status_Handler\<close>, \<open>Meme_Handler\<close>: one per handler.
    \<open>Meme_Store\<close>: the meme handler refines an abstract store, given the laws of SQLite. \<open>Meme_Pages\<close>:
    the edit form is the file on disk with the meme filled in, and a search lists what matches, given
    the behaviour of \<open>boost::replace_all\<close> and of \<open>LIKE\<close>.
  \<^item> \<open>Handler_Manager\<close> (\<^verbatim>\<open>handler_manager.cc\<close>): the factory, the virtual call, the state \<open>world\<close> that
    handlers share, and which faults a handler the factory makes can run into.
  \<^item> \<open>Session\<close> (\<^verbatim>\<open>session.cc\<close>): dispatch, \<open>handle_read\<close> as a function, and the step relation
    \<open>sys_step\<close>, in which the sessions interleave at the points where the code takes or releases
    a mutex or waits for the network. \<open>Session_System\<close>: its invariants (locale \<open>step_invariant\<close>).
  \<^item> \<open>Server\<close> (\<^verbatim>\<open>server.cc\<close>, \<^verbatim>\<open>server_main.cc\<close>): starting up, and \<open>running\<close>, the states the program
    can be in. This theory states what holds in all of them; \<open>Demo_Run\<close> has concrete servers and runs.
  \<^item> \<open>Thread_Pool\<close> (the threads and the signal handler of \<^verbatim>\<open>server_main.cc\<close>, the mutex of \<^verbatim>\<open>session.cc\<close>): the
    step relation \<open>pool_step\<close>, in which every lock, unlock and counter update of a thread is a step, a
    write may send its bytes piecemeal, and the lifetime of the response string is explicit.
    \<open>Thread_Refinement\<close>: these steps simulate those of \<open>sys_step\<close> (locale \<open>simulation\<close>) when no status
    handler is configured. \<open>Thread_Guarantees\<close>: a thread that waits for the mutex can get it, the two
    counters differ by at most one request, requests that hang stop the server, and a response that is not
    sent at once is sent from freed memory.

  \<^bold>\<open>How the code is represented.\<close> Objects are records, enumerations and the class hierarchy of
  handlers are datatypes, member functions take and return the object. Out-parameters are results.
  An uncaught exception, undefined behaviour and a loop that never ends are the values \<open>Faults\<close> and
  \<open>Diverges\<close> of \<open>outcome\<close>, or \<open>Undefined_parse\<close>; in the step relation a fault ends the process,
  which is the mildest thing undefined behaviour can do. Pointers that constructors leave uninitialised are options.
  Boost, libcurl, SQLite, the file system, the order of iteration of \<open>std::unordered_map\<close> and the
  operating system are arguments (\<open>env\<close>, \<open>os\<close>); what is assumed of them is a named hypothesis
  (\<open>trims\<close>, \<open>enumerates\<close>, \<open>sqlite_laws\<close>, \<open>like_law\<close>), and the witnesses instantiate them with functions that satisfy it.

  \<^bold>\<open>Bounds and termination.\<close> The loops of the parsers and \<open>sscanf\<close> are total functions with
  a termination proof. The only loop without a bound is the proxy's, a \<open>partial_function\<close> whose
  \<open>None\<close> is non-termination. The port has 16 bits, \<open>atoi\<close> wraps like the C library's. The
  request counters and \<open>meme_count\<close> are integers: that they stay below 2 to the 31 is
  a hypothesis where it matters. \<open>sizeof(std::string)\<close> is 32.

  \<^bold>\<open>What is not modelled.\<close> Log output and the result of \<open>init_curl\<close>, which is only logged; the
  internals of Asio, which delivers between 1 and 1024 bytes to a read; running out of memory; exceptions of
  \<open>boost::filesystem\<close>; how threads of handlers interleave inside one call of \<open>HandleRequest\<close>, which is one
  step, so that the status handler sees the counters between two updates, not in the middle of one (the meme
  handler holds its own lock around \<open>meme_count\<close> and SQLite); formats made of configured paths with other
  conversions than \<open>%%\<close> and \<open>%[^&]\<close>, which count as faults. Searches with a wildcard of \<open>LIKE\<close> in the query are
  modelled, but nothing is claimed about them.
\<close>

section \<open>Properties across components\<close>

lemma running_parts:
  assumes "running env os net f params s"
  shows "\<exists>c. params = config_params c \<and> listening s \<and> counted s \<and> codes_ok s \<and> phases_ok env params s \<and> crash_ok params s"
  using running_inv [OF assms] by (auto simp: sys_inv_def)

text \<open>
  C3: The counters are exact in every state a running server can reach, whatever the interleaving of
  its sessions: each path and each response code is counted as often as a request with that path, or
  a response with that code, has been served, and both totals are the number of requests served.
\<close>

theorem counters_exact:
  assumes "running env os net f params s"
  shows "(\<forall>p. count_of (url_counter (sys_manager s)) p = int (count_list (map fst (served s)) p)) \<and>
    (\<forall>c. count_of (code_counter (sys_manager s)) c = int (count_list (map snd (served s)) c)) \<and>
    total_count (url_counter (sys_manager s)) = int (length (served s)) \<and>
    total_count (code_counter (sys_manager s)) = int (length (served s))"
  using running_parts [OF assms] counted_totals [of s] by blast

theorem counters_exact_witness:
  "running mini_env demo_os () ''conf'' demo_params demo_counted \<and>
   count_of (url_counter (sys_manager demo_counted)) [] = 1 \<and>
   count_of (code_counter (sys_manager demo_counted)) 400 = 1 \<and>
   total_count (url_counter (sys_manager demo_counted)) = 1"
  using counters_exact [OF demo_counted_running [of "''conf''"]] demo_counted_running
  by (simp add: demo_counted_facts)

text \<open>
  C21: What the counters hold. In every reachable state they are sorted maps without duplicate keys, the code
  counter has no other keys than 200, 400 and 404, no entry is zero, and until two to the 31 requests
  have been served every count is the value of the 32-bit \<open>int\<close> the program keeps it in.
\<close>

theorem counters_typed:
  assumes "running env os net f params s"
  shows "map_ok (url_counter (sys_manager s)) \<and> map_ok (code_counter (sys_manager s)) \<and>
    fst ` set (code_counter (sys_manager s)) \<subseteq> {200, 400, 404} \<and>
    (\<forall>n \<in> snd ` set (url_counter (sys_manager s)) \<union> snd ` set (code_counter (sys_manager s)).
       1 \<le> n \<and> (length (served s) < 2 ^ 31 \<longrightarrow> sint (word_of_int n :: 32 word) = n))"
proof -
  have "counted s" and codes: "codes_ok s" using running_parts [OF assms] by blast+
  then have m: "url_counter (sys_manager s) = fold bump_counter (map fst (served s)) []"
    "code_counter (sys_manager s) = fold bump_counter (map snd (served s)) []" by (simp_all add: counted_def)
  have bounds: "1 \<le> n \<and> n \<le> int (length (served s))"
    if "n \<in> snd ` set (url_counter (sys_manager s)) \<union> snd ` set (code_counter (sys_manager s))" for n
    using that counter_values [of n "map fst (served s)"] counter_values [of n "map snd (served s)"]
    unfolding m by auto
  have "fst ` set (code_counter (sys_manager s)) \<subseteq> {200, 400, 404}"
    using counter_keys [of _ "map snd (served s)"] codes unfolding m codes_ok_def by auto
  moreover have "map_ok (url_counter (sys_manager s))" "map_ok (code_counter (sys_manager s))"
    by (simp_all add: m counter.ok_bumps)
  moreover have "sint (word_of_int n :: 32 word) = n"
    if "1 \<le> n" "n \<le> int (length (served s))" "length (served s) < 2 ^ 31" for n
    using that by (intro int32_id) auto
  ultimately show ?thesis using bounds by blast
qed

theorem counters_typed_witness:
  "map_ok (url_counter (sys_manager demo_counted)) \<and> fst ` set (code_counter (sys_manager demo_counted)) \<subseteq> {200, 400, 404} \<and>
    snd ` set (url_counter (sys_manager demo_counted)) \<subseteq> {n. 1 \<le> n \<and> sint (word_of_int n :: 32 word) = n}"
  using counters_typed [OF demo_counted_running [of "''conf''"]] by (auto simp: demo_counted_facts)





text \<open>
  C28: Every response a running server writes can be read by its client, in any iteration order of the
  header map: the first line end closes a status line with one of the codes 200, 400 and 404 and its
  message, header lines up to an empty line follow, and the rest has exactly the announced
  \<open>Content-Length\<close>.
\<close>

theorem written_responses_ok:
  assumes "running env os net f params s" and "sessions s i = Some (Writing resp)"
    and "enumerates (enum_headers env)" and "trims trim"
  shows "\<exists>ver c rest hs cont. c \<in> {200, 400, 404} \<and>
    read_version [] resp = (True, ver @ [SP] @ to_string c @ [SP] @ code_to_message c, rest) \<and>
    read_headers trim [] rest = (hs, cont) \<and>
    map_of hs ''Content-Length'' = Some (nat_to_string (length cont))"
proof -
  obtain req r where r: "CR \<notin> set (http_version req)" "reply_ok req r"
    "resp = construct_http_response (enum_headers env) r"
    using running_parts [OF assms(1)] phases_okD(3) assms(2) by blast
  moreover from r(2) have "code r \<in> {200, 400, 404}" by (simp add: reply_ok_def)
  ultimately show ?thesis using reply_readable [OF r(2) assms(3,4) r(1)] by blast
qed

theorem written_responses_ok_witness:
  "\<exists>ver c rest hs cont. c \<in> {200, 400, 404} \<and>
    read_version [] (construct_http_response rev make_400_request) =
      (True, ver @ [SP] @ to_string c @ [SP] @ code_to_message c, rest) \<and>
    read_headers strip [] rest = (hs, cont) \<and>
    map_of hs ''Content-Length'' = Some (nat_to_string (length cont))"
  using written_responses_ok [OF demo_counted_running [of "''conf''"] demo_counted_facts(3) _ trims_strip]
  by (simp add: demo_simps enumerates_rev)


text \<open>A client asks a connected server for the status page.\<close>

definition demo_status_request :: request where
  "demo_status_request = parse_request_line strip (get_line ''/status'')"

definition demo_asked :: "(meme_record list, unit) system" where
  "demo_asked = set_phase 0 (Some (begin_request mini_env demo_params (sys_manager demo_connected) (get_line ''/status'')))
     demo_connected"

definition demo_status_handler :: "handler_manager status_handler" where
  "demo_status_handler = \<lparr>url_counter_ptr = Some url_counter, code_counter_ptr = Some code_counter,
     paths_map_ptr = Some (handler_paths demo_params)\<rparr>"

lemma demo_asked_facts:
  "running mini_env demo_os () f demo_params demo_asked" "crashed demo_asked = None" "served demo_asked = []"
  "sessions demo_asked 0 = Some (Handling demo_status_request (Status_handler demo_status_handler))"
  "handler_types demo_params = {''status''}"
proof -
  have paths: "handler_paths demo_params = [(''/status'', ''status'', NginxConfig [NginxConfigStatement [''location'', ''/status''] None])]"
    by (simp add: config_params_def demo_config_def one_handler_def get_key_value_def Let_def)
  then show "handler_types demo_params = {''status''}" by (simp add: handler_types_def)
  have "sys_step mini_env demo_params demo_connected demo_asked"
    unfolding demo_asked_def
    by (rule read_some) (simp_all add: demo_connected_facts max_length_def get_line_def)
  with demo_connected_running show "running mini_env demo_os () f demo_params demo_asked" by (rule running_step)
  show "crashed demo_asked = None" "served demo_asked = []"
    by (simp_all add: demo_asked_def demo_connected_def config_system_def init_system_def)
  have "sys_manager demo_connected = \<lparr>url_counter = [], code_counter = [],
      manager_paths = Some (handler_paths demo_params), manager_db = DbHandle\<rparr>"
    by (simp add: demo_connected_def config_system_def init_system_def)
  then show "sessions demo_asked 0 = Some (Handling demo_status_request (Status_handler demo_status_handler))"
    using parse_get_line [of "''/status''" strip]
    by (simp add: demo_asked_def begin_request_def mini_env_def paths location_matches_iff createByName_def
        demo_status_request_def demo_status_handler_def setPathsMap_def setCodeMap_def setUrlMap_def
        status_handler_create_def Let_def)
qed




end
